theory Spec2Isabelle
  imports Main
begin

section \<open>Jetstream polling: data model\<close>

text \<open>
  The development embeds the Jetstream polling edge function of the repository
  (the TypeScript program that starts with
  \<^verbatim>\<open>import { serve } from "https://deno.land/std@0.168.0/http/server.ts"\<close>):
  the relevance filter, the event router, the four per-collection handlers, the
  notification emitter with its profile cache, and the polling cycle with its cursor.

  The database is a record of tables, each table a list of rows.  A handler takes the
  database and returns the new one, together with the way it completed: a JavaScript
  exception raised half-way leaves the writes made before it in place, so the database
  is returned in both cases.
\<close>

definition CANNECT_DOMAIN :: string where
  "CANNECT_DOMAIN = ''cannect.space''"

definition PROFILE_CACHE_TTL_MS :: int where
  "PROFILE_CACHE_TTL_MS = 3600000"

text \<open>
  Event payloads are untyped JSON (\<^verbatim>\<open>event: any\<close>, \<^verbatim>\<open>record: any\<close>).  The filter and
  the handlers call \<^verbatim>\<open>includes\<close> on the URI fields, so the dynamic type of these
  matters: \<^verbatim>\<open>uri?.includes(...)\<close> is \<^verbatim>\<open>undefined\<close> on a missing value, a substring
  test on a string, and a \<^verbatim>\<open>TypeError\<close> on a number.  The other fields are taken at
  the type the lexicon gives them: the text and the creation time of a post are strings
  when present, the DID of the actor and the record key are strings.
\<close>

datatype jsval = JUndefined | JString string | JNumber int

text \<open>
  \<^verbatim>\<open>record.subject\<close> is an object with a \<^verbatim>\<open>uri\<close> field for likes and reposts and a bare
  DID string for follows.
\<close>

datatype subject = SubjectRef jsval | SubjectDid string

record at_record =
  rec_subject :: "subject option"
  rec_reply_parent_uri :: jsval
  rec_reply_root_uri :: jsval
  rec_embed_record_uri :: jsval
  rec_text :: "string option"
  rec_createdAt :: "string option"

record jetstream_commit =
  operation :: string
  collection :: string
  commit_record :: "at_record option"
  rkey :: string

record jetstream_event =
  ev_did :: string
  ev_time_us :: "nat option"
  ev_kind :: string
  ev_commit :: "jetstream_commit option"

record post_row =
  post_id :: string
  post_user_id :: string
  post_at_uri :: "string option"
  likes_count :: nat
  reposts_count :: nat
  replies_count :: nat
  quotes_count :: nat

record profile_row =
  profile_id :: string
  profile_did :: "string option"
  followers_count :: nat

record interaction_row =
  fi_post_id :: "string option"
  fi_target_user_id :: "string option"
  fi_interaction_type :: string
  fi_actor_did :: string
  fi_at_uri :: string
  fi_metadata :: "(string option \<times> string option) option"

record notification_row =
  n_user_id :: string
  n_actor_id :: "string option"
  n_actor_did :: string
  n_actor_handle :: string
  n_actor_display_name :: "string option"
  n_actor_avatar :: "string option"
  n_reason :: string
  n_post_id :: "string option"
  n_is_external :: bool

record cache_row =
  c_did :: string
  c_handle :: "string option"
  c_display_name :: "string option"
  c_avatar :: "string option"
  c_cached_at :: nat

record cursor_row =
  cursor_time_us :: "nat option"
  events_processed :: nat
  last_error :: "string option"
  updated_at :: nat

text \<open>
  The last field is not a table: it logs the DIDs looked up at the public Bluesky API,
  so that "performs a remote lookup" is a visible effect.
\<close>

record db =
  posts :: "post_row list"
  profiles :: "profile_row list"
  federated_interactions :: "interaction_row list"
  notifications :: "notification_row list"
  bluesky_profile_cache :: "cache_row list"
  jetstream_cursor :: cursor_row
  profile_requests :: "string list"

subsection \<open>The outside world of one invocation\<close>

record api_profile =
  p_handle :: "string option"
  p_displayName :: "string option"
  p_avatar :: "string option"

text \<open>
  The answer of \<^verbatim>\<open>app.bsky.actor.getProfile\<close>: a profile, a response that is not OK
  (with its status), or an exception of \<^verbatim>\<open>fetch\<close> or \<^verbatim>\<open>response.json()\<close>.
\<close>

datatype api_response = ApiOk api_profile | ApiNotOk string | ApiThrow string

text \<open>
  The answer of the Jetstream request: the events parsed from the body, a response that
  is not OK (status and status text), or an exception with its \<^verbatim>\<open>name\<close> and message.
  The abort of the five-second timer is the exception named \<^verbatim>\<open>AbortError\<close>.
\<close>

datatype fetch_outcome =
    FetchOk "jetstream_event list"
  | FetchNotOk string string
  | FetchThrow string string

text \<open>
  \<open>now_ms\<close> is the reading of \<^verbatim>\<open>Date.now()\<close> while the cycle works, \<open>start_ms\<close> and
  \<open>end_ms\<close> the readings that give the duration.  \<open>cursor_error\<close> is the error of the
  cursor row's select, if any.  \<open>jetstream\<close> answers the request made with a cursor.
\<close>

record env =
  req_method :: string
  start_ms :: nat
  now_ms :: nat
  end_ms :: nat
  cursor_error :: "string option"
  jetstream :: "nat \<Rightarrow> fetch_outcome"
  bsky_api :: "string \<Rightarrow> api_response"

datatype completion = Normal | Throws string

datatype response =
    Preflight
  | Success (eventsReceived: nat) (eventsProcessed: nat) (cursor: nat) (durationMs: int)
  | Failure string

section \<open>Strings and storage primitives\<close>

fun starts_with :: "string \<Rightarrow> string \<Rightarrow> bool" where
  "starts_with s [] = True"
| "starts_with [] (p # ps) = False"
| "starts_with (c # cs) (p # ps) = (c = p \<and> starts_with cs ps)"

text \<open>\<^verbatim>\<open>String.prototype.includes\<close>: the second string occurs somewhere in the first.\<close>

fun str_includes :: "string \<Rightarrow> string \<Rightarrow> bool" where
  "str_includes [] sub = (sub = [])"
| "str_includes (c # cs) sub = (starts_with (c # cs) sub \<or> str_includes cs sub)"

text \<open>
  The store is taken to be reliable: a statement fails only for a reason that the rows
  determine (no row or several rows for a single-row select, a stored key for an
  insert).  The failure of the cursor select is an input of the invocation.
\<close>

text \<open>
  \<^verbatim>\<open>.single()\<close> and \<^verbatim>\<open>.maybeSingle()\<close>: the row when exactly one row matches.  With no
  row or several rows the \<^verbatim>\<open>data\<close> field is null; the callers look at \<^verbatim>\<open>data\<close> (and at
  \<^verbatim>\<open>error\<close> only together with it), so both are this function.
\<close>

fun single :: "'a list \<Rightarrow> 'a option" where
  "single [x] = Some x"
| "single xs = None"

definition posts_by_uri :: "db \<Rightarrow> string \<Rightarrow> post_row list" where
  "posts_by_uri d u = filter (\<lambda>p. post_at_uri p = Some u) (posts d)"

definition profiles_by_did :: "db \<Rightarrow> string \<Rightarrow> profile_row list" where
  "profiles_by_did d u = filter (\<lambda>p. profile_did p = Some u) (profiles d)"

definition interaction_rows :: "db \<Rightarrow> string \<Rightarrow> interaction_row list" where
  "interaction_rows d k = filter (\<lambda>i. fi_at_uri i = k) (federated_interactions d)"

text \<open>
  Modelled from the spec: the table definition of \<^verbatim>\<open>federated_interactions\<close> is not among
  the sources.  The spec makes the external record URI the idempotency key, "globally
  unique per interaction", enforced by "a uniqueness constraint at the storage layer":
  an insert whose \<^verbatim>\<open>at_uri\<close> is already stored fails and stores nothing.
\<close>

definition insert_interaction :: "interaction_row \<Rightarrow> db \<Rightarrow> db option" where
  "insert_interaction r d =
     (if interaction_rows d (fi_at_uri r) = []
      then Some (d\<lparr>federated_interactions := federated_interactions d @ [r]\<rparr>)
      else None)"

text \<open>A delete that matches no row deletes nothing and reports no error.\<close>

definition delete_interactions :: "string \<Rightarrow> db \<Rightarrow> db" where
  "delete_interactions k d =
     d\<lparr>federated_interactions := filter (\<lambda>i. fi_at_uri i \<noteq> k) (federated_interactions d)\<rparr>"

text \<open>
  Modelled from the spec: the stored procedures behind \<^verbatim>\<open>supabase.rpc\<close> are not among the
  sources.  The spec has the counter incremented on create and decremented on delete,
  "clamped at a floor of zero".  Counters are natural numbers, whose subtraction stops
  at zero.
\<close>

definition increment_post_likes :: "string \<Rightarrow> db \<Rightarrow> db" where
  "increment_post_likes target d =
     d\<lparr>posts := map (\<lambda>p. if post_id p = target then p\<lparr>likes_count := likes_count p + 1\<rparr> else p)
                     (posts d)\<rparr>"

definition decrement_post_likes :: "string \<Rightarrow> db \<Rightarrow> db" where
  "decrement_post_likes target d =
     d\<lparr>posts := map (\<lambda>p. if post_id p = target then p\<lparr>likes_count := likes_count p - 1\<rparr> else p)
                     (posts d)\<rparr>"

definition increment_post_reposts :: "string \<Rightarrow> db \<Rightarrow> db" where
  "increment_post_reposts target d =
     d\<lparr>posts := map (\<lambda>p. if post_id p = target then p\<lparr>reposts_count := reposts_count p + 1\<rparr> else p)
                     (posts d)\<rparr>"

definition decrement_post_reposts :: "string \<Rightarrow> db \<Rightarrow> db" where
  "decrement_post_reposts target d =
     d\<lparr>posts := map (\<lambda>p. if post_id p = target then p\<lparr>reposts_count := reposts_count p - 1\<rparr> else p)
                     (posts d)\<rparr>"

definition increment_post_replies :: "string \<Rightarrow> db \<Rightarrow> db" where
  "increment_post_replies target d =
     d\<lparr>posts := map (\<lambda>p. if post_id p = target then p\<lparr>replies_count := replies_count p + 1\<rparr> else p)
                     (posts d)\<rparr>"

definition increment_post_quotes :: "string \<Rightarrow> db \<Rightarrow> db" where
  "increment_post_quotes target d =
     d\<lparr>posts := map (\<lambda>p. if post_id p = target then p\<lparr>quotes_count := quotes_count p + 1\<rparr> else p)
                     (posts d)\<rparr>"

definition increment_profile_followers :: "string \<Rightarrow> db \<Rightarrow> db" where
  "increment_profile_followers target d =
     d\<lparr>profiles := map (\<lambda>p. if profile_id p = target
                              then p\<lparr>followers_count := followers_count p + 1\<rparr> else p)
                        (profiles d)\<rparr>"

definition decrement_profile_followers :: "string \<Rightarrow> db \<Rightarrow> db" where
  "decrement_profile_followers target d =
     d\<lparr>profiles := map (\<lambda>p. if profile_id p = target
                              then p\<lparr>followers_count := followers_count p - 1\<rparr> else p)
                        (profiles d)\<rparr>"

text \<open>
  Modelled from the spec: the table definition of \<^verbatim>\<open>bluesky_profile_cache\<close> is not among
  the sources.  The spec has one cache entry for an external actor, so the key of the
  \<^verbatim>\<open>upsert\<close> is the DID: the stored row of that DID is replaced, and a new row is added
  when there is none.
\<close>

definition upsert_cache :: "cache_row \<Rightarrow> db \<Rightarrow> db" where
  "upsert_cache r d =
     (if filter (\<lambda>c. c_did c = c_did r) (bluesky_profile_cache d) = []
      then d\<lparr>bluesky_profile_cache := bluesky_profile_cache d @ [r]\<rparr>
      else d\<lparr>bluesky_profile_cache :=
               map (\<lambda>c. if c_did c = c_did r then r else c) (bluesky_profile_cache d)\<rparr>)"

section \<open>Notifications and the profile cache\<close>

text \<open>
  What \<^verbatim>\<open>getBlueskyProfile\<close> returns: the cached row itself, or the JSON of the remote
  profile.  The two have different field names: the cache row has \<^verbatim>\<open>display_name\<close>, the
  remote profile \<^verbatim>\<open>displayName\<close>.
\<close>

datatype actor = CachedActor cache_row | FetchedActor api_profile

definition getBlueskyProfile :: "env \<Rightarrow> db \<Rightarrow> string \<Rightarrow> db \<times> actor option" where
  "getBlueskyProfile e d actorDid =
     (let cached = single (filter (\<lambda>c. c_did c = actorDid) (bluesky_profile_cache d)) in
      if (case cached of
            Some c \<Rightarrow> int (now_ms e) - int (c_cached_at c) < PROFILE_CACHE_TTL_MS
          | None \<Rightarrow> False)
      then (d, map_option CachedActor cached)
      else
        (let d1 = d\<lparr>profile_requests := profile_requests d @ [actorDid]\<rparr> in
         case bsky_api e actorDid of
           ApiNotOk status \<Rightarrow> (d1, None)
         | ApiThrow msg \<Rightarrow> (d1, None)
         | ApiOk profile \<Rightarrow>
             (upsert_cache \<lparr>c_did = actorDid, c_handle = p_handle profile,
                             c_display_name = p_displayName profile,
                             c_avatar = p_avatar profile, c_cached_at = now_ms e\<rparr> d1,
              Some (FetchedActor profile))))"

text \<open>\<^verbatim>\<open>actor?.handle\<close>, \<^verbatim>\<open>actor?.displayName\<close> and \<^verbatim>\<open>actor?.avatar\<close>.\<close>

fun actor_handle :: "actor option \<Rightarrow> string option" where
  "actor_handle None = None"
| "actor_handle (Some (CachedActor c)) = c_handle c"
| "actor_handle (Some (FetchedActor p)) = p_handle p"

fun actor_displayName :: "actor option \<Rightarrow> string option" where
  "actor_displayName None = None"
| "actor_displayName (Some (CachedActor c)) = None"
| "actor_displayName (Some (FetchedActor p)) = p_displayName p"

fun actor_avatar :: "actor option \<Rightarrow> string option" where
  "actor_avatar None = None"
| "actor_avatar (Some (CachedActor c)) = c_avatar c"
| "actor_avatar (Some (FetchedActor p)) = p_avatar p"

text \<open>\<^verbatim>\<open>h || actorDid.slice(0, 20)\<close>: a missing or empty handle gives the placeholder.\<close>

fun handle_or_placeholder :: "string option \<Rightarrow> string \<Rightarrow> string" where
  "handle_or_placeholder None actorDid = take 20 actorDid"
| "handle_or_placeholder (Some h) actorDid = (if h = [] then take 20 actorDid else h)"

definition createExternalNotification ::
  "env \<Rightarrow> db \<Rightarrow> string \<Rightarrow> string \<Rightarrow> string \<Rightarrow> string option \<Rightarrow> db" where
  "createExternalNotification e d userId actorDid reason postId =
     (case getBlueskyProfile e d actorDid of
        (d1, actor) \<Rightarrow>
          d1\<lparr>notifications := notifications d1 @
               [\<lparr>n_user_id = userId, n_actor_id = None, n_actor_did = actorDid,
                 n_actor_handle = handle_or_placeholder (actor_handle actor) actorDid,
                 n_actor_display_name = actor_displayName actor,
                 n_actor_avatar = actor_avatar actor,
                 n_reason = reason, n_post_id = postId, n_is_external = True\<rparr>]\<rparr>)"

section \<open>The handlers\<close>

text \<open>\<^verbatim>\<open>record?.subject?.uri\<close>: a bare string subject has no \<^verbatim>\<open>uri\<close> property.\<close>

fun subject_uri :: "at_record option \<Rightarrow> jsval" where
  "subject_uri None = JUndefined"
| "subject_uri (Some r) =
     (case rec_subject r of
        None \<Rightarrow> JUndefined
      | Some (SubjectRef u) \<Rightarrow> u
      | Some (SubjectDid s) \<Rightarrow> JUndefined)"

definition type_error :: string where
  "type_error = ''TypeError: includes is not a function''"

text \<open>
  The guard \<^verbatim>\<open>if (!subjectUri || !subjectUri.includes(CANNECT_DOMAIN)) return\<close>:
  \<open>Inr None\<close> when the handler returns, \<open>Inr (Some u)\<close> when it goes on with the
  string \<open>u\<close>, \<open>Inl\<close> when the call of \<^verbatim>\<open>includes\<close> on a non-zero number raises.
\<close>

fun local_subject :: "jsval \<Rightarrow> string + string option" where
  "local_subject JUndefined = Inr None"
| "local_subject (JString s) =
     (if s = [] \<or> \<not> str_includes s CANNECT_DOMAIN then Inr None else Inr (Some s))"
| "local_subject (JNumber n) = (if n = 0 then Inr None else Inl type_error)"

definition like_uri :: "string \<Rightarrow> string \<Rightarrow> string" where
  "like_uri actorDid k = ''at://'' @ actorDid @ ''/app.bsky.feed.like/'' @ k"

definition repost_uri :: "string \<Rightarrow> string \<Rightarrow> string" where
  "repost_uri actorDid k = ''at://'' @ actorDid @ ''/app.bsky.feed.repost/'' @ k"

definition post_uri :: "string \<Rightarrow> string \<Rightarrow> string" where
  "post_uri actorDid k = ''at://'' @ actorDid @ ''/app.bsky.feed.post/'' @ k"

definition follow_uri :: "string \<Rightarrow> string \<Rightarrow> string" where
  "follow_uri actorDid k = ''at://'' @ actorDid @ ''/app.bsky.graph.follow/'' @ k"

definition handleLikeEvent ::
  "env \<Rightarrow> db \<Rightarrow> string \<Rightarrow> string \<Rightarrow> at_record option \<Rightarrow> string \<Rightarrow> db \<times> completion" where
  "handleLikeEvent e d actorDid op record k =
     (case local_subject (subject_uri record) of
        Inl err \<Rightarrow> (d, Throws err)
      | Inr None \<Rightarrow> (d, Normal)
      | Inr (Some subjectUri) \<Rightarrow>
          (case single (posts_by_uri d subjectUri) of
             None \<Rightarrow> (d, Normal)
           | Some post \<Rightarrow>
               (let interactionUri = like_uri actorDid k in
                if op = ''create'' then
                  (case single (interaction_rows d interactionUri) of
                     Some existing \<Rightarrow> (d, Normal)
                   | None \<Rightarrow>
                       (case insert_interaction
                               \<lparr>fi_post_id = Some (post_id post), fi_target_user_id = None,
                                fi_interaction_type = ''like'', fi_actor_did = actorDid,
                                fi_at_uri = interactionUri, fi_metadata = None\<rparr> d of
                          None \<Rightarrow> (d, Normal)
                        | Some d1 \<Rightarrow>
                            (createExternalNotification e
                               (increment_post_likes (post_id post) d1)
                               (post_user_id post) actorDid ''like'' (Some (post_id post)),
                             Normal)))
                else if op = ''delete'' then
                  (decrement_post_likes (post_id post) (delete_interactions interactionUri d),
                   Normal)
                else (d, Normal))))"

definition handleRepostEvent ::
  "env \<Rightarrow> db \<Rightarrow> string \<Rightarrow> string \<Rightarrow> at_record option \<Rightarrow> string \<Rightarrow> db \<times> completion" where
  "handleRepostEvent e d actorDid op record k =
     (case local_subject (subject_uri record) of
        Inl err \<Rightarrow> (d, Throws err)
      | Inr None \<Rightarrow> (d, Normal)
      | Inr (Some subjectUri) \<Rightarrow>
          (case single (posts_by_uri d subjectUri) of
             None \<Rightarrow> (d, Normal)
           | Some post \<Rightarrow>
               (let interactionUri = repost_uri actorDid k in
                if op = ''create'' then
                  (case single (interaction_rows d interactionUri) of
                     Some existing \<Rightarrow> (d, Normal)
                   | None \<Rightarrow>
                       (case insert_interaction
                               \<lparr>fi_post_id = Some (post_id post), fi_target_user_id = None,
                                fi_interaction_type = ''repost'', fi_actor_did = actorDid,
                                fi_at_uri = interactionUri, fi_metadata = None\<rparr> d of
                          None \<Rightarrow> (d, Normal)
                        | Some d1 \<Rightarrow>
                            (createExternalNotification e
                               (increment_post_reposts (post_id post) d1)
                               (post_user_id post) actorDid ''repost'' (Some (post_id post)),
                             Normal)))
                else if op = ''delete'' then
                  (decrement_post_reposts (post_id post) (delete_interactions interactionUri d),
                   Normal)
                else (d, Normal))))"

text \<open>
  The reply half of \<^verbatim>\<open>handlePostEvent\<close>, entered with a parent URI that is a string
  containing the domain.
\<close>

definition reply_part ::
  "env \<Rightarrow> db \<Rightarrow> string \<Rightarrow> at_record option \<Rightarrow> string \<Rightarrow> string \<Rightarrow> db" where
  "reply_part e d actorDid record interactionUri parentUri =
     (case single (posts_by_uri d parentUri) of
        None \<Rightarrow> d
      | Some parentPost \<Rightarrow>
          (case single (interaction_rows d interactionUri) of
             Some existing \<Rightarrow> d
           | None \<Rightarrow>
               (case insert_interaction
                       \<lparr>fi_post_id = Some (post_id parentPost), fi_target_user_id = None,
                        fi_interaction_type = ''reply'', fi_actor_did = actorDid,
                        fi_at_uri = interactionUri,
                        fi_metadata =
                          Some (map_option (take 500) (Option.bind record rec_text),
                                Option.bind record rec_createdAt)\<rparr> d of
                  None \<Rightarrow> d
                | Some d1 \<Rightarrow>
                    createExternalNotification e
                      (increment_post_replies (post_id parentPost) d1)
                      (post_user_id parentPost) actorDid ''reply''
                      (Some (post_id parentPost)))))"

text \<open>The quote half; its key is the post URI followed by \<^verbatim>\<open>#quote\<close>.\<close>

definition quote_part ::
  "env \<Rightarrow> db \<Rightarrow> string \<Rightarrow> at_record option \<Rightarrow> string \<Rightarrow> string \<Rightarrow> db" where
  "quote_part e d actorDid record interactionUri quotedUri =
     (case single (posts_by_uri d quotedUri) of
        None \<Rightarrow> d
      | Some quotedPost \<Rightarrow>
          (let quoteInteractionUri = interactionUri @ ''#quote'' in
           case single (interaction_rows d quoteInteractionUri) of
             Some existing \<Rightarrow> d
           | None \<Rightarrow>
               (case insert_interaction
                       \<lparr>fi_post_id = Some (post_id quotedPost), fi_target_user_id = None,
                        fi_interaction_type = ''quote'', fi_actor_did = actorDid,
                        fi_at_uri = quoteInteractionUri,
                        fi_metadata =
                          Some (map_option (take 500) (Option.bind record rec_text),
                                Option.bind record rec_createdAt)\<rparr> d of
                  None \<Rightarrow> d
                | Some d1 \<Rightarrow>
                    createExternalNotification e
                      (increment_post_quotes (post_id quotedPost) d1)
                      (post_user_id quotedPost) actorDid ''quote''
                      (Some (post_id quotedPost)))))"

text \<open>
  \<^verbatim>\<open>if (uri?.includes(CANNECT_DOMAIN)) { ... }\<close> around a block that changes the
  database: the block runs on a string that contains the domain, nothing happens on a
  missing value or another string, and a number raises.
\<close>

fun when_local :: "jsval \<Rightarrow> (string \<Rightarrow> db) \<Rightarrow> db \<Rightarrow> string + db" where
  "when_local JUndefined block d = Inr d"
| "when_local (JString s) block d =
     (if str_includes s CANNECT_DOMAIN then Inr (block s) else Inr d)"
| "when_local (JNumber n) block d = Inl type_error"

fun reply_parent_uri :: "at_record option \<Rightarrow> jsval" where
  "reply_parent_uri None = JUndefined"
| "reply_parent_uri (Some r) = rec_reply_parent_uri r"

fun embed_record_uri :: "at_record option \<Rightarrow> jsval" where
  "embed_record_uri None = JUndefined"
| "embed_record_uri (Some r) = rec_embed_record_uri r"

definition handlePostEvent ::
  "env \<Rightarrow> db \<Rightarrow> string \<Rightarrow> string \<Rightarrow> at_record option \<Rightarrow> string \<Rightarrow> db \<times> completion" where
  "handlePostEvent e d actorDid op record k =
     (if op \<noteq> ''create'' then (d, Normal)
      else
        (let interactionUri = post_uri actorDid k in
         case when_local (reply_parent_uri record)
                (reply_part e d actorDid record interactionUri) d of
           Inl err \<Rightarrow> (d, Throws err)
         | Inr d1 \<Rightarrow>
             (case when_local (embed_record_uri record)
                     (quote_part e d1 actorDid record interactionUri) d1 of
                Inl err \<Rightarrow> (d1, Throws err)
              | Inr d2 \<Rightarrow> (d2, Normal))))"

text \<open>
  \<^verbatim>\<open>const subjectDid = record?.subject; if (!subjectDid) return\<close>, then the value as
  the query builder sends it: a string as it is, an object as \<^verbatim>\<open>[object Object]\<close>.
\<close>

fun follow_subject :: "at_record option \<Rightarrow> string option" where
  "follow_subject None = None"
| "follow_subject (Some r) =
     (case rec_subject r of
        None \<Rightarrow> None
      | Some (SubjectDid s) \<Rightarrow> (if s = [] then None else Some s)
      | Some (SubjectRef u) \<Rightarrow> Some ''[object Object]'')"

definition handleFollowEvent ::
  "env \<Rightarrow> db \<Rightarrow> string \<Rightarrow> string \<Rightarrow> at_record option \<Rightarrow> string \<Rightarrow> db \<times> completion" where
  "handleFollowEvent e d actorDid op record k =
     (case follow_subject record of
        None \<Rightarrow> (d, Normal)
      | Some subjectDid \<Rightarrow>
          (case single (profiles_by_did d subjectDid) of
             None \<Rightarrow> (d, Normal)
           | Some profile \<Rightarrow>
               (let interactionUri = follow_uri actorDid k in
                if op = ''create'' then
                  (case single (interaction_rows d interactionUri) of
                     Some existing \<Rightarrow> (d, Normal)
                   | None \<Rightarrow>
                       (case insert_interaction
                               \<lparr>fi_post_id = None, fi_target_user_id = Some (profile_id profile),
                                fi_interaction_type = ''follow'', fi_actor_did = actorDid,
                                fi_at_uri = interactionUri, fi_metadata = None\<rparr> d of
                          None \<Rightarrow> (d, Normal)
                        | Some d1 \<Rightarrow>
                            (createExternalNotification e
                               (increment_profile_followers (profile_id profile) d1)
                               (profile_id profile) actorDid ''follow'' None,
                             Normal)))
                else if op = ''delete'' then
                  (decrement_profile_followers (profile_id profile)
                     (delete_interactions interactionUri d),
                   Normal)
                else (d, Normal))))"

section \<open>Router, relevance filter and polling cycle\<close>

definition processEvent :: "env \<Rightarrow> db \<Rightarrow> jetstream_event \<Rightarrow> db \<times> completion" where
  "processEvent e d event =
     (case ev_commit event of
        None \<Rightarrow> (d, Normal)
      | Some c \<Rightarrow>
          if collection c = ''app.bsky.feed.like''
            then handleLikeEvent e d (ev_did event) (operation c) (commit_record c) (rkey c)
          else if collection c = ''app.bsky.feed.repost''
            then handleRepostEvent e d (ev_did event) (operation c) (commit_record c) (rkey c)
          else if collection c = ''app.bsky.feed.post''
            then handlePostEvent e d (ev_did event) (operation c) (commit_record c) (rkey c)
          else if collection c = ''app.bsky.graph.follow''
            then handleFollowEvent e d (ev_did event) (operation c) (commit_record c) (rkey c)
          else (d, Normal))"

text \<open>\<^verbatim>\<open>uri?.includes(CANNECT_DOMAIN)\<close> as a condition.\<close>

fun optional_includes :: "jsval \<Rightarrow> string + bool" where
  "optional_includes JUndefined = Inr False"
| "optional_includes (JString s) = Inr (str_includes s CANNECT_DOMAIN)"
| "optional_includes (JNumber n) = Inl type_error"

text \<open>
  A chain of \<^verbatim>\<open>if (c) return true\<close>: the first condition that raises ends the function
  with the exception, the first that holds ends it with \<open>True\<close>.
\<close>

fun first_true :: "(string + bool) list \<Rightarrow> bool \<Rightarrow> string + bool" where
  "first_true [] rest = Inr rest"
| "first_true (Inl err # cs) rest = Inl err"
| "first_true (Inr b # cs) rest = (if b then Inr True else first_true cs rest)"

definition isRelevantToCannect :: "jetstream_event \<Rightarrow> string + bool" where
  "isRelevantToCannect event =
     (if ev_kind event \<noteq> ''commit'' then Inr False
      else case ev_commit event of
        None \<Rightarrow> Inr False
      | Some c \<Rightarrow>
          (case commit_record c of
             None \<Rightarrow> Inr False
           | Some r \<Rightarrow>
               first_true
                 [optional_includes (subject_uri (Some r)),
                  optional_includes (rec_reply_parent_uri r),
                  optional_includes (rec_reply_root_uri r),
                  optional_includes (rec_embed_record_uri r)]
                 (collection c = ''app.bsky.graph.follow'')))"

text \<open>
  One round of the loop over the batch.  The state is the database, \<^verbatim>\<open>processedCount\<close>
  and \<^verbatim>\<open>latestCursor\<close>.  The cursor is moved first; whatever is raised after that is
  caught and the loop goes on with the next event.
\<close>

definition advance :: "nat \<Rightarrow> jetstream_event \<Rightarrow> nat" where
  "advance latestCursor event =
     (case ev_time_us event of
        None \<Rightarrow> latestCursor
      | Some t \<Rightarrow> if t \<noteq> 0 \<and> t > latestCursor then t else latestCursor)"

definition poll_step :: "env \<Rightarrow> db \<times> nat \<times> nat \<Rightarrow> jetstream_event \<Rightarrow> db \<times> nat \<times> nat" where
  "poll_step e st event =
     (case st of
        (d, processedCount, latestCursor) \<Rightarrow>
          (case isRelevantToCannect event of
             Inl err \<Rightarrow> (d, processedCount, advance latestCursor event)
           | Inr False \<Rightarrow> (d, processedCount, advance latestCursor event)
           | Inr True \<Rightarrow>
               (case processEvent e d event of
                  (d1, Normal) \<Rightarrow> (d1, processedCount + 1, advance latestCursor event)
                | (d1, Throws err) \<Rightarrow> (d1, processedCount, advance latestCursor event))))"

definition poll_loop :: "env \<Rightarrow> jetstream_event list \<Rightarrow> db \<times> nat \<times> nat \<Rightarrow> db \<times> nat \<times> nat" where
  "poll_loop e events st = foldl (poll_step e) st events"

text \<open>
  \<^verbatim>\<open>String(error)\<close> of an exception with the given \<^verbatim>\<open>name\<close> and \<^verbatim>\<open>message\<close>, which is
  \<^verbatim>\<open>Error.prototype.toString\<close>: the message alone when the name is empty, the name alone
  when the message is empty, and otherwise the name, a colon, a space and the message.
\<close>

definition error_string :: "string \<Rightarrow> string \<Rightarrow> string" where
  "error_string name msg =
     (if name = [] then msg else if msg = [] then name else name @ '': '' @ msg)"

text \<open>
  The inner \<^verbatim>\<open>try\<close> around the Jetstream request: the batch, where an abort leaves the
  empty batch the variable was initialised with, or the error that is thrown on, as the
  outer \<^verbatim>\<open>catch\<close> renders it with \<^verbatim>\<open>String(error)\<close>.  The error of a response that is not
  OK is \<^verbatim>\<open>new Error(`Jetstream error: ${response.status} ${response.statusText}`)\<close>,
  whose name is \<^verbatim>\<open>Error\<close> and whose message is not empty.
\<close>

fun received :: "fetch_outcome \<Rightarrow> string + jetstream_event list" where
  "received (FetchOk events) = Inr events"
| "received (FetchNotOk status statusText) =
     Inl (''Error: Jetstream error: '' @ status @ '' '' @ statusText)"
| "received (FetchThrow name msg) =
     (if name = ''AbortError'' then Inr [] else Inl (error_string name msg))"

text \<open>The outer \<^verbatim>\<open>catch\<close>: the error goes into the cursor row and into the response.\<close>

definition cycle_failed :: "env \<Rightarrow> db \<Rightarrow> string \<Rightarrow> db \<times> response" where
  "cycle_failed e d err =
     (d\<lparr>jetstream_cursor := (jetstream_cursor d)\<lparr>last_error := Some err, updated_at := now_ms e\<rparr>\<rparr>,
      Failure err)"

definition start_cursor :: "env \<Rightarrow> db \<Rightarrow> nat" where
  "start_cursor e d =
     (case cursor_time_us (jetstream_cursor d) of
        None \<Rightarrow> now_ms e * 1000
      | Some c \<Rightarrow> if c = 0 then now_ms e * 1000 else c)"

definition serve :: "env \<Rightarrow> db \<Rightarrow> db \<times> response" where
  "serve e d =
     (if req_method e = ''OPTIONS'' then (d, Preflight)
      else case cursor_error e of
        Some msg \<Rightarrow> cycle_failed e d (''Error: Cursor fetch failed: '' @ msg)
      | None \<Rightarrow>
          (let cursor = start_cursor e d in
           case received (jetstream e cursor) of
             Inl err \<Rightarrow> cycle_failed e d err
           | Inr events \<Rightarrow>
               (case poll_loop e events (d, 0, cursor) of
                  (d1, processedCount, latestCursor) \<Rightarrow>
                    (d1\<lparr>jetstream_cursor :=
                          (jetstream_cursor d1)\<lparr>cursor_time_us := Some latestCursor,
                                                 events_processed := processedCount,
                                                 last_error := None,
                                                 updated_at := end_ms e\<rparr>\<rparr>,
                     Success (length events) processedCount latestCursor
                       (int (end_ms e) - int (start_ms e))))))"

section \<open>Outbound write-through agent\<close>

text \<open>
  Modelled from the spec: the agent (the \<^verbatim>\<open>atproto-agent\<close> edge function and its client)
  is not among the sources; only its test suite and the testing guide are.  The spec
  gives the contract \<^verbatim>\<open>perform(action, localUserId, target) -> ExternalRecordReference\<close>
  for the seven actions: the acting user needs a session; a write refused for an expired
  credential is retried once after a refresh, and an authorization error is surfaced
  only when the refresh fails; on success the agent creates or deletes the local mirror
  and adjusts the counter; a failed write is surfaced and changes nothing locally.
\<close>

datatype action = DoLike | DoUnlike | DoRepost | DoUnrepost | DoFollow | DoUnfollow | DoReply

text \<open>
  The answer of the PDS to a write: the reference of the record, a refusal for an
  expired credential, or a failure (network error, malformed target reference).
\<close>

datatype pds_answer = Written string | Unauthorized | Rejected string

datatype outbound_error = NoSession | AuthorizationFailed string | WriteFailed string

record pds_world =
  has_session :: bool
  first_write :: pds_answer
  refresh_error :: "string option"
  second_write :: pds_answer

definition pds_write :: "pds_world \<Rightarrow> outbound_error + string" where
  "pds_write w =
     (if \<not> has_session w then Inl NoSession
      else case first_write w of
        Written uri \<Rightarrow> Inr uri
      | Rejected msg \<Rightarrow> Inl (WriteFailed msg)
      | Unauthorized \<Rightarrow>
          (case refresh_error w of
             Some msg \<Rightarrow> Inl (AuthorizationFailed msg)
           | None \<Rightarrow>
               (case second_write w of
                  Written uri \<Rightarrow> Inr uri
                | Rejected msg \<Rightarrow> Inl (WriteFailed msg)
                | Unauthorized \<Rightarrow> Inl (AuthorizationFailed ''credential refused after refresh''))))"

text \<open>
  The target of an action: the local post or profile, and for a retraction the
  reference of the record that is retracted.
\<close>

record outbound_target =
  target_id :: string
  target_record :: string

text \<open>
  The mirror of a created record is keyed by the reference the PDS issued; when the key
  is already stored nothing is counted.  The mirror of a retraction deletes by the key
  and decrements when there was a record.
\<close>

definition mirror_created ::
  "interaction_row \<Rightarrow> (db \<Rightarrow> db) \<Rightarrow> db \<Rightarrow> db" where
  "mirror_created r bump d = (case insert_interaction r d of None \<Rightarrow> d | Some d1 \<Rightarrow> bump d1)"

definition mirror_retracted :: "string \<Rightarrow> (db \<Rightarrow> db) \<Rightarrow> db \<Rightarrow> db" where
  "mirror_retracted key bump d =
     (if interaction_rows d key = [] then d else bump (delete_interactions key d))"

fun local_mirror :: "action \<Rightarrow> string \<Rightarrow> outbound_target \<Rightarrow> string \<Rightarrow> db \<Rightarrow> db" where
  "local_mirror DoLike actorDid t uri d =
     mirror_created \<lparr>fi_post_id = Some (target_id t), fi_target_user_id = None,
                     fi_interaction_type = ''like'', fi_actor_did = actorDid,
                     fi_at_uri = uri, fi_metadata = None\<rparr>
       (increment_post_likes (target_id t)) d"
| "local_mirror DoRepost actorDid t uri d =
     mirror_created \<lparr>fi_post_id = Some (target_id t), fi_target_user_id = None,
                     fi_interaction_type = ''repost'', fi_actor_did = actorDid,
                     fi_at_uri = uri, fi_metadata = None\<rparr>
       (increment_post_reposts (target_id t)) d"
| "local_mirror DoReply actorDid t uri d =
     mirror_created \<lparr>fi_post_id = Some (target_id t), fi_target_user_id = None,
                     fi_interaction_type = ''reply'', fi_actor_did = actorDid,
                     fi_at_uri = uri, fi_metadata = None\<rparr>
       (increment_post_replies (target_id t)) d"
| "local_mirror DoFollow actorDid t uri d =
     mirror_created \<lparr>fi_post_id = None, fi_target_user_id = Some (target_id t),
                     fi_interaction_type = ''follow'', fi_actor_did = actorDid,
                     fi_at_uri = uri, fi_metadata = None\<rparr>
       (increment_profile_followers (target_id t)) d"
| "local_mirror DoUnlike actorDid t uri d =
     mirror_retracted (target_record t) (decrement_post_likes (target_id t)) d"
| "local_mirror DoUnrepost actorDid t uri d =
     mirror_retracted (target_record t) (decrement_post_reposts (target_id t)) d"
| "local_mirror DoUnfollow actorDid t uri d =
     mirror_retracted (target_record t) (decrement_profile_followers (target_id t)) d"

definition perform ::
  "pds_world \<Rightarrow> action \<Rightarrow> string \<Rightarrow> outbound_target \<Rightarrow> db \<Rightarrow> (outbound_error + string) \<times> db" where
  "perform w act actorDid t d =
     (case pds_write w of
        Inl err \<Rightarrow> (Inl err, d)
      | Inr uri \<Rightarrow> (Inr uri, local_mirror act actorDid t uri d))"

section \<open>Concurrent runs of the create branches\<close>

text \<open>
  The create branches of \<^verbatim>\<open>handleLikeEvent\<close>, \<^verbatim>\<open>handleRepostEvent\<close>, \<^verbatim>\<open>handlePostEvent\<close>
  (reply and quote) and \<^verbatim>\<open>handleFollowEvent\<close> make the same awaited storage statements
  in the same order: the select of the subject (a post by its URI, for a follow a profile
  by its DID), the select of the interaction row with the interaction URI, the insert,
  the call of the counter procedure when the insert reported no error, and the
  notification.  Between two statements of one path the statements of another path may
  run.

  A job is one run of such a branch: its kind, the URI or DID of its subject, the actor,
  the interaction URI, and the metadata of the row it inserts.  A job of the poller is
  inbound; the other jobs are those of the outbound agent, further down.
\<close>

datatype kind = KLike | KRepost | KReply | KQuote | KFollow

record job =
  j_kind :: kind
  j_inbound :: bool
  j_subject :: string
  j_actor :: string
  j_key :: string
  j_metadata :: "(string option \<times> string option) option"

text \<open>The value of \<^verbatim>\<open>interaction_type\<close>, which is also the reason of the notification.\<close>

fun kind_name :: "kind \<Rightarrow> string" where
  "kind_name KLike = ''like''"
| "kind_name KRepost = ''repost''"
| "kind_name KReply = ''reply''"
| "kind_name KQuote = ''quote''"
| "kind_name KFollow = ''follow''"

text \<open>
  The select of the subject: \<^verbatim>\<open>id, user_id\<close> of the post with the URI, or \<^verbatim>\<open>id\<close> of the
  profile with the DID, which is also the user the follow notification goes to.
\<close>

definition lookup :: "db \<Rightarrow> job \<Rightarrow> (string \<times> string) option" where
  "lookup d j =
     (if j_kind j = KFollow
      then map_option (\<lambda>p. (profile_id p, profile_id p))
             (single (profiles_by_did d (j_subject j)))
      else map_option (\<lambda>p. (post_id p, post_user_id p))
             (single (posts_by_uri d (j_subject j))))"

text \<open>The row a job inserts for the subject it found, and the counter procedure it calls.\<close>

definition job_row :: "job \<Rightarrow> string \<times> string \<Rightarrow> interaction_row" where
  "job_row j found =
     \<lparr>fi_post_id = (if j_kind j = KFollow then None else Some (fst found)),
      fi_target_user_id = (if j_kind j = KFollow then Some (fst found) else None),
      fi_interaction_type = kind_name (j_kind j), fi_actor_did = j_actor j,
      fi_at_uri = j_key j, fi_metadata = j_metadata j\<rparr>"

fun job_bump :: "kind \<Rightarrow> string \<Rightarrow> db \<Rightarrow> db" where
  "job_bump KLike target = increment_post_likes target"
| "job_bump KRepost target = increment_post_reposts target"
| "job_bump KReply target = increment_post_replies target"
| "job_bump KQuote target = increment_post_quotes target"
| "job_bump KFollow target = increment_profile_followers target"

text \<open>
  The statement a job makes next.  From the select of the subject on, the program counter
  carries what that select returned.
\<close>

datatype pc =
    AtLookup
  | AtCheck "string \<times> string"
  | AtInsert "string \<times> string"
  | AtCount "string \<times> string"
  | AtNotify "string \<times> string"

text \<open>
  One statement of a path.  A path is the list of the jobs it has still to run, the first
  of them under way; a path with no job left has finished.  A job ends early when the
  subject is not found, when the interaction row exists, and when the insert fails.
\<close>

fun job_step :: "env \<Rightarrow> db \<times> (job \<times> pc) list \<Rightarrow> db \<times> (job \<times> pc) list" where
  "job_step e (d, []) = (d, [])"
| "job_step e (d, (j, AtLookup) # rest) =
     (case lookup d j of
        None \<Rightarrow> (d, rest)
      | Some found \<Rightarrow> (d, (j, AtCheck found) # rest))"
| "job_step e (d, (j, AtCheck found) # rest) =
     (case single (interaction_rows d (j_key j)) of
        Some existing \<Rightarrow> (d, rest)
      | None \<Rightarrow> (d, (j, AtInsert found) # rest))"
| "job_step e (d, (j, AtInsert found) # rest) =
     (case insert_interaction (job_row j found) d of
        None \<Rightarrow> (d, rest)
      | Some d1 \<Rightarrow> (d1, (j, AtCount found) # rest))"
| "job_step e (d, (j, AtCount found) # rest) =
     (job_bump (j_kind j) (fst found) d,
      if j_inbound j then (j, AtNotify found) # rest else rest)"
| "job_step e (d, (j, AtNotify found) # rest) =
     (createExternalNotification e d (snd found) (j_actor j) (kind_name (j_kind j))
        (if j_kind j = KFollow then None else Some (fst found)),
      rest)"

text \<open>
  The jobs of a create event, in the order the handler runs them.  A like, a repost and
  a follow have one job when the guard on the subject lets the handler go on.  A post has
  a reply job when the parent URI is a string with the domain, then a quote job when the
  embedded URI is one; a parent URI that is a number raises before anything is done, and
  an embedded URI that is a number raises after the reply job.
\<close>

fun local_uri :: "jsval \<Rightarrow> string list" where
  "local_uri (JString s) = (if str_includes s CANNECT_DOMAIN then [s] else [])"
| "local_uri v = []"

definition post_metadata :: "at_record option \<Rightarrow> (string option \<times> string option) option" where
  "post_metadata record =
     Some (map_option (take 500) (Option.bind record rec_text), Option.bind record rec_createdAt)"

definition event_jobs :: "jetstream_event \<Rightarrow> job list" where
  "event_jobs event =
     (case ev_commit event of
        None \<Rightarrow> []
      | Some c \<Rightarrow>
          (let actorDid = ev_did event; record = commit_record c; k = rkey c in
           if operation c \<noteq> ''create'' then []
           else if collection c = ''app.bsky.feed.like'' then
             (case local_subject (subject_uri record) of
                Inr (Some subjectUri) \<Rightarrow>
                  [\<lparr>j_kind = KLike, j_inbound = True, j_subject = subjectUri,
                    j_actor = actorDid, j_key = like_uri actorDid k, j_metadata = None\<rparr>]
              | other \<Rightarrow> [])
           else if collection c = ''app.bsky.feed.repost'' then
             (case local_subject (subject_uri record) of
                Inr (Some subjectUri) \<Rightarrow>
                  [\<lparr>j_kind = KRepost, j_inbound = True, j_subject = subjectUri,
                    j_actor = actorDid, j_key = repost_uri actorDid k, j_metadata = None\<rparr>]
              | other \<Rightarrow> [])
           else if collection c = ''app.bsky.feed.post'' then
             (case reply_parent_uri record of
                JNumber n \<Rightarrow> []
              | parent \<Rightarrow>
                  map (\<lambda>parentUri.
                         \<lparr>j_kind = KReply, j_inbound = True, j_subject = parentUri,
                          j_actor = actorDid, j_key = post_uri actorDid k,
                          j_metadata = post_metadata record\<rparr>)
                      (local_uri parent)
                  @ map (\<lambda>quotedUri.
                           \<lparr>j_kind = KQuote, j_inbound = True, j_subject = quotedUri,
                            j_actor = actorDid, j_key = post_uri actorDid k @ ''#quote'',
                            j_metadata = post_metadata record\<rparr>)
                        (local_uri (embed_record_uri record)))
           else if collection c = ''app.bsky.graph.follow'' then
             (case follow_subject record of
                None \<Rightarrow> []
              | Some subjectDid \<Rightarrow>
                  [\<lparr>j_kind = KFollow, j_inbound = True, j_subject = subjectDid,
                    j_actor = actorDid, j_key = follow_uri actorDid k, j_metadata = None\<rparr>])
           else []))"

text \<open>
  Modelled from the spec: the mirror step of the agent as a path of statements.  The
  agent has the local identifier of its target and the reference the PDS issued, so its
  job starts at the insert; it counts when the insert stored the row and writes no
  notification.  A retraction is not a create branch and has no job here.
\<close>

definition outbound_job :: "kind \<Rightarrow> string \<Rightarrow> outbound_target \<Rightarrow> string \<Rightarrow> job \<times> pc" where
  "outbound_job knd actorDid t uri =
     (\<lparr>j_kind = knd, j_inbound = False, j_subject = target_id t, j_actor = actorDid,
       j_key = uri, j_metadata = None\<rparr>,
      AtInsert (target_id t, target_id t))"

fun outbound_jobs :: "action \<Rightarrow> string \<Rightarrow> outbound_target \<Rightarrow> string \<Rightarrow> (job \<times> pc) list" where
  "outbound_jobs DoLike actorDid t uri = [outbound_job KLike actorDid t uri]"
| "outbound_jobs DoRepost actorDid t uri = [outbound_job KRepost actorDid t uri]"
| "outbound_jobs DoReply actorDid t uri = [outbound_job KReply actorDid t uri]"
| "outbound_jobs DoFollow actorDid t uri = [outbound_job KFollow actorDid t uri]"
| "outbound_jobs act actorDid t uri = []"

text \<open>
  A processing path: the poller on a create event, or the agent after the PDS accepted a
  write.  \<open>path_start\<close> is the path before its first statement, \<open>sequential\<close> what
  the handler, or the mirror step of the agent, computes when nothing runs in between.
\<close>

datatype path = Inbound jetstream_event | Outbound action string outbound_target string

fun path_start :: "path \<Rightarrow> (job \<times> pc) list" where
  "path_start (Inbound event) = map (\<lambda>j. (j, AtLookup)) (event_jobs event)"
| "path_start (Outbound act actorDid t uri) = outbound_jobs act actorDid t uri"

fun sequential :: "env \<Rightarrow> path \<Rightarrow> db \<Rightarrow> db" where
  "sequential e (Inbound event) d = fst (processEvent e d event)"
| "sequential e (Outbound act actorDid t uri) d = local_mirror act actorDid t uri d"

text \<open>
  The paths the statements are about: an inbound event with the create operation, and an
  outbound like, repost, reply or follow whose target is a stored post or profile.
\<close>

fun creates :: "db \<Rightarrow> path \<Rightarrow> bool" where
  "creates d (Inbound event) = (map_option operation (ev_commit event) = Some ''create'')"
| "creates d (Outbound DoLike actorDid t uri) = (target_id t \<in> set (map post_id (posts d)))"
| "creates d (Outbound DoRepost actorDid t uri) = (target_id t \<in> set (map post_id (posts d)))"
| "creates d (Outbound DoReply actorDid t uri) = (target_id t \<in> set (map post_id (posts d)))"
| "creates d (Outbound DoFollow actorDid t uri) =
     (target_id t \<in> set (map profile_id (profiles d)))"
| "creates d (Outbound act actorDid t uri) = False"

text \<open>
  Two paths on one database.  The schedule says which path makes the next statement:
  \<open>True\<close> for the first path, \<open>False\<close> for the second.
\<close>

fun race ::
  "env \<Rightarrow> env \<Rightarrow> bool list \<Rightarrow> db \<times> (job \<times> pc) list \<times> (job \<times> pc) list
     \<Rightarrow> db \<times> (job \<times> pc) list \<times> (job \<times> pc) list" where
  "race e1 e2 [] st = st"
| "race e1 e2 (first # sched) (d, s1, s2) =
     (if first
      then (case job_step e1 (d, s1) of (d', s1') \<Rightarrow> race e1 e2 sched (d', s1', s2))
      else (case job_step e2 (d, s2) of (d', s2') \<Rightarrow> race e1 e2 sched (d', s1, s2')))"

text \<open>
  A job whose subject is there: an inbound job whose select of the subject finds one row,
  and every job of the agent.
\<close>

definition resolves :: "db \<Rightarrow> job \<Rightarrow> bool" where
  "resolves d j \<longleftrightarrow> (j_inbound j \<longrightarrow> lookup d j \<noteq> None)"

section \<open>Measures used in the statements\<close>

text \<open>
  The aggregate counter of an interaction type, summed over the table that carries it,
  and the stored interactions of a type.
\<close>

definition counter_total :: "string \<Rightarrow> db \<Rightarrow> nat" where
  "counter_total ty d =
     (if ty = ''like'' then sum_list (map likes_count (posts d))
      else if ty = ''repost'' then sum_list (map reposts_count (posts d))
      else if ty = ''reply'' then sum_list (map replies_count (posts d))
      else if ty = ''quote'' then sum_list (map quotes_count (posts d))
      else if ty = ''follow'' then sum_list (map followers_count (profiles d))
      else 0)"

definition type_rows :: "string \<Rightarrow> db \<Rightarrow> interaction_row list" where
  "type_rows ty d = filter (\<lambda>i. fi_interaction_type i = ty) (federated_interactions d)"

text \<open>The position a cursor row stands for; a null position is before every position.\<close>

definition stored_position :: "db \<Rightarrow> nat" where
  "stored_position d = (case cursor_time_us (jetstream_cursor d) of None \<Rightarrow> 0 | Some c \<Rightarrow> c)"

text \<open>A value that is a string containing the local domain.\<close>

fun refers_local :: "jsval \<Rightarrow> bool" where
  "refers_local (JString s) = str_includes s CANNECT_DOMAIN"
| "refers_local v = False"

fun reply_root_uri :: "at_record option \<Rightarrow> jsval" where
  "reply_root_uri None = JUndefined"
| "reply_root_uri (Some r) = rec_reply_root_uri r"

text \<open>The record of an event, if it has a commit with a record.\<close>

definition event_record :: "jetstream_event \<Rightarrow> at_record option" where
  "event_record event = Option.bind (ev_commit event) commit_record"

text \<open>
  The cache row of an actor, and the test the resolver makes on it: the age of the row is
  below the time to live.
\<close>

definition cached_row :: "db \<Rightarrow> string \<Rightarrow> cache_row option" where
  "cached_row d a = single (filter (\<lambda>c. c_did c = a) (bluesky_profile_cache d))"

definition cache_fresh :: "env \<Rightarrow> cache_row \<Rightarrow> bool" where
  "cache_fresh e c \<longleftrightarrow> int (now_ms e) - int (c_cached_at c) < PROFILE_CACHE_TTL_MS"

definition cache_hit :: "env \<Rightarrow> db \<Rightarrow> string \<Rightarrow> bool" where
  "cache_hit e d a = (case cached_row d a of None \<Rightarrow> False | Some c \<Rightarrow> cache_fresh e c)"

text \<open>
  The external record URI of an event, from the actor, the collection and the record
  key; the handlers build it with their own collection name.
\<close>

definition record_uri :: "string \<Rightarrow> string \<Rightarrow> string \<Rightarrow> string" where
  "record_uri actorDid coll k = ''at://'' @ actorDid @ ''/'' @ coll @ ''/'' @ k"

text \<open>
  A counter column of a table after exactly one increment of the row with the given
  identifier: that row's counter is one higher and every other counter is as it was.
\<close>

definition column_raised :: "('r \<Rightarrow> string) \<Rightarrow> ('r \<Rightarrow> nat) \<Rightarrow> string \<Rightarrow> 'r list \<Rightarrow> nat list" where
  "column_raised ident counter target rows =
     map (\<lambda>p. if ident p = target then counter p + 1 else counter p) rows"

text \<open>The database after an event was processed two times, by two invocations.\<close>

definition applied_twice :: "env \<Rightarrow> env \<Rightarrow> db \<Rightarrow> jetstream_event \<Rightarrow> db" where
  "applied_twice e1 e2 d event = fst (processEvent e2 (fst (processEvent e1 d event)) event)"

text \<open>What a run of the loop leaves behind apart from the cursor variable.\<close>

definition loop_effect :: "db \<times> nat \<times> nat \<Rightarrow> db \<times> nat" where
  "loop_effect st = (fst st, fst (snd st))"

section \<open>Example data\<close>

definition post1 :: post_row where
  "post1 = \<lparr>post_id = ''p1'', post_user_id = ''u1'',
            post_at_uri = Some ''at://alice.cannect.space/app.bsky.feed.post/1'',
            likes_count = 1, reposts_count = 0, replies_count = 0, quotes_count = 0\<rparr>"

definition profile1 :: profile_row where
  "profile1 = \<lparr>profile_id = ''u1'', profile_did = Some ''did:plc:alice'', followers_count = 0\<rparr>"

definition db0 :: db where
  "db0 = \<lparr>posts = [post1], profiles = [profile1], federated_interactions = [],
          notifications = [], bluesky_profile_cache = [],
          jetstream_cursor = \<lparr>cursor_time_us = Some 5, events_processed = 0,
                               last_error = None, updated_at = 0\<rparr>,
          profile_requests = []\<rparr>"

definition no_record :: at_record where
  "no_record = \<lparr>rec_subject = None, rec_reply_parent_uri = JUndefined,
                rec_reply_root_uri = JUndefined, rec_embed_record_uri = JUndefined,
                rec_text = None, rec_createdAt = None\<rparr>"

definition like_record :: at_record where
  "like_record =
     no_record\<lparr>rec_subject :=
                 Some (SubjectRef (JString ''at://alice.cannect.space/app.bsky.feed.post/1''))\<rparr>"

definition like_create_commit :: jetstream_commit where
  "like_create_commit = \<lparr>operation = ''create'', collection = ''app.bsky.feed.like'',
                          commit_record = Some like_record, rkey = ''k1''\<rparr>"

definition like_create :: jetstream_event where
  "like_create = \<lparr>ev_did = ''did:plc:bob'', ev_time_us = Some 10, ev_kind = ''commit'',
                   ev_commit = Some like_create_commit\<rparr>"

text \<open>A post that replies to the local post and quotes it, and a follow of the local user.\<close>

definition quote_reply_commit :: jetstream_commit where
  "quote_reply_commit = \<lparr>operation = ''create'', collection = ''app.bsky.feed.post'',
     commit_record =
       Some (no_record\<lparr>rec_reply_parent_uri :=
                          JString ''at://alice.cannect.space/app.bsky.feed.post/1'',
                        rec_embed_record_uri :=
                          JString ''at://alice.cannect.space/app.bsky.feed.post/1'',
                        rec_text := Some ''hello''\<rparr>),
     rkey = ''k4''\<rparr>"

definition quote_reply :: jetstream_event where
  "quote_reply = \<lparr>ev_did = ''did:plc:bob'', ev_time_us = Some 40, ev_kind = ''commit'',
                   ev_commit = Some quote_reply_commit\<rparr>"

definition follow_create_commit :: jetstream_commit where
  "follow_create_commit = \<lparr>operation = ''create'', collection = ''app.bsky.graph.follow'',
     commit_record = Some (no_record\<lparr>rec_subject := Some (SubjectDid ''did:plc:alice'')\<rparr>),
     rkey = ''k5''\<rparr>"

definition follow_create :: jetstream_event where
  "follow_create = \<lparr>ev_did = ''did:plc:bob'', ev_time_us = Some 50, ev_kind = ''commit'',
                     ev_commit = Some follow_create_commit\<rparr>"

text \<open>A delete of the same like that carries the record, as the type of events allows.\<close>

definition like_delete_commit :: jetstream_commit where
  "like_delete_commit = \<lparr>operation = ''delete'', collection = ''app.bsky.feed.like'',
                          commit_record = Some like_record, rkey = ''k1''\<rparr>"

definition like_delete :: jetstream_event where
  "like_delete = \<lparr>ev_did = ''did:plc:bob'', ev_time_us = Some 10, ev_kind = ''commit'',
                   ev_commit = Some like_delete_commit\<rparr>"

text \<open>A delete as Jetstream sends it: the commit has no record.\<close>

definition bare_delete :: jetstream_event where
  "bare_delete = \<lparr>ev_did = ''did:plc:bob'', ev_time_us = Some 10, ev_kind = ''commit'',
     ev_commit = Some \<lparr>operation = ''delete'', collection = ''app.bsky.feed.like'',
                        commit_record = None, rkey = ''k1''\<rparr>\<rparr>"

text \<open>
  A reply to a local post whose embed carries a number where a URI string is expected:
  the filter accepts it on the parent URI, and the handler raises on the embed after it
  has stored the reply.
\<close>

definition bad_reply :: jetstream_event where
  "bad_reply = \<lparr>ev_did = ''did:plc:bob'', ev_time_us = Some 20, ev_kind = ''commit'',
     ev_commit = Some \<lparr>operation = ''create'', collection = ''app.bsky.feed.post'',
        commit_record =
          Some (no_record\<lparr>rec_reply_parent_uri :=
                             JString ''at://alice.cannect.space/app.bsky.feed.post/1'',
                           rec_embed_record_uri := JNumber 7\<rparr>),
        rkey = ''k2''\<rparr>\<rparr>"

text \<open>A like of a post that is hosted elsewhere.\<close>

definition foreign_like :: jetstream_event where
  "foreign_like = \<lparr>ev_did = ''did:plc:bob'', ev_time_us = Some 30, ev_kind = ''commit'',
     ev_commit = Some \<lparr>operation = ''create'', collection = ''app.bsky.feed.like'',
        commit_record =
          Some (no_record\<lparr>rec_subject :=
                   Some (SubjectRef (JString ''at://carol.example.org/app.bsky.feed.post/9''))\<rparr>),
        rkey = ''k3''\<rparr>\<rparr>"

definition env0 :: env where
  "env0 = \<lparr>req_method = ''POST'', start_ms = 100, now_ms = 110, end_ms = 130,
           cursor_error = None,
           jetstream = (\<lambda>c. FetchOk [like_create, bad_reply, foreign_like]),
           bsky_api = (\<lambda>a. ApiNotOk ''404'')\<rparr>"

text \<open>The same invocation with a Jetstream answer that is not OK, and with a timeout.\<close>

definition env_bad_gateway :: env where
  "env_bad_gateway = env0\<lparr>jetstream := (\<lambda>c. FetchNotOk ''502'' ''Bad Gateway'')\<rparr>"

definition env_timeout :: env where
  "env_timeout = env0\<lparr>jetstream := (\<lambda>c. FetchThrow ''AbortError'' ''The signal has been aborted'')\<rparr>"

text \<open>A request that fails in the network, and an exception without a message.\<close>

definition env_refused :: env where
  "env_refused = env0\<lparr>jetstream := (\<lambda>c. FetchThrow ''TypeError'' ''error sending request'')\<rparr>"

definition env_bare_error :: env where
  "env_bare_error = env0\<lparr>jetstream := (\<lambda>c. FetchThrow ''Error'' [])\<rparr>"

text \<open>A cached profile of the actor, one minute old, and a public API that knows the actor.\<close>

definition bob_row :: cache_row where
  "bob_row = \<lparr>c_did = ''did:plc:bob'', c_handle = Some ''bob.bsky.social'',
               c_display_name = Some ''Bob'', c_avatar = None, c_cached_at = 50\<rparr>"

definition db_cached :: db where
  "db_cached = db0\<lparr>bluesky_profile_cache := [bob_row]\<rparr>"

definition bob_profile :: api_profile where
  "bob_profile = \<lparr>p_handle = Some ''bob.bsky.social'', p_displayName = Some ''Bob'',
                   p_avatar = None\<rparr>"

definition env_api_ok :: env where
  "env_api_ok = env0\<lparr>bsky_api := (\<lambda>a. ApiOk bob_profile)\<rparr>"

text \<open>A PDS that cannot be reached, a PDS that accepts, and the target of a repost.\<close>

definition pds_down :: pds_world where
  "pds_down = \<lparr>has_session = True, first_write = Rejected ''network error'',
               refresh_error = None, second_write = Rejected ''network error''\<rparr>"

definition pds_up :: pds_world where
  "pds_up = \<lparr>has_session = True,
             first_write = Written ''at://did:plc:alice/app.bsky.feed.repost/r1'',
             refresh_error = None,
             second_write = Written ''at://did:plc:alice/app.bsky.feed.repost/r1''\<rparr>"

definition repost_target :: outbound_target where
  "repost_target = \<lparr>target_id = ''p1'', target_record = []\<rparr>"

text \<open>
  The repost the agent wrote for the local user, as Jetstream delivers it back, and two
  schedules of ten statements.
\<close>

definition repost_echo :: jetstream_event where
  "repost_echo = \<lparr>ev_did = ''did:plc:alice'', ev_time_us = Some 60, ev_kind = ''commit'',
     ev_commit = Some \<lparr>operation = ''create'', collection = ''app.bsky.feed.repost'',
        commit_record = Some like_record, rkey = ''r1''\<rparr>\<rparr>"

definition repost_written :: path where
  "repost_written =
     Outbound DoRepost ''did:plc:alice'' repost_target ''at://did:plc:alice/app.bsky.feed.repost/r1''"

definition taking_turns :: "bool list" where
  "taking_turns = [True, False, True, False, True, False, True, False, True, False]"

definition agent_between :: "bool list" where
  "agent_between = [True, True, False, True, False, True, True, False, False, False]"

section \<open>Notions used in the proofs\<close>

text \<open>
  The create branch that the like, repost, reply, quote and follow paths share: the
  existence check, the insert, and after a successful insert the counter and the
  notification.  Each handler is shown to be an instance of it.
\<close>

definition mirror_write ::
  "env \<Rightarrow> db \<Rightarrow> interaction_row \<Rightarrow> (db \<Rightarrow> db) \<Rightarrow> string \<Rightarrow> string \<Rightarrow> string option \<Rightarrow> db" where
  "mirror_write e d row bump userId reason postId =
     (case single (interaction_rows d (fi_at_uri row)) of
        Some existing \<Rightarrow> d
      | None \<Rightarrow>
          (case insert_interaction row d of
             None \<Rightarrow> d
           | Some d1 \<Rightarrow>
               createExternalNotification e (bump d1) userId (fi_actor_did row) reason postId))"

text \<open>
  Two rows that differ in counters only, and two databases whose posts and profiles
  differ in counters only: what a lookup by URI or DID finds is the same in both.
\<close>

definition same_post :: "post_row \<Rightarrow> post_row \<Rightarrow> bool" where
  "same_post p p' \<longleftrightarrow>
     post_id p' = post_id p \<and> post_user_id p' = post_user_id p \<and> post_at_uri p' = post_at_uri p"

definition same_profile :: "profile_row \<Rightarrow> profile_row \<Rightarrow> bool" where
  "same_profile p p' \<longleftrightarrow> profile_id p' = profile_id p \<and> profile_did p' = profile_did p"

definition counters_only :: "db \<Rightarrow> db \<Rightarrow> bool" where
  "counters_only d d' \<longleftrightarrow>
     list_all2 same_post (posts d) (posts d') \<and> list_all2 same_profile (profiles d) (profiles d')"

text \<open>Every key has the rows it had, or had none and has exactly one.\<close>

definition keys_grow :: "db \<Rightarrow> db \<Rightarrow> bool" where
  "keys_grow d d' \<longleftrightarrow>
     (\<forall>k. interaction_rows d' k = interaction_rows d k
          \<or> (interaction_rows d k = [] \<and> length (interaction_rows d' k) = 1))"

text \<open>Every counter has grown by the number of records of its type that were added.\<close>

definition paired :: "db \<Rightarrow> db \<Rightarrow> bool" where
  "paired d d' \<longleftrightarrow>
     (\<forall>ty. counter_total ty d' + length (type_rows ty d)
             = counter_total ty d + length (type_rows ty d'))"

text \<open>The identifiers of posts and of profiles are primary keys.\<close>

definition unique_ids :: "db \<Rightarrow> bool" where
  "unique_ids d \<longleftrightarrow> distinct (map post_id (posts d)) \<and> distinct (map profile_id (profiles d))"

text \<open>A counter procedure: it touches no interaction and changes counters only.\<close>

definition counter_bump :: "(db \<Rightarrow> db) \<Rightarrow> bool" where
  "counter_bump b \<longleftrightarrow>
     (\<forall>d. federated_interactions (b d) = federated_interactions d \<and> counters_only d (b d))"

text \<open>What one run of a create branch, or several in a row, does to the database.\<close>

definition create_effect :: "db \<Rightarrow> db \<Rightarrow> bool" where
  "create_effect d d' \<longleftrightarrow>
     counters_only d d' \<and> keys_grow d d' \<and> (unique_ids d \<longrightarrow> paired d d')"

text \<open>
  The create branch behind the lookup of its subject, a post found by its URI or a
  profile found by its DID.
\<close>

definition post_mirror ::
  "env \<Rightarrow> db \<Rightarrow> string \<Rightarrow> (string \<Rightarrow> interaction_row) \<Rightarrow> (string \<Rightarrow> db \<Rightarrow> db) \<Rightarrow> string \<Rightarrow> db" where
  "post_mirror e d u row bump reason =
     (case single (posts_by_uri d u) of
        None \<Rightarrow> d
      | Some post \<Rightarrow>
          mirror_write e d (row (post_id post)) (bump (post_id post)) (post_user_id post) reason
            (Some (post_id post)))"

definition profile_mirror ::
  "env \<Rightarrow> db \<Rightarrow> string \<Rightarrow> (string \<Rightarrow> interaction_row) \<Rightarrow> (string \<Rightarrow> db \<Rightarrow> db) \<Rightarrow> string \<Rightarrow> db" where
  "profile_mirror e d u row bump reason =
     (case single (profiles_by_did d u) of
        None \<Rightarrow> d
      | Some profile \<Rightarrow>
          mirror_write e d (row (profile_id profile)) (bump (profile_id profile))
            (profile_id profile) reason None)"

text \<open>
  A subject and a key on which the create branch does nothing any more: the lookup does
  not give one row, or the key is stored.
\<close>

definition post_settled :: "db \<Rightarrow> string \<Rightarrow> string \<Rightarrow> bool" where
  "post_settled d u key \<longleftrightarrow> single (posts_by_uri d u) = None \<or> interaction_rows d key \<noteq> []"

definition profile_settled :: "db \<Rightarrow> string \<Rightarrow> string \<Rightarrow> bool" where
  "profile_settled d u key \<longleftrightarrow>
     single (profiles_by_did d u) = None \<or> interaction_rows d key \<noteq> []"

text \<open>
  A job that has inserted and not yet counted owes the counter of its kind one; a job is
  waiting while it has not inserted.
\<close>

fun counting :: "pc \<Rightarrow> bool" where
  "counting (AtCount found) = True"
| "counting p = False"

fun waiting :: "pc \<Rightarrow> bool" where
  "waiting AtLookup = True"
| "waiting (AtCheck found) = True"
| "waiting (AtInsert found) = True"
| "waiting p = False"

definition owes :: "string \<Rightarrow> job \<times> pc \<Rightarrow> nat" where
  "owes ty x = (if counting (snd x) \<and> kind_name (j_kind (fst x)) = ty then 1 else 0)"

definition owed :: "string \<Rightarrow> (job \<times> pc) list \<Rightarrow> nat" where
  "owed ty s = sum_list (map (owes ty) s)"

text \<open>
  A job under way aims at a stored post or profile, and only an inbound job selects its
  subject.
\<close>

fun pc_found :: "pc \<Rightarrow> (string \<times> string) option" where
  "pc_found AtLookup = None"
| "pc_found (AtCheck found) = Some found"
| "pc_found (AtInsert found) = Some found"
| "pc_found (AtCount found) = Some found"
| "pc_found (AtNotify found) = Some found"

definition target_ok :: "db \<Rightarrow> kind \<Rightarrow> string \<Rightarrow> bool" where
  "target_ok d knd target \<longleftrightarrow>
     (if knd = KFollow then target \<in> set (map profile_id (profiles d))
      else target \<in> set (map post_id (posts d)))"

definition job_ok :: "db \<Rightarrow> job \<times> pc \<Rightarrow> bool" where
  "job_ok d x \<longleftrightarrow>
     (case pc_found (snd x) of
        None \<Rightarrow> j_inbound (fst x)
      | Some found \<Rightarrow> target_ok d (j_kind (fst x)) (fst found))"

text \<open>
  The jobs a path started with have left their keys stored, as far as their subjects are
  there and they are not waiting any more.
\<close>

definition settled :: "db \<Rightarrow> db \<Rightarrow> job list \<Rightarrow> (job \<times> pc) list \<Rightarrow> bool" where
  "settled d0 d jobs s \<longleftrightarrow>
     (\<forall>j \<in> set jobs. resolves d0 j \<longrightarrow>
        (\<exists>x \<in> set s. fst x = j \<and> waiting (snd x)) \<or> interaction_rows d (j_key j) \<noteq> [])"

text \<open>
  What holds of the database and the two paths throughout a race that began in \<open>d0\<close>
  with the jobs \<open>jobs1\<close> and \<open>jobs2\<close>: posts and profiles differ in counters only,
  every key has the rows it had or went from none to one, every counter is behind the
  stored rows by what the paths owe, and the jobs are aimed well and have left their
  keys stored.
\<close>

definition race_inv ::
  "db \<Rightarrow> job list \<Rightarrow> job list \<Rightarrow> db \<times> (job \<times> pc) list \<times> (job \<times> pc) list \<Rightarrow> bool" where
  "race_inv d0 jobs1 jobs2 st =
     (case st of
        (d, s1, s2) \<Rightarrow>
          counters_only d0 d \<and> keys_grow d0 d
          \<and> (\<forall>ty. counter_total ty d + owed ty s1 + owed ty s2 + length (type_rows ty d0)
                   = counter_total ty d0 + length (type_rows ty d))
          \<and> list_all (job_ok d0) s1 \<and> list_all (job_ok d0) s2
          \<and> settled d0 d jobs1 s1 \<and> settled d0 d jobs2 s2)"

text \<open>The statements a job, and a path, has still to make, at most.\<close>

fun weight :: "pc \<Rightarrow> nat" where
  "weight AtLookup = 5"
| "weight (AtCheck found) = 4"
| "weight (AtInsert found) = 3"
| "weight (AtCount found) = 2"
| "weight (AtNotify found) = 1"

definition steps_left :: "(job \<times> pc) list \<Rightarrow> nat" where
  "steps_left s = sum_list (map (\<lambda>x. weight (snd x)) s)"

text \<open>A path that runs alone for a number of statements.\<close>

fun run :: "env \<Rightarrow> nat \<Rightarrow> db \<times> (job \<times> pc) list \<Rightarrow> db \<times> (job \<times> pc) list" where
  "run e 0 st = st"
| "run e (Suc n) st = run e n (job_step e st)"

text \<open>What a job does to the database from a program counter on, when it runs alone.\<close>

definition from_notify :: "env \<Rightarrow> job \<Rightarrow> string \<times> string \<Rightarrow> db \<Rightarrow> db" where
  "from_notify e j found d =
     createExternalNotification e d (snd found) (j_actor j) (kind_name (j_kind j))
       (if j_kind j = KFollow then None else Some (fst found))"

definition from_count :: "env \<Rightarrow> job \<Rightarrow> string \<times> string \<Rightarrow> db \<Rightarrow> db" where
  "from_count e j found d =
     (if j_inbound j then from_notify e j found (job_bump (j_kind j) (fst found) d)
      else job_bump (j_kind j) (fst found) d)"

definition from_insert :: "env \<Rightarrow> job \<Rightarrow> string \<times> string \<Rightarrow> db \<Rightarrow> db" where
  "from_insert e j found d =
     (case insert_interaction (job_row j found) d of
        None \<Rightarrow> d
      | Some d1 \<Rightarrow> from_count e j found d1)"

definition from_check :: "env \<Rightarrow> job \<Rightarrow> string \<times> string \<Rightarrow> db \<Rightarrow> db" where
  "from_check e j found d =
     (case single (interaction_rows d (j_key j)) of
        Some existing \<Rightarrow> d
      | None \<Rightarrow> from_insert e j found d)"

definition from_lookup :: "env \<Rightarrow> job \<Rightarrow> db \<Rightarrow> db" where
  "from_lookup e j d = (case lookup d j of None \<Rightarrow> d | Some found \<Rightarrow> from_check e j found d)"

fun outcome :: "env \<Rightarrow> db \<Rightarrow> job \<times> pc \<Rightarrow> db" where
  "outcome e d (j, AtLookup) = from_lookup e j d"
| "outcome e d (j, AtCheck found) = from_check e j found d"
| "outcome e d (j, AtInsert found) = from_insert e j found d"
| "outcome e d (j, AtCount found) = from_count e j found d"
| "outcome e d (j, AtNotify found) = from_notify e j found d"

text \<open>
  A family of counter procedures that raises the total of one interaction type by one
  when it is aimed at a stored post (at a stored profile, for the second notion).
\<close>

definition raises :: "(string \<Rightarrow> db \<Rightarrow> db) \<Rightarrow> string \<Rightarrow> bool" where
  "raises bump T \<longleftrightarrow>
     (\<forall>t. counter_bump (bump t)) \<and>
     (\<forall>d1 ty. unique_ids d1 \<longrightarrow>
        (\<forall>p \<in> set (posts d1). counter_total ty (bump (post_id p) d1)
                                  = counter_total ty d1 + (if ty = T then 1 else 0)))"

definition raises_profile :: "(string \<Rightarrow> db \<Rightarrow> db) \<Rightarrow> string \<Rightarrow> bool" where
  "raises_profile bump T \<longleftrightarrow>
     (\<forall>t. counter_bump (bump t)) \<and>
     (\<forall>d1 ty. unique_ids d1 \<longrightarrow>
        (\<forall>p \<in> set (profiles d1). counter_total ty (bump (profile_id p) d1)
                                  = counter_total ty d1 + (if ty = T then 1 else 0)))"

text \<open>The rows the handlers insert, as functions of the identifier of the subject.\<close>

definition like_row :: "string \<Rightarrow> string \<Rightarrow> string \<Rightarrow> interaction_row" where
  "like_row a k t = \<lparr>fi_post_id = Some t, fi_target_user_id = None,
                   fi_interaction_type = ''like'', fi_actor_did = a,
                   fi_at_uri = like_uri a k, fi_metadata = None\<rparr>"

definition repost_row :: "string \<Rightarrow> string \<Rightarrow> string \<Rightarrow> interaction_row" where
  "repost_row a k t = \<lparr>fi_post_id = Some t, fi_target_user_id = None,
                   fi_interaction_type = ''repost'', fi_actor_did = a,
                   fi_at_uri = repost_uri a k, fi_metadata = None\<rparr>"

definition follow_row :: "string \<Rightarrow> string \<Rightarrow> string \<Rightarrow> interaction_row" where
  "follow_row a k t = \<lparr>fi_post_id = None, fi_target_user_id = Some t,
                   fi_interaction_type = ''follow'', fi_actor_did = a,
                   fi_at_uri = follow_uri a k, fi_metadata = None\<rparr>"

definition reply_row :: "string \<Rightarrow> at_record option \<Rightarrow> string \<Rightarrow> string \<Rightarrow> interaction_row" where
  "reply_row a r key t = \<lparr>fi_post_id = Some t, fi_target_user_id = None,
                   fi_interaction_type = ''reply'', fi_actor_did = a,
                   fi_at_uri = key,
                   fi_metadata = Some (map_option (take 500) (Option.bind r rec_text),
                                Option.bind r rec_createdAt)\<rparr>"

definition quote_row :: "string \<Rightarrow> at_record option \<Rightarrow> string \<Rightarrow> string \<Rightarrow> interaction_row" where
  "quote_row a r key t = \<lparr>fi_post_id = Some t, fi_target_user_id = None,
                   fi_interaction_type = ''quote'', fi_actor_did = a,
                   fi_at_uri = key @ ''#quote'',
                   fi_metadata = Some (map_option (take 500) (Option.bind r rec_text),
                                Option.bind r rec_createdAt)\<rparr>"

text \<open>
  From a program counter on, a job that runs alone needs at most as many statements as
  the weight of the counter says, and leaves its outcome.
\<close>

definition completes :: "env \<Rightarrow> db \<Rightarrow> job \<Rightarrow> pc \<Rightarrow> (job \<times> pc) list \<Rightarrow> bool" where
  "completes e d j p rest \<longleftrightarrow>
     (\<exists>k. k \<le> weight p \<and>
        (\<forall>n. k \<le> n \<longrightarrow> run e n (d, (j, p) # rest) = run e (n - k) (outcome e d (j, p), rest)))"

section \<open>Frame and lookup lemmas\<close>

lemma getBlueskyProfile_frame [simp]:
  "posts (fst (getBlueskyProfile e d a)) = posts d"
  "profiles (fst (getBlueskyProfile e d a)) = profiles d"
  "federated_interactions (fst (getBlueskyProfile e d a)) = federated_interactions d"
  "notifications (fst (getBlueskyProfile e d a)) = notifications d"
  "jetstream_cursor (fst (getBlueskyProfile e d a)) = jetstream_cursor d"
  by (simp_all add: getBlueskyProfile_def upsert_cache_def Let_def split: option.split api_response.split)

lemma createExternalNotification_frame [simp]:
  "posts (createExternalNotification e d u a r p) = posts d"
  "profiles (createExternalNotification e d u a r p) = profiles d"
  "federated_interactions (createExternalNotification e d u a r p) = federated_interactions d"
  "jetstream_cursor (createExternalNotification e d u a r p) = jetstream_cursor d"
proof -
  obtain d1 actor where g: "getBlueskyProfile e d a = (d1, actor)"
    by (cases "getBlueskyProfile e d a")
  have d1: "d1 = fst (getBlueskyProfile e d a)" using g by simp
  show "posts (createExternalNotification e d u a r p) = posts d"
    "profiles (createExternalNotification e d u a r p) = profiles d"
    "federated_interactions (createExternalNotification e d u a r p) = federated_interactions d"
    "jetstream_cursor (createExternalNotification e d u a r p) = jetstream_cursor d"
    by (simp_all add: createExternalNotification_def g) (simp_all add: d1)
qed

lemma single_SomeD: "single xs = Some x \<Longrightarrow> xs = [x]"
  by (cases xs rule: single.cases) simp_all

lemma single_NoneD: "single xs = None \<Longrightarrow> xs = [] \<or> 2 \<le> length xs"
  by (cases xs rule: single.cases) simp_all

lemma list_all2_filter:
  "list_all2 R xs ys \<Longrightarrow> (\<And>x y. R x y \<Longrightarrow> P x = Q y) \<Longrightarrow> list_all2 R (filter P xs) (filter Q ys)"
  by (induction rule: list_all2_induct) auto

lemma single_rel: "list_all2 R xs ys \<Longrightarrow> rel_option R (single xs) (single ys)"
  by (cases xs rule: single.cases; cases ys rule: single.cases) simp_all

lemma counters_only_refl [simp]: "counters_only d d"
  by (simp add: counters_only_def same_post_def same_profile_def list_all2_same)

lemma counters_only_trans:
  assumes "counters_only a b" and "counters_only b c"
  shows "counters_only a c"
proof -
  have p: "list_all2 same_post (posts a) (posts c)"
    using assms unfolding counters_only_def
    by (auto intro: list_all2_trans[where ?P1.0 = same_post and ?P2.0 = same_post and bs = "posts b"]
             simp: same_post_def)
  have q: "list_all2 same_profile (profiles a) (profiles c)"
    using assms unfolding counters_only_def
    by (auto intro: list_all2_trans[where ?P1.0 = same_profile and ?P2.0 = same_profile
                                      and bs = "profiles b"]
             simp: same_profile_def)
  show ?thesis using p q by (simp add: counters_only_def)
qed

lemma post_lookup_rel:
  "counters_only d d' \<Longrightarrow> rel_option same_post (single (posts_by_uri d u)) (single (posts_by_uri d' u))"
  unfolding counters_only_def posts_by_uri_def
  by (intro single_rel list_all2_filter) (auto simp: same_post_def)

lemma profile_lookup_rel:
  "counters_only d d' \<Longrightarrow>
     rel_option same_profile (single (profiles_by_did d u)) (single (profiles_by_did d' u))"
  unfolding counters_only_def profiles_by_did_def
  by (intro single_rel list_all2_filter) (auto simp: same_profile_def)

lemma sum_bump_other:
  "(\<And>p. g (h p) = g p) \<Longrightarrow>
     sum_list (map g (map (\<lambda>p. if key p = t then h p else p) xs)) = sum_list (map g xs)"
  by (induction xs) auto

lemma sum_bump_one:
  fixes g :: "'a \<Rightarrow> nat"
  assumes h: "\<And>p. g (h p) = g p + 1"
  shows "distinct (map key xs) \<Longrightarrow> x \<in> set xs \<Longrightarrow>
     sum_list (map g (map (\<lambda>p. if key p = key x then h p else p) xs)) = sum_list (map g xs) + 1"
proof (induction xs)
  case Nil
  then show ?case by simp
next
  case (Cons y ys)
  show ?case
  proof (cases "key y = key x")
    case True
    then have notin: "\<forall>p \<in> set ys. key p \<noteq> key x"
      using Cons.prems(1) by (auto simp: image_iff)
    then have "map (\<lambda>p. if key p = key x then h p else p) ys = ys"
      by (induction ys) auto
    then show ?thesis using True h by simp
  next
    case False
    then have "x \<in> set ys" using Cons.prems(2) by auto
    then show ?thesis using Cons False by simp
  qed
qed

lemma same_map_bump:
  "(\<And>p. R p (h p)) \<Longrightarrow> (\<And>p. R p p) \<Longrightarrow>
     list_all2 R xs (map (\<lambda>p. if key p = t then h p else p) xs)"
  by (induction xs) auto

lemma counter_bump_simps [simp]:
  "counter_bump (increment_post_likes t)"
  "counter_bump (decrement_post_likes t)"
  "counter_bump (increment_post_reposts t)"
  "counter_bump (decrement_post_reposts t)"
  "counter_bump (increment_post_replies t)"
  "counter_bump (increment_post_quotes t)"
  "counter_bump (increment_profile_followers t)"
  "counter_bump (decrement_profile_followers t)"
  by (simp_all add: counter_bump_def counters_only_def increment_post_likes_def
        decrement_post_likes_def increment_post_reposts_def decrement_post_reposts_def
        increment_post_replies_def increment_post_quotes_def increment_profile_followers_def
        decrement_profile_followers_def same_map_bump same_post_def same_profile_def
        list_all2_same)

lemma mirror_write_cases:
  "mirror_write e d row b u r p = d \<or>
   (interaction_rows d (fi_at_uri row) = [] \<and>
    mirror_write e d row b u r p =
      createExternalNotification e
        (b (d\<lparr>federated_interactions := federated_interactions d @ [row]\<rparr>)) u (fi_actor_did row) r p)"
  by (simp add: mirror_write_def insert_interaction_def split: option.split)

lemma mirror_write_noop:
  "interaction_rows d (fi_at_uri row) \<noteq> [] \<Longrightarrow> mirror_write e d row b u r p = d"
  by (simp add: mirror_write_def insert_interaction_def split: option.split)

lemma counters_only_fields:
  "posts d' = posts d \<Longrightarrow> profiles d' = profiles d \<Longrightarrow> counters_only d d'"
  by (simp add: counters_only_def same_post_def same_profile_def list_all2_same)

lemma mirror_write_counters_only:
  assumes "counter_bump b"
  shows "counters_only d (mirror_write e d row b u r p)"
proof -
  let ?d1 = "d\<lparr>federated_interactions := federated_interactions d @ [row]\<rparr>"
  have 1: "counters_only d ?d1" by (rule counters_only_fields) simp_all
  have 2: "counters_only ?d1 (b ?d1)" using assms by (simp add: counter_bump_def)
  have 3: "counters_only (b ?d1) (createExternalNotification e (b ?d1) u (fi_actor_did row) r p)"
    by (rule counters_only_fields) simp_all
  from 1 2 3 have "counters_only d (createExternalNotification e (b ?d1) u (fi_actor_did row) r p)"
    by (blast intro: counters_only_trans)
  then show ?thesis using mirror_write_cases[of e d row b u r p] by auto
qed

lemma mirror_write_rows:
  assumes "counter_bump b"
  shows "federated_interactions (mirror_write e d row b u r p) = federated_interactions d
         \<or> (interaction_rows d (fi_at_uri row) = [] \<and>
            federated_interactions (mirror_write e d row b u r p) = federated_interactions d @ [row])"
  using mirror_write_cases[of e d row b u r p] assms
  by (auto simp: counter_bump_def)

lemma mirror_write_present:
  assumes "counter_bump b"
  shows "interaction_rows (mirror_write e d row b u r p) (fi_at_uri row) \<noteq> []"
proof (cases "interaction_rows d (fi_at_uri row) = []")
  case False
  then show ?thesis by (simp add: mirror_write_noop)
next
  case True
  then have "single (interaction_rows d (fi_at_uri row)) = None" by simp
  then have "mirror_write e d row b u r p =
      createExternalNotification e
        (b (d\<lparr>federated_interactions := federated_interactions d @ [row]\<rparr>)) u (fi_actor_did row) r p"
    using True by (simp add: mirror_write_def insert_interaction_def)
  then show ?thesis using assms by (simp add: interaction_rows_def counter_bump_def)
qed

lemma mirror_write_keys_grow:
  assumes "counter_bump b"
  shows "keys_grow d (mirror_write e d row b u r p)"
  unfolding keys_grow_def
proof
  fix k
  let ?d' = "mirror_write e d row b u r p"
  from mirror_write_rows[OF assms, of e d row u r p]
  show "interaction_rows ?d' k = interaction_rows d k
        \<or> (interaction_rows d k = [] \<and> length (interaction_rows ?d' k) = 1)"
  proof
    assume "federated_interactions ?d' = federated_interactions d"
    then show ?thesis by (simp add: interaction_rows_def)
  next
    assume a: "interaction_rows d (fi_at_uri row) = [] \<and>
               federated_interactions ?d' = federated_interactions d @ [row]"
    show ?thesis
    proof (cases "fi_at_uri row = k")
      case True
      then show ?thesis using a by (auto simp: interaction_rows_def)
    next
      case False
      then show ?thesis using a by (simp add: interaction_rows_def)
    qed
  qed
qed

lemma keys_grow_refl [simp]: "keys_grow d d"
  by (simp add: keys_grow_def)

lemma keys_grow_trans:
  assumes ab: "keys_grow a b" and bc: "keys_grow b c"
  shows "keys_grow a c"
  unfolding keys_grow_def
proof
  fix k
  from ab have 1: "interaction_rows b k = interaction_rows a k
      \<or> (interaction_rows a k = [] \<and> length (interaction_rows b k) = 1)"
    unfolding keys_grow_def by blast
  from bc have 2: "interaction_rows c k = interaction_rows b k
      \<or> (interaction_rows b k = [] \<and> length (interaction_rows c k) = 1)"
    unfolding keys_grow_def by blast
  from 1 2 show "interaction_rows c k = interaction_rows a k
      \<or> (interaction_rows a k = [] \<and> length (interaction_rows c k) = 1)"
    by auto
qed

lemma paired_refl [simp]: "paired d d"
  by (simp add: paired_def)

lemma paired_trans: "paired a b \<Longrightarrow> paired b c \<Longrightarrow> paired a c"
  unfolding paired_def
proof
  fix ty
  assume ab: "\<forall>ty. counter_total ty b + length (type_rows ty a)
                   = counter_total ty a + length (type_rows ty b)"
    and bc: "\<forall>ty. counter_total ty c + length (type_rows ty b)
                   = counter_total ty b + length (type_rows ty c)"
  from ab have 1: "counter_total ty b + length (type_rows ty a)
                   = counter_total ty a + length (type_rows ty b)" by blast
  from bc have 2: "counter_total ty c + length (type_rows ty b)
                   = counter_total ty b + length (type_rows ty c)" by blast
  from 1 2 show "counter_total ty c + length (type_rows ty a)
                   = counter_total ty a + length (type_rows ty c)" by arith
qed

lemma counter_total_fields:
  "posts d' = posts d \<Longrightarrow> profiles d' = profiles d \<Longrightarrow> counter_total ty d' = counter_total ty d"
  by (simp add: counter_total_def)

lemma mirror_write_paired:
  assumes b: "counter_bump b"
    and one: "\<And>ty d1. posts d1 = posts d \<Longrightarrow> profiles d1 = profiles d \<Longrightarrow>
                counter_total ty (b d1) = counter_total ty d + (if ty = fi_interaction_type row then 1 else 0)"
  shows "paired d (mirror_write e d row b u r p)"
proof -
  let ?d1 = "d\<lparr>federated_interactions := federated_interactions d @ [row]\<rparr>"
  let ?d' = "mirror_write e d row b u r p"
  from mirror_write_cases[of e d row b u r p]
  show ?thesis
  proof
    assume "?d' = d"
    then show ?thesis by simp
  next
    assume a: "interaction_rows d (fi_at_uri row) = [] \<and>
       ?d' = createExternalNotification e (b ?d1) u (fi_actor_did row) r p"
    have fi: "federated_interactions ?d' = federated_interactions d @ [row]"
      using a b by (simp add: counter_bump_def)
    have eq: "?d' = createExternalNotification e (b ?d1) u (fi_actor_did row) r p"
      using a by blast
    have ct: "counter_total ty ?d' = counter_total ty (b ?d1)" for ty
      unfolding eq by (rule counter_total_fields) simp_all
    have "counter_total ty ?d' = counter_total ty d + (if ty = fi_interaction_type row then 1 else 0)" for ty
      unfolding ct by (rule one) simp_all
    then show ?thesis
      unfolding paired_def by (simp add: type_rows_def fi)
  qed
qed

lemma unique_ids_counters_only: "counters_only d d' \<Longrightarrow> unique_ids d \<Longrightarrow> unique_ids d'"
proof -
  assume c: "counters_only d d'" and u: "unique_ids d"
  have "list_all2 same_post (posts d) (posts d')" using c by (simp add: counters_only_def)
  then have 1: "map post_id (posts d') = map post_id (posts d)"
    by (induction rule: list_all2_induct) (simp_all add: same_post_def)
  have "list_all2 same_profile (profiles d) (profiles d')" using c by (simp add: counters_only_def)
  then have 2: "map profile_id (profiles d') = map profile_id (profiles d)"
    by (induction rule: list_all2_induct) (simp_all add: same_profile_def)
  show ?thesis using u 1 2 by (simp add: unique_ids_def)
qed

lemma single_mem: "single xs = Some x \<Longrightarrow> x \<in> set xs"
  by (cases xs rule: single.cases) simp_all

lemma post_lookup_mem: "single (posts_by_uri d u) = Some post \<Longrightarrow> post \<in> set (posts d)"
  by (drule single_mem) (simp add: posts_by_uri_def)

lemma profile_lookup_mem: "single (profiles_by_did d u) = Some p \<Longrightarrow> p \<in> set (profiles d)"
  by (drule single_mem) (simp add: profiles_by_did_def)

lemma create_effect_refl [simp]: "create_effect d d"
  by (simp add: create_effect_def)

lemma create_effect_trans:
  "create_effect a b \<Longrightarrow> create_effect b c \<Longrightarrow> create_effect a c"
  unfolding create_effect_def
  by (blast intro: counters_only_trans keys_grow_trans paired_trans unique_ids_counters_only)

lemma mirror_write_effect:
  assumes b: "counter_bump b"
    and one: "\<And>ty d1. unique_ids d \<Longrightarrow> posts d1 = posts d \<Longrightarrow> profiles d1 = profiles d \<Longrightarrow>
                counter_total ty (b d1) = counter_total ty d + (if ty = fi_interaction_type row then 1 else 0)"
  shows "create_effect d (mirror_write e d row b u r p)"
  unfolding create_effect_def
  by (intro conjI impI mirror_write_counters_only mirror_write_keys_grow mirror_write_paired b one)

lemma unique_ids_fields:
  "posts d1 = posts d \<Longrightarrow> profiles d1 = profiles d \<Longrightarrow> unique_ids d1 = unique_ids d"
  by (simp add: unique_ids_def)

lemma post_mirror_effect:
  assumes r: "raises bump T" and ty: "\<And>t. fi_interaction_type (row t) = T"
  shows "create_effect d (post_mirror e d u row bump reason)"
proof (cases "single (posts_by_uri d u)")
  case None
  then show ?thesis by (simp add: post_mirror_def)
next
  case (Some post)
  have mem: "post \<in> set (posts d)" using Some by (rule post_lookup_mem)
  have "create_effect d (mirror_write e d (row (post_id post)) (bump (post_id post))
          (post_user_id post) reason (Some (post_id post)))"
  proof (rule mirror_write_effect)
    show "counter_bump (bump (post_id post))" using r by (simp add: raises_def)
  next
    fix ty and d1 :: db
    assume u: "unique_ids d" and p: "posts d1 = posts d" and q: "profiles d1 = profiles d"
    have u1: "unique_ids d1" using u unique_ids_fields[OF p q] by simp
    have m1: "post \<in> set (posts d1)" using mem p by simp
    have "counter_total ty (bump (post_id post) d1)
            = counter_total ty d1 + (if ty = T then 1 else 0)"
      using r u1 m1 unfolding raises_def by blast
    moreover have "counter_total ty d1 = counter_total ty d"
      by (rule counter_total_fields[OF p q])
    ultimately show "counter_total ty (bump (post_id post) d1) =
        counter_total ty d + (if ty = fi_interaction_type (row (post_id post)) then 1 else 0)"
      by (simp add: ty)
  qed
  then show ?thesis using Some by (simp add: post_mirror_def)
qed

lemma profile_mirror_effect:
  assumes r: "raises_profile bump T" and ty: "\<And>t. fi_interaction_type (row t) = T"
  shows "create_effect d (profile_mirror e d u row bump reason)"
proof (cases "single (profiles_by_did d u)")
  case None
  then show ?thesis by (simp add: profile_mirror_def)
next
  case (Some profile)
  have mem: "profile \<in> set (profiles d)" using Some by (rule profile_lookup_mem)
  have "create_effect d (mirror_write e d (row (profile_id profile)) (bump (profile_id profile))
          (profile_id profile) reason None)"
  proof (rule mirror_write_effect)
    show "counter_bump (bump (profile_id profile))" using r by (simp add: raises_profile_def)
  next
    fix ty and d1 :: db
    assume u: "unique_ids d" and p: "posts d1 = posts d" and q: "profiles d1 = profiles d"
    have u1: "unique_ids d1" using u unique_ids_fields[OF p q] by simp
    have m1: "profile \<in> set (profiles d1)" using mem q by simp
    have "counter_total ty (bump (profile_id profile) d1)
            = counter_total ty d1 + (if ty = T then 1 else 0)"
      using r u1 m1 unfolding raises_profile_def by blast
    moreover have "counter_total ty d1 = counter_total ty d"
      by (rule counter_total_fields[OF p q])
    ultimately show "counter_total ty (bump (profile_id profile) d1) =
        counter_total ty d + (if ty = fi_interaction_type (row (profile_id profile)) then 1 else 0)"
      by (simp add: ty)
  qed
  then show ?thesis using Some by (simp add: profile_mirror_def)
qed

lemma post_mirror_settles:
  assumes b: "\<And>t. counter_bump (bump t)" and key: "\<And>t. fi_at_uri (row t) = key"
  shows "post_settled (post_mirror e d u row bump reason) u key"
proof (cases "single (posts_by_uri d u)")
  case None
  then show ?thesis by (simp add: post_mirror_def post_settled_def)
next
  case (Some post)
  have "interaction_rows (mirror_write e d (row (post_id post)) (bump (post_id post))
          (post_user_id post) reason (Some (post_id post))) (fi_at_uri (row (post_id post))) \<noteq> []"
    by (rule mirror_write_present) (rule b)
  then show ?thesis using Some by (simp add: post_mirror_def post_settled_def key)
qed

lemma profile_mirror_settles:
  assumes b: "\<And>t. counter_bump (bump t)" and key: "\<And>t. fi_at_uri (row t) = key"
  shows "profile_settled (profile_mirror e d u row bump reason) u key"
proof (cases "single (profiles_by_did d u)")
  case None
  then show ?thesis by (simp add: profile_mirror_def profile_settled_def)
next
  case (Some profile)
  have "interaction_rows (mirror_write e d (row (profile_id profile)) (bump (profile_id profile))
          (profile_id profile) reason None) (fi_at_uri (row (profile_id profile))) \<noteq> []"
    by (rule mirror_write_present) (rule b)
  then show ?thesis using Some by (simp add: profile_mirror_def profile_settled_def key)
qed

lemma keys_grow_nonempty: "keys_grow d d' \<Longrightarrow> interaction_rows d k \<noteq> [] \<Longrightarrow> interaction_rows d' k \<noteq> []"
  unfolding keys_grow_def by metis

lemma post_settled_stable:
  assumes s: "post_settled d u key" and c: "create_effect d d'"
  shows "post_settled d' u key"
proof -
  have co: "counters_only d d'" and kg: "keys_grow d d'" using c by (simp_all add: create_effect_def)
  from s show ?thesis unfolding post_settled_def
  proof
    assume n: "single (posts_by_uri d u) = None"
    from post_lookup_rel[OF co, of u] n have "single (posts_by_uri d' u) = None"
      by (cases "single (posts_by_uri d' u)") simp_all
    then show "single (posts_by_uri d' u) = None \<or> interaction_rows d' key \<noteq> []" by simp
  next
    assume "interaction_rows d key \<noteq> []"
    then show "single (posts_by_uri d' u) = None \<or> interaction_rows d' key \<noteq> []"
      using keys_grow_nonempty[OF kg] by simp
  qed
qed

lemma profile_settled_stable:
  assumes s: "profile_settled d u key" and c: "create_effect d d'"
  shows "profile_settled d' u key"
proof -
  have co: "counters_only d d'" and kg: "keys_grow d d'" using c by (simp_all add: create_effect_def)
  from s show ?thesis unfolding profile_settled_def
  proof
    assume n: "single (profiles_by_did d u) = None"
    from profile_lookup_rel[OF co, of u] n have "single (profiles_by_did d' u) = None"
      by (cases "single (profiles_by_did d' u)") simp_all
    then show "single (profiles_by_did d' u) = None \<or> interaction_rows d' key \<noteq> []" by simp
  next
    assume "interaction_rows d key \<noteq> []"
    then show "single (profiles_by_did d' u) = None \<or> interaction_rows d' key \<noteq> []"
      using keys_grow_nonempty[OF kg] by simp
  qed
qed

lemma post_mirror_settled:
  assumes s: "post_settled d u key" and key: "\<And>t. fi_at_uri (row t) = key"
  shows "post_mirror e d u row bump reason = d"
  using s unfolding post_settled_def post_mirror_def
  by (auto simp: key mirror_write_noop split: option.split)

lemma profile_mirror_settled:
  assumes s: "profile_settled d u key" and key: "\<And>t. fi_at_uri (row t) = key"
  shows "profile_mirror e d u row bump reason = d"
  using s unfolding profile_settled_def profile_mirror_def
  by (auto simp: key mirror_write_noop split: option.split)

lemma raises_likes: "raises increment_post_likes ''like''"
  unfolding raises_def
proof (intro conjI allI impI ballI)
  fix d1 :: db and ty and p
  assume u: "unique_ids d1" and m: "p \<in> set (posts d1)"
  have dist: "distinct (map post_id (posts d1))" using u by (simp add: unique_ids_def)
  have 1: "sum_list (map likes_count (map (\<lambda>q. if post_id q = post_id p
              then q\<lparr>likes_count := likes_count q + 1\<rparr> else q) (posts d1)))
           = sum_list (map likes_count (posts d1)) + 1"
    by (rule sum_bump_one[OF _ dist m]) simp
  have 2: "sum_list (map g (map (\<lambda>q. if post_id q = post_id p
              then q\<lparr>likes_count := likes_count q + 1\<rparr> else q) (posts d1)))
           = sum_list (map g (posts d1))"
    if "\<And>q. g (q\<lparr>likes_count := likes_count q + 1\<rparr>) = g q" for g :: "post_row \<Rightarrow> nat"
    by (rule sum_bump_other) (rule that)
  show "counter_total ty (increment_post_likes (post_id p) d1)
         = counter_total ty d1 + (if ty = ''like'' then 1 else 0)"
    by (simp add: counter_total_def increment_post_likes_def 1 2 del: map_map)
qed simp

lemma raises_reposts: "raises increment_post_reposts ''repost''"
  unfolding raises_def
proof (intro conjI allI impI ballI)
  fix d1 :: db and ty and p
  assume u: "unique_ids d1" and m: "p \<in> set (posts d1)"
  have dist: "distinct (map post_id (posts d1))" using u by (simp add: unique_ids_def)
  have 1: "sum_list (map reposts_count (map (\<lambda>q. if post_id q = post_id p
              then q\<lparr>reposts_count := reposts_count q + 1\<rparr> else q) (posts d1)))
           = sum_list (map reposts_count (posts d1)) + 1"
    by (rule sum_bump_one[OF _ dist m]) simp
  have 2: "sum_list (map g (map (\<lambda>q. if post_id q = post_id p
              then q\<lparr>reposts_count := reposts_count q + 1\<rparr> else q) (posts d1)))
           = sum_list (map g (posts d1))"
    if "\<And>q. g (q\<lparr>reposts_count := reposts_count q + 1\<rparr>) = g q" for g :: "post_row \<Rightarrow> nat"
    by (rule sum_bump_other) (rule that)
  show "counter_total ty (increment_post_reposts (post_id p) d1)
         = counter_total ty d1 + (if ty = ''repost'' then 1 else 0)"
    by (simp add: counter_total_def increment_post_reposts_def 1 2 del: map_map)
qed simp

lemma raises_replies: "raises increment_post_replies ''reply''"
  unfolding raises_def
proof (intro conjI allI impI ballI)
  fix d1 :: db and ty and p
  assume u: "unique_ids d1" and m: "p \<in> set (posts d1)"
  have dist: "distinct (map post_id (posts d1))" using u by (simp add: unique_ids_def)
  have 1: "sum_list (map replies_count (map (\<lambda>q. if post_id q = post_id p
              then q\<lparr>replies_count := replies_count q + 1\<rparr> else q) (posts d1)))
           = sum_list (map replies_count (posts d1)) + 1"
    by (rule sum_bump_one[OF _ dist m]) simp
  have 2: "sum_list (map g (map (\<lambda>q. if post_id q = post_id p
              then q\<lparr>replies_count := replies_count q + 1\<rparr> else q) (posts d1)))
           = sum_list (map g (posts d1))"
    if "\<And>q. g (q\<lparr>replies_count := replies_count q + 1\<rparr>) = g q" for g :: "post_row \<Rightarrow> nat"
    by (rule sum_bump_other) (rule that)
  show "counter_total ty (increment_post_replies (post_id p) d1)
         = counter_total ty d1 + (if ty = ''reply'' then 1 else 0)"
    by (simp add: counter_total_def increment_post_replies_def 1 2 del: map_map)
qed simp

lemma raises_quotes: "raises increment_post_quotes ''quote''"
  unfolding raises_def
proof (intro conjI allI impI ballI)
  fix d1 :: db and ty and p
  assume u: "unique_ids d1" and m: "p \<in> set (posts d1)"
  have dist: "distinct (map post_id (posts d1))" using u by (simp add: unique_ids_def)
  have 1: "sum_list (map quotes_count (map (\<lambda>q. if post_id q = post_id p
              then q\<lparr>quotes_count := quotes_count q + 1\<rparr> else q) (posts d1)))
           = sum_list (map quotes_count (posts d1)) + 1"
    by (rule sum_bump_one[OF _ dist m]) simp
  have 2: "sum_list (map g (map (\<lambda>q. if post_id q = post_id p
              then q\<lparr>quotes_count := quotes_count q + 1\<rparr> else q) (posts d1)))
           = sum_list (map g (posts d1))"
    if "\<And>q. g (q\<lparr>quotes_count := quotes_count q + 1\<rparr>) = g q" for g :: "post_row \<Rightarrow> nat"
    by (rule sum_bump_other) (rule that)
  show "counter_total ty (increment_post_quotes (post_id p) d1)
         = counter_total ty d1 + (if ty = ''quote'' then 1 else 0)"
    by (simp add: counter_total_def increment_post_quotes_def 1 2 del: map_map)
qed simp

lemma raises_followers: "raises_profile increment_profile_followers ''follow''"
  unfolding raises_profile_def
proof (intro conjI allI impI ballI)
  fix d1 :: db and ty and p
  assume u: "unique_ids d1" and m: "p \<in> set (profiles d1)"
  have dist: "distinct (map profile_id (profiles d1))" using u by (simp add: unique_ids_def)
  have 1: "sum_list (map followers_count (map (\<lambda>q. if profile_id q = profile_id p
              then q\<lparr>followers_count := followers_count q + 1\<rparr> else q) (profiles d1)))
           = sum_list (map followers_count (profiles d1)) + 1"
    by (rule sum_bump_one[OF _ dist m]) simp
  show "counter_total ty (increment_profile_followers (profile_id p) d1)
         = counter_total ty d1 + (if ty = ''follow'' then 1 else 0)"
    by (simp add: counter_total_def increment_profile_followers_def 1 del: map_map)
qed simp

lemma handleLikeEvent_create:
  "handleLikeEvent e d a ''create'' r k =
     (case local_subject (subject_uri r) of
        Inl err \<Rightarrow> (d, Throws err)
      | Inr None \<Rightarrow> (d, Normal)
      | Inr (Some u) \<Rightarrow> (post_mirror e d u (like_row a k) increment_post_likes ''like'', Normal))"
  by (simp add: handleLikeEvent_def post_mirror_def mirror_write_def like_row_def Let_def
           split: sum.split option.split)

lemma handleRepostEvent_create:
  "handleRepostEvent e d a ''create'' r k =
     (case local_subject (subject_uri r) of
        Inl err \<Rightarrow> (d, Throws err)
      | Inr None \<Rightarrow> (d, Normal)
      | Inr (Some u) \<Rightarrow> (post_mirror e d u (repost_row a k) increment_post_reposts ''repost'', Normal))"
  by (simp add: handleRepostEvent_def post_mirror_def mirror_write_def repost_row_def Let_def
           split: sum.split option.split)

lemma handleFollowEvent_create:
  "handleFollowEvent e d a ''create'' r k =
     (case follow_subject r of
        None \<Rightarrow> (d, Normal)
      | Some u \<Rightarrow>
          (profile_mirror e d u (follow_row a k) increment_profile_followers ''follow'', Normal))"
  by (simp add: handleFollowEvent_def profile_mirror_def mirror_write_def follow_row_def Let_def
           split: option.split)

lemma reply_part_mirror:
  "reply_part e d a r key u = post_mirror e d u (reply_row a r key) increment_post_replies ''reply''"
  by (simp add: reply_part_def post_mirror_def mirror_write_def reply_row_def
           split: option.split)

lemma quote_part_mirror:
  "quote_part e d a r key u = post_mirror e d u (quote_row a r key) increment_post_quotes ''quote''"
  by (simp add: quote_part_def post_mirror_def mirror_write_def quote_row_def Let_def
           split: option.split)

lemma raises_bump: "raises b T \<Longrightarrow> counter_bump (b t)"
  by (simp add: raises_def)

lemma post_mirror_idem:
  assumes b: "\<And>t. counter_bump (bump t)" and key: "\<And>t. fi_at_uri (row t) = key"
  shows "post_mirror e2 (post_mirror e1 d u row bump reason) u row bump reason
         = post_mirror e1 d u row bump reason"
  by (rule post_mirror_settled[OF post_mirror_settles[OF b key] key])

lemma profile_mirror_idem:
  assumes b: "\<And>t. counter_bump (bump t)" and key: "\<And>t. fi_at_uri (row t) = key"
  shows "profile_mirror e2 (profile_mirror e1 d u row bump reason) u row bump reason
         = profile_mirror e1 d u row bump reason"
  by (rule profile_mirror_settled[OF profile_mirror_settles[OF b key] key])

lemma post_mirror_idem_after:
  assumes b: "\<And>t. counter_bump (bump t)" and key: "\<And>t. fi_at_uri (row t) = key"
    and r': "raises bump' T'" and ty': "\<And>t. fi_interaction_type (row' t) = T'"
  shows "post_mirror e2 (post_mirror e3 (post_mirror e1 d u row bump reason) u' row' bump' reason')
            u row bump reason
         = post_mirror e3 (post_mirror e1 d u row bump reason) u' row' bump' reason'"
  by (rule post_mirror_settled[OF post_settled_stable[OF post_mirror_settles[OF b key]
            post_mirror_effect[OF r' ty']] key])

lemma row_simps [simp]:
  "fi_at_uri (like_row a k t) = like_uri a k"
  "fi_at_uri (repost_row a k t) = repost_uri a k"
  "fi_at_uri (follow_row a k t) = follow_uri a k"
  "fi_at_uri (reply_row a r key t) = key"
  "fi_at_uri (quote_row a r key t) = key @ ''#quote''"
  "fi_interaction_type (like_row a k t) = ''like''"
  "fi_interaction_type (repost_row a k t) = ''repost''"
  "fi_interaction_type (follow_row a k t) = ''follow''"
  "fi_interaction_type (reply_row a r key t) = ''reply''"
  "fi_interaction_type (quote_row a r key t) = ''quote''"
  by (simp_all add: like_row_def repost_row_def follow_row_def reply_row_def quote_row_def)

lemma handleLikeEvent_twice:
  "fst (handleLikeEvent e2 (fst (handleLikeEvent e1 d a ''create'' r k)) a ''create'' r k)
     = fst (handleLikeEvent e1 d a ''create'' r k)"
  by (simp add: handleLikeEvent_create post_mirror_idem[where key = "like_uri a k"]
        split: sum.split option.split)

lemma handleRepostEvent_twice:
  "fst (handleRepostEvent e2 (fst (handleRepostEvent e1 d a ''create'' r k)) a ''create'' r k)
     = fst (handleRepostEvent e1 d a ''create'' r k)"
  by (simp add: handleRepostEvent_create post_mirror_idem[where key = "repost_uri a k"]
        split: sum.split option.split)

lemma handleFollowEvent_twice:
  "fst (handleFollowEvent e2 (fst (handleFollowEvent e1 d a ''create'' r k)) a ''create'' r k)
     = fst (handleFollowEvent e1 d a ''create'' r k)"
  by (simp add: handleFollowEvent_create profile_mirror_idem[where key = "follow_uri a k"]
        split: option.split)

lemma handleLikeEvent_effect:
  "create_effect d (fst (handleLikeEvent e d a ''create'' r k))"
  by (simp add: handleLikeEvent_create post_mirror_effect[OF raises_likes]
        split: sum.split option.split)

lemma handleRepostEvent_effect:
  "create_effect d (fst (handleRepostEvent e d a ''create'' r k))"
  by (simp add: handleRepostEvent_create post_mirror_effect[OF raises_reposts]
        split: sum.split option.split)

lemma handleFollowEvent_effect:
  "create_effect d (fst (handleFollowEvent e d a ''create'' r k))"
  by (simp add: handleFollowEvent_create profile_mirror_effect[OF raises_followers]
        split: option.split)

section \<open>A create branch that applies\<close>

lemma mirror_write_applies:
  assumes "interaction_rows d (fi_at_uri row) = []"
  shows "mirror_write e d row b u r p =
      createExternalNotification e
        (b (d\<lparr>federated_interactions := federated_interactions d @ [row]\<rparr>)) u (fi_actor_did row) r p"
  using assms by (simp add: mirror_write_def insert_interaction_def)

lemma post_mirror_applies:
  assumes "single (posts_by_uri d u) = Some post" and "interaction_rows d key = []"
    and "\<And>t. fi_at_uri (row t) = key"
  shows "post_mirror e d u row bump reason =
      createExternalNotification e
        (bump (post_id post)
           (d\<lparr>federated_interactions := federated_interactions d @ [row (post_id post)]\<rparr>))
        (post_user_id post) (fi_actor_did (row (post_id post))) reason (Some (post_id post))"
  using assms by (simp add: post_mirror_def mirror_write_applies)

lemma profile_mirror_applies:
  assumes "single (profiles_by_did d u) = Some profile" and "interaction_rows d key = []"
    and "\<And>t. fi_at_uri (row t) = key"
  shows "profile_mirror e d u row bump reason =
      createExternalNotification e
        (bump (profile_id profile)
           (d\<lparr>federated_interactions := federated_interactions d @ [row (profile_id profile)]\<rparr>))
        (profile_id profile) (fi_actor_did (row (profile_id profile))) reason None"
  using assms by (simp add: profile_mirror_def mirror_write_applies)

lemma map_bump_column:
  "map g (map (\<lambda>p. if key p = t then h p else p) xs)
     = map (\<lambda>p. if key p = t then g (h p) else g p) xs"
  by (induction xs) auto

lemma bump_columns:
  "map likes_count (posts (increment_post_likes t d))
     = column_raised post_id likes_count t (posts d)"
  "map reposts_count (posts (increment_post_reposts t d))
     = column_raised post_id reposts_count t (posts d)"
  "map replies_count (posts (increment_post_replies t d))
     = column_raised post_id replies_count t (posts d)"
  "map quotes_count (posts (increment_post_quotes t d))
     = column_raised post_id quotes_count t (posts d)"
  "map followers_count (profiles (increment_profile_followers t d))
     = column_raised profile_id followers_count t (profiles d)"
  by (simp_all add: increment_post_likes_def increment_post_reposts_def
        increment_post_replies_def increment_post_quotes_def increment_profile_followers_def
        column_raised_def map_bump_column del: map_map)

lemma bump_other_columns:
  "map quotes_count (posts (increment_post_replies t d)) = map quotes_count (posts d)"
  "map replies_count (posts (increment_post_quotes t d)) = map replies_count (posts d)"
  by (simp_all add: increment_post_replies_def increment_post_quotes_def map_bump_column
        del: map_map)

lemma bump_table [simp]:
  "federated_interactions (increment_post_likes t d) = federated_interactions d"
  "federated_interactions (increment_post_reposts t d) = federated_interactions d"
  "federated_interactions (increment_post_replies t d) = federated_interactions d"
  "federated_interactions (increment_post_quotes t d) = federated_interactions d"
  "federated_interactions (increment_profile_followers t d) = federated_interactions d"
  "posts (increment_post_likes t (d\<lparr>federated_interactions := x\<rparr>)) = posts (increment_post_likes t d)"
  "posts (increment_post_reposts t (d\<lparr>federated_interactions := x\<rparr>))
     = posts (increment_post_reposts t d)"
  "posts (increment_post_replies t (d\<lparr>federated_interactions := x\<rparr>))
     = posts (increment_post_replies t d)"
  "posts (increment_post_quotes t (d\<lparr>federated_interactions := x\<rparr>))
     = posts (increment_post_quotes t d)"
  "profiles (increment_profile_followers t (d\<lparr>federated_interactions := x\<rparr>))
     = profiles (increment_profile_followers t d)"
  by (simp_all add: increment_post_likes_def increment_post_reposts_def
        increment_post_replies_def increment_post_quotes_def increment_profile_followers_def)

lemma column_raised_cong:
  "map ident xs = map ident ys \<Longrightarrow> map counter xs = map counter ys \<Longrightarrow>
     column_raised ident counter t xs = column_raised ident counter t ys"
proof (induction xs arbitrary: ys)
  case Nil
  then show ?case by (simp add: column_raised_def)
next
  case (Cons x xs)
  then obtain y ys' where ys: "ys = y # ys'" by (cases ys) auto
  then have "column_raised ident counter t xs = column_raised ident counter t ys'"
    using Cons by simp
  then show ?case using Cons.prems ys by (simp add: column_raised_def)
qed

lemma counters_only_ids:
  "counters_only d d' \<Longrightarrow> map post_id (posts d') = map post_id (posts d)"
  "counters_only d d' \<Longrightarrow> map profile_id (profiles d') = map profile_id (profiles d)"
proof -
  have 1: "list_all2 same_post xs ys \<Longrightarrow> map post_id ys = map post_id xs" for xs ys
    by (induction rule: list_all2_induct) (simp_all add: same_post_def)
  have 2: "list_all2 same_profile xs ys \<Longrightarrow> map profile_id ys = map profile_id xs" for xs ys
    by (induction rule: list_all2_induct) (simp_all add: same_profile_def)
  show "counters_only d d' \<Longrightarrow> map post_id (posts d') = map post_id (posts d)"
    by (simp add: counters_only_def 1)
  show "counters_only d d' \<Longrightarrow> map profile_id (profiles d') = map profile_id (profiles d)"
    by (simp add: counters_only_def 2)
qed

text \<open>What the reply half and the quote half leave alone.\<close>

lemma post_mirror_other_key:
  assumes key: "\<And>t. fi_at_uri (row t) = key" and b: "\<And>t. counter_bump (bump t)"
    and other: "k \<noteq> key"
  shows "interaction_rows (post_mirror e d u row bump reason) k = interaction_rows d k"
proof (cases "single (posts_by_uri d u)")
  case None
  then show ?thesis by (simp add: post_mirror_def)
next
  case (Some post)
  show ?thesis
    using mirror_write_rows[OF b[of "post_id post"], of e d "row (post_id post)"
        "post_user_id post" reason "Some (post_id post)"] Some other key
    by (auto simp: post_mirror_def interaction_rows_def)
qed

lemma post_mirror_quote_column:
  "map replies_count (posts (post_mirror e d u row increment_post_quotes reason))
     = map replies_count (posts d)"
proof (cases "single (posts_by_uri d u)")
  case None
  then show ?thesis by (simp add: post_mirror_def)
next
  case (Some post)
  show ?thesis
    using mirror_write_cases[of e d "row (post_id post)" "increment_post_quotes (post_id post)"
        "post_user_id post" reason "Some (post_id post)"] Some
    by (auto simp: post_mirror_def bump_other_columns)
qed

lemma post_mirror_reply_column:
  "map quotes_count (posts (post_mirror e d u row increment_post_replies reason))
     = map quotes_count (posts d)"
proof (cases "single (posts_by_uri d u)")
  case None
  then show ?thesis by (simp add: post_mirror_def)
next
  case (Some post)
  show ?thesis
    using mirror_write_cases[of e d "row (post_id post)" "increment_post_replies (post_id post)"
        "post_user_id post" reason "Some (post_id post)"] Some
    by (auto simp: post_mirror_def bump_other_columns)
qed

lemma post_mirror_counters_only:
  assumes "\<And>t. counter_bump (bump t)"
  shows "counters_only d (post_mirror e d u row bump reason)"
  by (cases "single (posts_by_uri d u)")
     (simp_all add: post_mirror_def mirror_write_counters_only assms)

lemma handlePostEvent_create:
  "handlePostEvent e d a ''create'' r k =
     (case when_local (reply_parent_uri r)
             (\<lambda>u. post_mirror e d u (reply_row a r (post_uri a k)) increment_post_replies ''reply'') d of
        Inl err \<Rightarrow> (d, Throws err)
      | Inr d1 \<Rightarrow>
          (case when_local (embed_record_uri r)
                  (\<lambda>u. post_mirror e d1 u (quote_row a r (post_uri a k)) increment_post_quotes ''quote'')
                  d1 of
             Inl err \<Rightarrow> (d1, Throws err)
           | Inr d2 \<Rightarrow> (d2, Normal)))"
proof -
  have rp: "reply_part e d a r (post_uri a k)
     = (\<lambda>u. post_mirror e d u (reply_row a r (post_uri a k)) increment_post_replies ''reply'')"
    by (rule ext) (rule reply_part_mirror)
  have qp: "quote_part e d1 a r (post_uri a k)
     = (\<lambda>u. post_mirror e d1 u (quote_row a r (post_uri a k)) increment_post_quotes ''quote'')"
    for d1 by (rule ext) (rule quote_part_mirror)
  show ?thesis
    by (simp add: handlePostEvent_def Let_def rp qp cong: sum.case_cong)
qed

lemma handlePostEvent_twice:
  "fst (handlePostEvent e2 (fst (handlePostEvent e1 d a ''create'' r k)) a ''create'' r k)
     = fst (handlePostEvent e1 d a ''create'' r k)"
proof -
  note idem = post_mirror_idem[where key = "post_uri a k" and row = "reply_row a r (post_uri a k)"]
    post_mirror_idem[where key = "post_uri a k @ ''#quote''" and row = "quote_row a r (post_uri a k)"]
    post_mirror_idem_after[where key = "post_uri a k" and row = "reply_row a r (post_uri a k)",
      OF _ _ raises_quotes]
  show ?thesis
    by (cases "reply_parent_uri r"; cases "embed_record_uri r")
       (simp_all add: handlePostEvent_create idem)
qed

lemma handlePostEvent_effect:
  "create_effect d (fst (handlePostEvent e d a ''create'' r k))"
proof -
  have 1: "create_effect d (post_mirror e d u (reply_row a r (post_uri a k)) increment_post_replies ''reply'')"
    for u by (rule post_mirror_effect[OF raises_replies]) simp
  have 2: "create_effect d1 (post_mirror e d1 u (quote_row a r (post_uri a k)) increment_post_quotes ''quote'')"
    for u d1 by (rule post_mirror_effect[OF raises_quotes]) simp
  have 3: "create_effect d (post_mirror e (post_mirror e d u (reply_row a r (post_uri a k)) increment_post_replies ''reply'')
       u' (quote_row a r (post_uri a k)) increment_post_quotes ''quote'')" for u u'
    by (rule create_effect_trans[OF 1 2])
  show ?thesis
    by (cases "reply_parent_uri r"; cases "embed_record_uri r")
       (simp_all add: handlePostEvent_create 1 2 3)
qed

lemma processEvent_twice:
  assumes "ev_commit event = Some c" and "operation c = ''create''"
  shows "fst (processEvent e2 (fst (processEvent e1 d event)) event) = fst (processEvent e1 d event)"
  using assms
  by (simp add: processEvent_def handleLikeEvent_twice handleRepostEvent_twice
        handlePostEvent_twice handleFollowEvent_twice)

lemma processEvent_effect:
  assumes "ev_commit event = Some c" and "operation c = ''create''"
  shows "create_effect d (fst (processEvent e d event))"
  using assms
  by (simp add: processEvent_def handleLikeEvent_effect handleRepostEvent_effect
        handlePostEvent_effect handleFollowEvent_effect)

lemma record_uri_keys:
  "record_uri a ''app.bsky.feed.like'' k = like_uri a k"
  "record_uri a ''app.bsky.feed.repost'' k = repost_uri a k"
  "record_uri a ''app.bsky.feed.post'' k = post_uri a k"
  "record_uri a ''app.bsky.graph.follow'' k = follow_uri a k"
  by (simp_all add: record_uri_def like_uri_def repost_uri_def post_uri_def follow_uri_def)

lemma processEvent_stored:
  assumes c: "ev_commit event = Some c" and op: "operation c = ''create''"
    and other: "collection c \<noteq> ''app.bsky.feed.post''"
    and stored: "interaction_rows d (record_uri (ev_did event) (collection c) (rkey c)) \<noteq> []"
  shows "fst (processEvent e d event) = d"
proof -
  let ?a = "ev_did event" and ?k = "rkey c"
  consider (like) "collection c = ''app.bsky.feed.like''"
    | (repost) "collection c = ''app.bsky.feed.repost''"
    | (follow) "collection c = ''app.bsky.graph.follow''"
    | (none) "collection c \<noteq> ''app.bsky.feed.like''" "collection c \<noteq> ''app.bsky.feed.repost''"
        "collection c \<noteq> ''app.bsky.graph.follow''"
    by blast
  then show ?thesis
  proof cases
    case like
    then have "post_settled d u (like_uri ?a ?k)" for u
      using stored by (simp add: post_settled_def record_uri_keys)
    then have "post_mirror e d u (like_row ?a ?k) increment_post_likes ''like'' = d" for u
      by (rule post_mirror_settled) simp
    then show ?thesis using c op like
      by (simp add: processEvent_def handleLikeEvent_create split: sum.split option.split)
  next
    case repost
    then have "post_settled d u (repost_uri ?a ?k)" for u
      using stored by (simp add: post_settled_def record_uri_keys)
    then have "post_mirror e d u (repost_row ?a ?k) increment_post_reposts ''repost'' = d" for u
      by (rule post_mirror_settled) simp
    then show ?thesis using c op repost
      by (simp add: processEvent_def handleRepostEvent_create split: sum.split option.split)
  next
    case follow
    then have "profile_settled d u (follow_uri ?a ?k)" for u
      using stored by (simp add: profile_settled_def record_uri_keys)
    then have "profile_mirror e d u (follow_row ?a ?k) increment_profile_followers ''follow'' = d"
      for u by (rule profile_mirror_settled) simp
    then show ?thesis using c op follow
      by (simp add: processEvent_def handleFollowEvent_create split: option.split)
  next
    case none
    then show ?thesis using c other by (simp add: processEvent_def)
  qed
qed

lemma processEvent_stored_post:
  assumes c: "ev_commit event = Some c" and op: "operation c = ''create''"
    and post: "collection c = ''app.bsky.feed.post''"
    and reply: "interaction_rows d (record_uri (ev_did event) (collection c) (rkey c)) \<noteq> []"
    and quote: "interaction_rows d (record_uri (ev_did event) (collection c) (rkey c) @ ''#quote'')
                  \<noteq> []"
  shows "fst (processEvent e d event) = d"
proof -
  let ?a = "ev_did event" and ?k = "rkey c" and ?r = "commit_record c"
  have "post_settled d u (post_uri ?a ?k)" for u
    using reply post by (simp add: post_settled_def record_uri_keys)
  then have 1: "post_mirror e d u (reply_row ?a ?r (post_uri ?a ?k)) increment_post_replies ''reply''
                 = d" for u
    by (rule post_mirror_settled) simp
  have "post_settled d u (post_uri ?a ?k @ ''#quote'')" for u
    using quote post by (simp add: post_settled_def record_uri_keys)
  then have 2: "post_mirror e d u (quote_row ?a ?r (post_uri ?a ?k)) increment_post_quotes ''quote''
                 = d" for u
    by (rule post_mirror_settled) simp
  have "fst (handlePostEvent e d ?a ''create'' ?r ?k) = d"
    by (cases "reply_parent_uri ?r"; cases "embed_record_uri ?r")
       (simp_all add: handlePostEvent_create 1 2)
  then show ?thesis using c op post by (simp add: processEvent_def)
qed

section \<open>A create event that applies\<close>

lemma rows_after_append:
  "interaction_rows d key = [] \<Longrightarrow> fi_at_uri row = key \<Longrightarrow>
     federated_interactions d' = federated_interactions d @ [row] \<Longrightarrow>
     interaction_rows d' key = [row]"
  by (simp add: interaction_rows_def)

lemma like_applies:
  assumes "local_subject (subject_uri r) = Inr (Some u)"
    and "single (posts_by_uri d u) = Some post"
    and "interaction_rows d (like_uri a k) = []"
  shows "federated_interactions (fst (handleLikeEvent e d a ''create'' r k))
           = federated_interactions d @ [like_row a k (post_id post)]"
    and "map likes_count (posts (fst (handleLikeEvent e d a ''create'' r k)))
           = column_raised post_id likes_count (post_id post) (posts d)"
  using assms
  by (simp_all add: handleLikeEvent_create post_mirror_applies[where key = "like_uri a k"]
        bump_columns)

lemma repost_applies:
  assumes "local_subject (subject_uri r) = Inr (Some u)"
    and "single (posts_by_uri d u) = Some post"
    and "interaction_rows d (repost_uri a k) = []"
  shows "federated_interactions (fst (handleRepostEvent e d a ''create'' r k))
           = federated_interactions d @ [repost_row a k (post_id post)]"
    and "map reposts_count (posts (fst (handleRepostEvent e d a ''create'' r k)))
           = column_raised post_id reposts_count (post_id post) (posts d)"
  using assms
  by (simp_all add: handleRepostEvent_create post_mirror_applies[where key = "repost_uri a k"]
        bump_columns)

lemma follow_applies:
  assumes "follow_subject r = Some u"
    and "single (profiles_by_did d u) = Some profile"
    and "interaction_rows d (follow_uri a k) = []"
  shows "federated_interactions (fst (handleFollowEvent e d a ''create'' r k))
           = federated_interactions d @ [follow_row a k (profile_id profile)]"
    and "map followers_count (profiles (fst (handleFollowEvent e d a ''create'' r k)))
           = column_raised profile_id followers_count (profile_id profile) (profiles d)"
  using assms
  by (simp_all add: handleFollowEvent_create
        profile_mirror_applies[where key = "follow_uri a k"] bump_columns)

lemma quote_key_differs: "key @ ''#quote'' \<noteq> key" "key \<noteq> key @ ''#quote''"
  by simp_all

lemma reply_applies:
  assumes parent: "reply_parent_uri r = JString u" "str_includes u CANNECT_DOMAIN"
    and found: "single (posts_by_uri d u) = Some parent"
    and fresh: "interaction_rows d (post_uri a k) = []"
  shows "interaction_rows (fst (handlePostEvent e d a ''create'' r k)) (post_uri a k)
           = [reply_row a r (post_uri a k) (post_id parent)]"
    and "map replies_count (posts (fst (handlePostEvent e d a ''create'' r k)))
           = column_raised post_id replies_count (post_id parent) (posts d)"
proof -
  let ?key = "post_uri a k"
  let ?d1 = "post_mirror e d u (reply_row a r ?key) increment_post_replies ''reply''"
  have d1: "?d1 = createExternalNotification e
        (increment_post_replies (post_id parent)
           (d\<lparr>federated_interactions :=
                federated_interactions d @ [reply_row a r ?key (post_id parent)]\<rparr>))
        (post_user_id parent) (fi_actor_did (reply_row a r ?key (post_id parent))) ''reply''
        (Some (post_id parent))"
    by (rule post_mirror_applies[OF found fresh]) simp
  have rows1: "interaction_rows ?d1 ?key = [reply_row a r ?key (post_id parent)]"
    by (rule rows_after_append[OF fresh]) (simp_all add: d1)
  have col1: "map replies_count (posts ?d1)
                = column_raised post_id replies_count (post_id parent) (posts d)"
    by (simp add: d1 bump_columns)
  have q: "interaction_rows
             (post_mirror e ?d1 s (quote_row a r ?key) increment_post_quotes ''quote'') ?key
           = interaction_rows ?d1 ?key" for s
    by (rule post_mirror_other_key[where key = "?key @ ''#quote''"]) simp_all
  have fst_cases: "fst (handlePostEvent e d a ''create'' r k) = ?d1
      \<or> (\<exists>s. fst (handlePostEvent e d a ''create'' r k)
               = post_mirror e ?d1 s (quote_row a r ?key) increment_post_quotes ''quote'')"
    using parent by (cases "embed_record_uri r") (auto simp: handlePostEvent_create)
  show "interaction_rows (fst (handlePostEvent e d a ''create'' r k)) ?key
           = [reply_row a r ?key (post_id parent)]"
    using fst_cases q rows1 by (elim disjE exE) simp_all
  show "map replies_count (posts (fst (handlePostEvent e d a ''create'' r k)))
           = column_raised post_id replies_count (post_id parent) (posts d)"
    using fst_cases col1 by (elim disjE exE) (simp_all add: post_mirror_quote_column)
qed

lemma quote_applies:
  assumes parent: "\<forall>n. reply_parent_uri r \<noteq> JNumber n"
    and embed: "embed_record_uri r = JString u" "str_includes u CANNECT_DOMAIN"
    and found: "single (posts_by_uri d u) = Some quoted"
    and fresh: "interaction_rows d (post_uri a k @ ''#quote'') = []"
  shows "interaction_rows (fst (handlePostEvent e d a ''create'' r k)) (post_uri a k @ ''#quote'')
           = [quote_row a r (post_uri a k) (post_id quoted)]"
    and "map quotes_count (posts (fst (handlePostEvent e d a ''create'' r k)))
           = column_raised post_id quotes_count (post_id quoted) (posts d)"
proof -
  let ?key = "post_uri a k"
  let ?reply = "\<lambda>s. post_mirror e d s (reply_row a r ?key) increment_post_replies ''reply''"
  have "\<exists>d1. when_local (reply_parent_uri r) ?reply d = Inr d1
            \<and> (d1 = d \<or> (\<exists>s. d1 = ?reply s))"
    using parent by (cases "reply_parent_uri r") auto
  then obtain d1 where w: "when_local (reply_parent_uri r) ?reply d = Inr d1"
    and d1: "d1 = d \<or> (\<exists>s. d1 = ?reply s)"
    by blast
  have co: "counters_only d d1"
    using d1 by (auto intro: post_mirror_counters_only)
  have rows1: "interaction_rows d1 (?key @ ''#quote'') = []"
    using d1 fresh post_mirror_other_key[where key = ?key and k = "?key @ ''#quote''"
        and row = "reply_row a r ?key" and bump = increment_post_replies and d = d and e = e]
    by auto
  have col1: "map quotes_count (posts d1) = map quotes_count (posts d)"
    using d1 by (auto simp: post_mirror_reply_column)
  obtain q' where q': "single (posts_by_uri d1 u) = Some q'" and same: "same_post quoted q'"
    using post_lookup_rel[OF co, of u] found by (auto simp: option_rel_Some1)
  have id: "post_id q' = post_id quoted" using same by (simp add: same_post_def)
  let ?d2 = "post_mirror e d1 u (quote_row a r ?key) increment_post_quotes ''quote''"
  have d2: "?d2 = createExternalNotification e
        (increment_post_quotes (post_id quoted)
           (d1\<lparr>federated_interactions :=
                 federated_interactions d1 @ [quote_row a r ?key (post_id quoted)]\<rparr>))
        (post_user_id q') (fi_actor_did (quote_row a r ?key (post_id quoted))) ''quote''
        (Some (post_id quoted))"
    using post_mirror_applies[OF q' rows1, of "quote_row a r ?key" e increment_post_quotes "''quote''"]
    by (simp add: id)
  have res: "fst (handlePostEvent e d a ''create'' r k) = ?d2"
    using w embed by (simp add: handlePostEvent_create)
  show "interaction_rows (fst (handlePostEvent e d a ''create'' r k)) (?key @ ''#quote'')
           = [quote_row a r ?key (post_id quoted)]"
    unfolding res by (rule rows_after_append[OF rows1]) (simp_all add: d2)
  have "map quotes_count (posts ?d2)
          = column_raised post_id quotes_count (post_id quoted) (posts d1)"
    by (simp add: d2 bump_columns)
  also have "\<dots> = column_raised post_id quotes_count (post_id quoted) (posts d)"
    by (rule column_raised_cong) (simp_all add: counters_only_ids[OF co] col1)
  finally show "map quotes_count (posts (fst (handlePostEvent e d a ''create'' r k)))
           = column_raised post_id quotes_count (post_id quoted) (posts d)"
    by (simp add: res)
qed

lemma post_event_other_keys:
  assumes "k' \<noteq> post_uri a k" and "k' \<noteq> post_uri a k @ ''#quote''"
  shows "interaction_rows (fst (handlePostEvent e d a ''create'' r k)) k' = interaction_rows d k'"
proof -
  let ?key = "post_uri a k"
  have 1: "interaction_rows
             (post_mirror e d0 s (reply_row a r ?key) increment_post_replies ''reply'') k'
           = interaction_rows d0 k'" for s d0
    by (rule post_mirror_other_key[where key = ?key]) (simp_all add: assms)
  have 2: "interaction_rows
             (post_mirror e d0 s (quote_row a r ?key) increment_post_quotes ''quote'') k'
           = interaction_rows d0 k'" for s d0
    by (rule post_mirror_other_key[where key = "?key @ ''#quote''"]) (simp_all add: assms)
  show ?thesis
    by (cases "reply_parent_uri r"; cases "embed_record_uri r")
       (simp_all add: handlePostEvent_create 1 2)
qed

text \<open>
  Claim C1.  A create event (like, repost, reply, quote or follow) whose idempotency key
  is stored is dropped: the database stays as it is.  The key is the external record URI;
  a post event has two, the URI for the reply and the URI followed by \<^verbatim>\<open>#quote\<close> for
  the quote.  So a create event processed a second time changes nothing: the database
  after two applications is the database after one.  Over the two applications every
  idempotency key keeps the rows it had, or goes from no row to exactly one; and every
  aggregate counter has grown by exactly the number of interaction records of its type
  that were stored.
  When the key is not stored and the subject resolves to one local post or profile, the
  two applications store the record and count it once.  For a like, a repost and a
  follow the interaction table is the old one followed by the one record of the event,
  and the counter column of the subject's table is the old one with exactly the
  subject's counter raised by one.  For a post event the key of the reply holds exactly
  the reply record and the replies column has the parent's counter raised by one; the
  key of the quote holds exactly the quote record and the quotes column has the quoted
  post's counter raised by one; and no other key changes.  The quote part is reached
  only when the reply part did not raise.  The identifiers of posts and of profiles are
  taken to be unique, as primary keys are.
\<close>

theorem create_event_applied_once:
  assumes "ev_commit event = Some c" and "operation c = ''create''"
    and "distinct (map post_id (posts d))" and "distinct (map profile_id (profiles d))"
  shows "(collection c \<noteq> ''app.bsky.feed.post''
          \<and> interaction_rows d (record_uri (ev_did event) (collection c) (rkey c)) \<noteq> []
          \<longrightarrow> fst (processEvent e1 d event) = d)
       \<and> (collection c = ''app.bsky.feed.post''
          \<and> interaction_rows d (record_uri (ev_did event) (collection c) (rkey c)) \<noteq> []
          \<and> interaction_rows d (record_uri (ev_did event) (collection c) (rkey c) @ ''#quote'')
              \<noteq> []
          \<longrightarrow> fst (processEvent e1 d event) = d)
       \<and> fst (processEvent e2 (fst (processEvent e1 d event)) event) = fst (processEvent e1 d event)
       \<and> (\<forall>k. interaction_rows (applied_twice e1 e2 d event) k = interaction_rows d k
              \<or> (interaction_rows d k = []
                 \<and> length (interaction_rows (applied_twice e1 e2 d event) k) = 1))
       \<and> (\<forall>ty. counter_total ty (applied_twice e1 e2 d event) + length (type_rows ty d)
                = counter_total ty d + length (type_rows ty (applied_twice e1 e2 d event)))
       \<and> (\<forall>u post.
             collection c = ''app.bsky.feed.like''
             \<and> local_subject (subject_uri (commit_record c)) = Inr (Some u)
             \<and> single (posts_by_uri d u) = Some post
             \<and> interaction_rows d (record_uri (ev_did event) (collection c) (rkey c)) = []
             \<longrightarrow> federated_interactions (applied_twice e1 e2 d event)
                   = federated_interactions d @ [like_row (ev_did event) (rkey c) (post_id post)]
                 \<and> map likes_count (posts (applied_twice e1 e2 d event))
                   = column_raised post_id likes_count (post_id post) (posts d))
       \<and> (\<forall>u post.
             collection c = ''app.bsky.feed.repost''
             \<and> local_subject (subject_uri (commit_record c)) = Inr (Some u)
             \<and> single (posts_by_uri d u) = Some post
             \<and> interaction_rows d (record_uri (ev_did event) (collection c) (rkey c)) = []
             \<longrightarrow> federated_interactions (applied_twice e1 e2 d event)
                   = federated_interactions d @ [repost_row (ev_did event) (rkey c) (post_id post)]
                 \<and> map reposts_count (posts (applied_twice e1 e2 d event))
                   = column_raised post_id reposts_count (post_id post) (posts d))
       \<and> (\<forall>u profile.
             collection c = ''app.bsky.graph.follow''
             \<and> follow_subject (commit_record c) = Some u
             \<and> single (profiles_by_did d u) = Some profile
             \<and> interaction_rows d (record_uri (ev_did event) (collection c) (rkey c)) = []
             \<longrightarrow> federated_interactions (applied_twice e1 e2 d event)
                   = federated_interactions d
                     @ [follow_row (ev_did event) (rkey c) (profile_id profile)]
                 \<and> map followers_count (profiles (applied_twice e1 e2 d event))
                   = column_raised profile_id followers_count (profile_id profile) (profiles d))
       \<and> (\<forall>u parent.
             collection c = ''app.bsky.feed.post''
             \<and> reply_parent_uri (commit_record c) = JString u \<and> str_includes u CANNECT_DOMAIN
             \<and> single (posts_by_uri d u) = Some parent
             \<and> interaction_rows d (record_uri (ev_did event) (collection c) (rkey c)) = []
             \<longrightarrow> interaction_rows (applied_twice e1 e2 d event)
                     (record_uri (ev_did event) (collection c) (rkey c))
                   = [reply_row (ev_did event) (commit_record c)
                        (record_uri (ev_did event) (collection c) (rkey c)) (post_id parent)]
                 \<and> map replies_count (posts (applied_twice e1 e2 d event))
                   = column_raised post_id replies_count (post_id parent) (posts d))
       \<and> (\<forall>u quoted.
             collection c = ''app.bsky.feed.post''
             \<and> (\<forall>n. reply_parent_uri (commit_record c) \<noteq> JNumber n)
             \<and> embed_record_uri (commit_record c) = JString u \<and> str_includes u CANNECT_DOMAIN
             \<and> single (posts_by_uri d u) = Some quoted
             \<and> interaction_rows d
                   (record_uri (ev_did event) (collection c) (rkey c) @ ''#quote'') = []
             \<longrightarrow> interaction_rows (applied_twice e1 e2 d event)
                     (record_uri (ev_did event) (collection c) (rkey c) @ ''#quote'')
                   = [quote_row (ev_did event) (commit_record c)
                        (record_uri (ev_did event) (collection c) (rkey c)) (post_id quoted)]
                 \<and> map quotes_count (posts (applied_twice e1 e2 d event))
                   = column_raised post_id quotes_count (post_id quoted) (posts d))
       \<and> (\<forall>k. collection c = ''app.bsky.feed.post''
             \<and> k \<noteq> record_uri (ev_did event) (collection c) (rkey c)
             \<and> k \<noteq> record_uri (ev_did event) (collection c) (rkey c) @ ''#quote''
             \<longrightarrow> interaction_rows (applied_twice e1 e2 d event) k = interaction_rows d k)"
proof -
  let ?a = "ev_did event" and ?k = "rkey c" and ?r = "commit_record c"
  have tw: "fst (processEvent e2 (fst (processEvent e1 d event)) event) = fst (processEvent e1 d event)"
    using assms(1,2) by (rule processEvent_twice)
  have at: "applied_twice e1 e2 d event = fst (processEvent e1 d event)"
    by (simp add: applied_twice_def tw)
  have ce: "create_effect d (fst (processEvent e1 d event))"
    using assms(1,2) by (rule processEvent_effect)
  have u: "unique_ids d" using assms(3,4) by (simp add: unique_ids_def)
  from ce u have kg: "keys_grow d (fst (processEvent e1 d event))"
    and pa: "paired d (fst (processEvent e1 d event))"
    by (simp_all add: create_effect_def)
  have c4: "\<forall>k. interaction_rows (fst (processEvent e1 d event)) k = interaction_rows d k
              \<or> (interaction_rows d k = []
                 \<and> length (interaction_rows (fst (processEvent e1 d event)) k) = 1)"
    using kg unfolding keys_grow_def by simp
  have c5: "\<forall>ty. counter_total ty (fst (processEvent e1 d event)) + length (type_rows ty d)
                = counter_total ty d + length (type_rows ty (fst (processEvent e1 d event)))"
    using pa unfolding paired_def by simp
  have like: "federated_interactions (fst (processEvent e1 d event))
                   = federated_interactions d @ [like_row ?a ?k (post_id post)]
                 \<and> map likes_count (posts (fst (processEvent e1 d event)))
                   = column_raised post_id likes_count (post_id post) (posts d)"
    if "collection c = ''app.bsky.feed.like''"
      "local_subject (subject_uri ?r) = Inr (Some u)" "single (posts_by_uri d u) = Some post"
      "interaction_rows d (record_uri ?a (collection c) ?k) = []" for u post
  proof -
    have fresh: "interaction_rows d (like_uri ?a ?k) = []"
      using that(1,4) by (simp add: record_uri_keys)
    have pe: "processEvent e1 d event = handleLikeEvent e1 d ?a ''create'' ?r ?k"
      using assms(1,2) that(1) by (simp add: processEvent_def)
    show ?thesis
      unfolding pe using like_applies[OF that(2,3) fresh, of e1] by simp
  qed
  have repost: "federated_interactions (fst (processEvent e1 d event))
                   = federated_interactions d @ [repost_row ?a ?k (post_id post)]
                 \<and> map reposts_count (posts (fst (processEvent e1 d event)))
                   = column_raised post_id reposts_count (post_id post) (posts d)"
    if "collection c = ''app.bsky.feed.repost''"
      "local_subject (subject_uri ?r) = Inr (Some u)" "single (posts_by_uri d u) = Some post"
      "interaction_rows d (record_uri ?a (collection c) ?k) = []" for u post
  proof -
    have fresh: "interaction_rows d (repost_uri ?a ?k) = []"
      using that(1,4) by (simp add: record_uri_keys)
    have pe: "processEvent e1 d event = handleRepostEvent e1 d ?a ''create'' ?r ?k"
      using assms(1,2) that(1) by (simp add: processEvent_def)
    show ?thesis
      unfolding pe using repost_applies[OF that(2,3) fresh, of e1] by simp
  qed
  have follow: "federated_interactions (fst (processEvent e1 d event))
                   = federated_interactions d @ [follow_row ?a ?k (profile_id profile)]
                 \<and> map followers_count (profiles (fst (processEvent e1 d event)))
                   = column_raised profile_id followers_count (profile_id profile) (profiles d)"
    if "collection c = ''app.bsky.graph.follow''"
      "follow_subject ?r = Some u" "single (profiles_by_did d u) = Some profile"
      "interaction_rows d (record_uri ?a (collection c) ?k) = []" for u profile
  proof -
    have fresh: "interaction_rows d (follow_uri ?a ?k) = []"
      using that(1,4) by (simp add: record_uri_keys)
    have pe: "processEvent e1 d event = handleFollowEvent e1 d ?a ''create'' ?r ?k"
      using assms(1,2) that(1) by (simp add: processEvent_def)
    show ?thesis
      unfolding pe using follow_applies[OF that(2,3) fresh, of e1] by simp
  qed
  have pe_post: "processEvent e1 d event = handlePostEvent e1 d ?a ''create'' ?r ?k"
    if "collection c = ''app.bsky.feed.post''"
    using assms(1,2) that by (simp add: processEvent_def)
  have reply: "interaction_rows (fst (processEvent e1 d event)) (record_uri ?a (collection c) ?k)
                   = [reply_row ?a ?r (record_uri ?a (collection c) ?k) (post_id parent)]
                 \<and> map replies_count (posts (fst (processEvent e1 d event)))
                   = column_raised post_id replies_count (post_id parent) (posts d)"
    if "collection c = ''app.bsky.feed.post''"
      "reply_parent_uri ?r = JString u" "str_includes u CANNECT_DOMAIN"
      "single (posts_by_uri d u) = Some parent"
      "interaction_rows d (record_uri ?a (collection c) ?k) = []" for u parent
  proof -
    have key: "record_uri ?a (collection c) ?k = post_uri ?a ?k"
      using that(1) by (simp add: record_uri_keys)
    have fresh: "interaction_rows d (post_uri ?a ?k) = []" using that(5) key by simp
    show ?thesis
      unfolding pe_post[OF that(1)] key
      using reply_applies[OF that(2,3,4) fresh, of e1] by simp
  qed
  have quote: "interaction_rows (fst (processEvent e1 d event))
                     (record_uri ?a (collection c) ?k @ ''#quote'')
                   = [quote_row ?a ?r (record_uri ?a (collection c) ?k) (post_id quoted)]
                 \<and> map quotes_count (posts (fst (processEvent e1 d event)))
                   = column_raised post_id quotes_count (post_id quoted) (posts d)"
    if "collection c = ''app.bsky.feed.post''"
      "\<forall>n. reply_parent_uri ?r \<noteq> JNumber n"
      "embed_record_uri ?r = JString u" "str_includes u CANNECT_DOMAIN"
      "single (posts_by_uri d u) = Some quoted"
      "interaction_rows d (record_uri ?a (collection c) ?k @ ''#quote'') = []" for u quoted
  proof -
    have key: "record_uri ?a (collection c) ?k = post_uri ?a ?k"
      using that(1) by (simp add: record_uri_keys)
    have fresh: "interaction_rows d (post_uri ?a ?k @ ''#quote'') = []" using that(6) key by simp
    show ?thesis
      unfolding pe_post[OF that(1)] key
      using quote_applies[OF that(2,3,4,5) fresh, of e1] by simp
  qed
  have others: "interaction_rows (fst (processEvent e1 d event)) k = interaction_rows d k"
    if "collection c = ''app.bsky.feed.post''"
      "k \<noteq> record_uri ?a (collection c) ?k"
      "k \<noteq> record_uri ?a (collection c) ?k @ ''#quote''" for k
  proof -
    have key: "record_uri ?a (collection c) ?k = post_uri ?a ?k"
      using that(1) by (simp add: record_uri_keys)
    show ?thesis
      unfolding pe_post[OF that(1)]
      using post_event_other_keys[of k ?a ?k e1 d ?r] that(2,3) key by simp
  qed
  show ?thesis
    unfolding at
    apply (intro conjI)
    using processEvent_stored[OF assms(1,2), of d e1] apply blast
    using processEvent_stored_post[OF assms(1,2), of d e1] apply blast
    using tw apply blast
    using c4 apply blast
    using c5 apply blast
    using like apply blast
    using repost apply blast
    using follow apply blast
    using reply apply blast
    using quote apply blast
    using others apply blast
    done
qed

lemma like_create_once:
  "processEvent env0 db0 like_create =
     (db0\<lparr>posts := [post1\<lparr>likes_count := 2\<rparr>],
          federated_interactions :=
            [\<lparr>fi_post_id = Some ''p1'', fi_target_user_id = None,
              fi_interaction_type = ''like'', fi_actor_did = ''did:plc:bob'',
              fi_at_uri = ''at://did:plc:bob/app.bsky.feed.like/k1'', fi_metadata = None\<rparr>],
          notifications :=
            [\<lparr>n_user_id = ''u1'', n_actor_id = None, n_actor_did = ''did:plc:bob'',
              n_actor_handle = ''did:plc:bob'', n_actor_display_name = None,
              n_actor_avatar = None, n_reason = ''like'', n_post_id = Some ''p1'',
              n_is_external = True\<rparr>],
          profile_requests := [''did:plc:bob'']\<rparr>, Normal)"
  by (simp add: processEvent_def like_create_def like_create_commit_def like_record_def no_record_def
        handleLikeEvent_def CANNECT_DOMAIN_def posts_by_uri_def db0_def post1_def
        like_uri_def interaction_rows_def insert_interaction_def increment_post_likes_def
        createExternalNotification_def getBlueskyProfile_def env0_def)

lemma db0_ids: "distinct (map post_id (posts db0))" "distinct (map profile_id (profiles db0))"
  by (simp_all add: db0_def)

lemma db0_post1:
  "single (posts_by_uri db0 ''at://alice.cannect.space/app.bsky.feed.post/1'') = Some post1"
  by (simp add: posts_by_uri_def db0_def post1_def)

lemma db0_profile1: "single (profiles_by_did db0 ''did:plc:alice'') = Some profile1"
  by (simp add: profiles_by_did_def db0_def profile1_def)

lemma db0_no_rows: "interaction_rows db0 k = []"
  by (simp add: interaction_rows_def db0_def)

lemma local_post1: "str_includes ''at://alice.cannect.space/app.bsky.feed.post/1'' CANNECT_DOMAIN"
  by (simp add: CANNECT_DOMAIN_def)

theorem create_event_applied_once_witness:
  "ev_commit like_create = Some like_create_commit
   \<and> operation like_create_commit = ''create''
   \<and> distinct (map post_id (posts db0)) \<and> distinct (map profile_id (profiles db0))
   \<and> record_uri (ev_did like_create) (collection like_create_commit) (rkey like_create_commit)
       = ''at://did:plc:bob/app.bsky.feed.like/k1''
   \<and> interaction_rows db0 ''at://did:plc:bob/app.bsky.feed.like/k1'' = []
   \<and> fst (processEvent env0 (fst (processEvent env0 db0 like_create)) like_create)
       = fst (processEvent env0 db0 like_create)
   \<and> federated_interactions (applied_twice env0 env0 db0 like_create)
       = [\<lparr>fi_post_id = Some ''p1'', fi_target_user_id = None,
           fi_interaction_type = ''like'', fi_actor_did = ''did:plc:bob'',
           fi_at_uri = ''at://did:plc:bob/app.bsky.feed.like/k1'', fi_metadata = None\<rparr>]
   \<and> map likes_count (posts db0) = [1]
   \<and> map likes_count (posts (applied_twice env0 env0 db0 like_create)) = [2]
   \<and> ev_commit quote_reply = Some quote_reply_commit
   \<and> operation quote_reply_commit = ''create''
   \<and> interaction_rows (applied_twice env0 env0 db0 quote_reply)
         ''at://did:plc:bob/app.bsky.feed.post/k4''
       = [\<lparr>fi_post_id = Some ''p1'', fi_target_user_id = None,
           fi_interaction_type = ''reply'', fi_actor_did = ''did:plc:bob'',
           fi_at_uri = ''at://did:plc:bob/app.bsky.feed.post/k4'',
           fi_metadata = Some (Some ''hello'', None)\<rparr>]
   \<and> interaction_rows (applied_twice env0 env0 db0 quote_reply)
         ''at://did:plc:bob/app.bsky.feed.post/k4#quote''
       = [\<lparr>fi_post_id = Some ''p1'', fi_target_user_id = None,
           fi_interaction_type = ''quote'', fi_actor_did = ''did:plc:bob'',
           fi_at_uri = ''at://did:plc:bob/app.bsky.feed.post/k4#quote'',
           fi_metadata = Some (Some ''hello'', None)\<rparr>]
   \<and> map replies_count (posts (applied_twice env0 env0 db0 quote_reply)) = [1]
   \<and> map quotes_count (posts (applied_twice env0 env0 db0 quote_reply)) = [1]
   \<and> ev_commit follow_create = Some follow_create_commit
   \<and> operation follow_create_commit = ''create''
   \<and> federated_interactions (applied_twice env0 env0 db0 follow_create)
       = [\<lparr>fi_post_id = None, fi_target_user_id = Some ''u1'',
           fi_interaction_type = ''follow'', fi_actor_did = ''did:plc:bob'',
           fi_at_uri = ''at://did:plc:bob/app.bsky.graph.follow/k5'', fi_metadata = None\<rparr>]
   \<and> map followers_count (profiles (applied_twice env0 env0 db0 follow_create)) = [1]"
proof -
  have h1: "ev_commit like_create = Some like_create_commit"
    by (simp add: like_create_def like_create_commit_def)
  have h2: "operation like_create_commit = ''create''"
    by (simp add: like_create_commit_def)
  have key: "record_uri (ev_did like_create) (collection like_create_commit)
               (rkey like_create_commit) = ''at://did:plc:bob/app.bsky.feed.like/k1''"
    by (simp add: record_uri_def like_create_def like_create_commit_def)
  have l1: "collection like_create_commit = ''app.bsky.feed.like''"
    by (simp add: like_create_commit_def)
  have l2: "local_subject (subject_uri (commit_record like_create_commit))
              = Inr (Some ''at://alice.cannect.space/app.bsky.feed.post/1'')"
    by (simp add: like_create_commit_def like_record_def no_record_def CANNECT_DOMAIN_def)
  note like = create_event_applied_once[OF h1 h2 db0_ids, of env0 env0]
  have once: "fst (processEvent env0 (fst (processEvent env0 db0 like_create)) like_create)
       = fst (processEvent env0 db0 like_create)"
    by (rule like[THEN conjunct2, THEN conjunct2, THEN conjunct1, rule_format])
  have stored: "federated_interactions (applied_twice env0 env0 db0 like_create)
           = federated_interactions db0
             @ [like_row (ev_did like_create) (rkey like_create_commit) (post_id post1)]
         \<and> map likes_count (posts (applied_twice env0 env0 db0 like_create))
           = column_raised post_id likes_count (post_id post1) (posts db0)"
    by (rule like[THEN conjunct2, THEN conjunct2, THEN conjunct2, THEN conjunct2, THEN conjunct2, THEN conjunct1, rule_format,
          where u = "''at://alice.cannect.space/app.bsky.feed.post/1''"])
       (simp add: l1 l2 db0_post1 db0_no_rows)
  have like_res: "federated_interactions (applied_twice env0 env0 db0 like_create)
       = [\<lparr>fi_post_id = Some ''p1'', fi_target_user_id = None,
           fi_interaction_type = ''like'', fi_actor_did = ''did:plc:bob'',
           fi_at_uri = ''at://did:plc:bob/app.bsky.feed.like/k1'', fi_metadata = None\<rparr>]"
      "map likes_count (posts (applied_twice env0 env0 db0 like_create)) = [2]"
    using stored
    by (simp_all add: like_row_def like_uri_def like_create_def like_create_commit_def
          post1_def db0_def column_raised_def)
  have p1: "ev_commit quote_reply = Some quote_reply_commit" by (simp add: quote_reply_def)
  have p2: "operation quote_reply_commit = ''create''" by (simp add: quote_reply_commit_def)
  have p3: "collection quote_reply_commit = ''app.bsky.feed.post''"
    by (simp add: quote_reply_commit_def)
  have p4: "reply_parent_uri (commit_record quote_reply_commit)
              = JString ''at://alice.cannect.space/app.bsky.feed.post/1''"
    "embed_record_uri (commit_record quote_reply_commit)
              = JString ''at://alice.cannect.space/app.bsky.feed.post/1''"
    "\<forall>n. reply_parent_uri (commit_record quote_reply_commit) \<noteq> JNumber n"
    by (simp_all add: quote_reply_commit_def no_record_def)
  note post = create_event_applied_once[OF p1 p2 db0_ids, of env0 env0]
  have reply: "interaction_rows (applied_twice env0 env0 db0 quote_reply)
                 (record_uri (ev_did quote_reply) (collection quote_reply_commit)
                    (rkey quote_reply_commit))
               = [reply_row (ev_did quote_reply) (commit_record quote_reply_commit)
                    (record_uri (ev_did quote_reply) (collection quote_reply_commit)
                       (rkey quote_reply_commit)) (post_id post1)]
         \<and> map replies_count (posts (applied_twice env0 env0 db0 quote_reply))
               = column_raised post_id replies_count (post_id post1) (posts db0)"
    by (rule post[THEN conjunct2, THEN conjunct2, THEN conjunct2, THEN conjunct2, THEN conjunct2, THEN conjunct2, THEN conjunct2, THEN conjunct2, THEN conjunct1, rule_format,
          where u = "''at://alice.cannect.space/app.bsky.feed.post/1''"])
       (simp add: p3 p4 CANNECT_DOMAIN_def db0_post1 db0_no_rows)
  have quote: "interaction_rows (applied_twice env0 env0 db0 quote_reply)
                 (record_uri (ev_did quote_reply) (collection quote_reply_commit)
                    (rkey quote_reply_commit) @ ''#quote'')
               = [quote_row (ev_did quote_reply) (commit_record quote_reply_commit)
                    (record_uri (ev_did quote_reply) (collection quote_reply_commit)
                       (rkey quote_reply_commit)) (post_id post1)]
         \<and> map quotes_count (posts (applied_twice env0 env0 db0 quote_reply))
               = column_raised post_id quotes_count (post_id post1) (posts db0)"
    by (rule post[THEN conjunct2, THEN conjunct2, THEN conjunct2, THEN conjunct2, THEN conjunct2, THEN conjunct2, THEN conjunct2, THEN conjunct2, THEN conjunct2, THEN conjunct1, rule_format,
          where u = "''at://alice.cannect.space/app.bsky.feed.post/1''"])
       (simp add: p3 p4 CANNECT_DOMAIN_def db0_post1 db0_no_rows)
  have pkey: "record_uri (ev_did quote_reply) (collection quote_reply_commit)
                (rkey quote_reply_commit) = ''at://did:plc:bob/app.bsky.feed.post/k4''"
    by (simp add: record_uri_def quote_reply_def quote_reply_commit_def)
  have post_res: "interaction_rows (applied_twice env0 env0 db0 quote_reply)
         ''at://did:plc:bob/app.bsky.feed.post/k4''
       = [\<lparr>fi_post_id = Some ''p1'', fi_target_user_id = None,
           fi_interaction_type = ''reply'', fi_actor_did = ''did:plc:bob'',
           fi_at_uri = ''at://did:plc:bob/app.bsky.feed.post/k4'',
           fi_metadata = Some (Some ''hello'', None)\<rparr>]"
      "interaction_rows (applied_twice env0 env0 db0 quote_reply)
         ''at://did:plc:bob/app.bsky.feed.post/k4#quote''
       = [\<lparr>fi_post_id = Some ''p1'', fi_target_user_id = None,
           fi_interaction_type = ''quote'', fi_actor_did = ''did:plc:bob'',
           fi_at_uri = ''at://did:plc:bob/app.bsky.feed.post/k4#quote'',
           fi_metadata = Some (Some ''hello'', None)\<rparr>]"
      "map replies_count (posts (applied_twice env0 env0 db0 quote_reply)) = [1]"
      "map quotes_count (posts (applied_twice env0 env0 db0 quote_reply)) = [1]"
    using reply quote unfolding pkey
    by (simp_all add: reply_row_def quote_row_def quote_reply_def quote_reply_commit_def
          no_record_def post1_def db0_def column_raised_def)
  have f1: "ev_commit follow_create = Some follow_create_commit" by (simp add: follow_create_def)
  have f2: "operation follow_create_commit = ''create''" by (simp add: follow_create_commit_def)
  have f3: "collection follow_create_commit = ''app.bsky.graph.follow''"
    by (simp add: follow_create_commit_def)
  have f4: "follow_subject (commit_record follow_create_commit) = Some ''did:plc:alice''"
    by (simp add: follow_create_commit_def no_record_def)
  note follow = create_event_applied_once[OF f1 f2 db0_ids, of env0 env0]
  have followed: "federated_interactions (applied_twice env0 env0 db0 follow_create)
           = federated_interactions db0
             @ [follow_row (ev_did follow_create) (rkey follow_create_commit) (profile_id profile1)]
         \<and> map followers_count (profiles (applied_twice env0 env0 db0 follow_create))
           = column_raised profile_id followers_count (profile_id profile1) (profiles db0)"
    by (rule follow[THEN conjunct2, THEN conjunct2, THEN conjunct2, THEN conjunct2, THEN conjunct2, THEN conjunct2, THEN conjunct2, THEN conjunct1, rule_format,
          where u = "''did:plc:alice''"])
       (simp add: f3 f4 db0_profile1 db0_no_rows)
  have follow_res: "federated_interactions (applied_twice env0 env0 db0 follow_create)
       = [\<lparr>fi_post_id = None, fi_target_user_id = Some ''u1'',
           fi_interaction_type = ''follow'', fi_actor_did = ''did:plc:bob'',
           fi_at_uri = ''at://did:plc:bob/app.bsky.graph.follow/k5'', fi_metadata = None\<rparr>]"
      "map followers_count (profiles (applied_twice env0 env0 db0 follow_create)) = [1]"
    using followed
    by (simp_all add: follow_row_def follow_uri_def follow_create_def follow_create_commit_def
          profile1_def db0_def column_raised_def)
  have c0: "map likes_count (posts db0) = [1]" by (simp add: db0_def post1_def)
  show ?thesis
    using h1 h2 db0_ids key db0_no_rows once like_res c0 p1 p2 post_res f1 f2 follow_res
    by simp
qed

section \<open>The polling cycle\<close>

lemma advance_ge: "c \<le> advance c event"
  by (simp add: advance_def split: option.split)

lemma advance_max:
  "advance c event = (case ev_time_us event of None \<Rightarrow> c | Some t \<Rightarrow> max c t)"
  by (auto simp: advance_def max_def split: option.split)

lemma poll_step_cursor: "snd (snd (poll_step e (d, n, c) event)) = advance c event"
  by (simp add: poll_step_def split: sum.split bool.split prod.split completion.split)

lemma poll_step_effect_indep:
  "loop_effect (poll_step e (d, n, c) event) = loop_effect (poll_step e (d, n, c') event)"
  by (simp add: poll_step_def loop_effect_def
        split: sum.split bool.split prod.split completion.split)

lemma poll_loop_cursor:
  "snd (snd (poll_loop e events (d, n, c))) = foldl advance c events"
proof (induction events arbitrary: d n c)
  case Nil
  then show ?case by (simp add: poll_loop_def)
next
  case (Cons ev evs)
  obtain d1 n1 c1 where st: "poll_step e (d, n, c) ev = (d1, n1, c1)"
    by (cases "poll_step e (d, n, c) ev") auto
  have "c1 = advance c ev" using poll_step_cursor[of e d n c ev] st by simp
  then show ?case using Cons.IH[of d1 n1 c1] st by (simp add: poll_loop_def)
qed

lemma foldl_advance_ge: "c \<le> foldl advance c events"
proof (induction events arbitrary: c)
  case Nil
  then show ?case by simp
next
  case (Cons ev evs)
  have "c \<le> advance c ev" by (rule advance_ge)
  also have "\<dots> \<le> foldl advance (advance c ev) evs" by (rule Cons.IH)
  finally show ?case by simp
qed

lemma foldl_advance_Max:
  "foldl advance c events = Max (insert c {t. \<exists>ev \<in> set events. ev_time_us ev = Some t})"
proof (induction events arbitrary: c)
  case Nil
  then show ?case by simp
next
  case (Cons ev evs)
  let ?T = "{t. \<exists>x \<in> set evs. ev_time_us x = Some t}"
  have fin: "finite ?T"
  proof (rule finite_subset)
    show "?T \<subseteq> the ` ev_time_us ` set evs" by force
    show "finite (the ` ev_time_us ` set evs)" by simp
  qed
  show ?case
  proof (cases "ev_time_us ev")
    case None
    then have "{t. \<exists>x \<in> set (ev # evs). ev_time_us x = Some t} = ?T" by auto
    moreover have "advance c ev = c" using None by (simp add: advance_max)
    ultimately show ?thesis using Cons.IH[of c] by simp
  next
    case (Some t)
    then have eq: "{t. \<exists>x \<in> set (ev # evs). ev_time_us x = Some t} = insert t ?T" by auto
    have "advance c ev = max c t" using Some by (simp add: advance_max)
    then have "foldl advance c (ev # evs) = Max (insert (max c t) ?T)"
      using Cons.IH[of "max c t"] by simp
    also have "\<dots> = Max (insert c (insert t ?T))"
    proof (cases "?T = {}")
      case True
      then show ?thesis by simp
    next
      case False
      then show ?thesis using fin by (simp add: max.assoc)
    qed
    finally show ?thesis by (simp only: eq)
  qed
qed

lemma poll_loop_effect_indep:
  "loop_effect (poll_loop e events (d, n, c)) = loop_effect (poll_loop e events (d, n, c'))"
proof (induction events arbitrary: d n c c')
  case Nil
  then show ?case by (simp add: poll_loop_def loop_effect_def)
next
  case (Cons ev evs)
  obtain d1 n1 c1 where s1: "poll_step e (d, n, c) ev = (d1, n1, c1)"
    by (cases "poll_step e (d, n, c) ev") auto
  obtain d2 n2 c2 where s2: "poll_step e (d, n, c') ev = (d2, n2, c2)"
    by (cases "poll_step e (d, n, c') ev") auto
  have "d1 = d2 \<and> n1 = n2"
    using poll_step_effect_indep[of e d n c ev c'] s1 s2 by (simp add: loop_effect_def)
  then show ?case using Cons.IH[of d1 n1 c1 c2] s1 s2 by (simp add: poll_loop_def)
qed

lemma poll_loop_append:
  "poll_loop e (xs @ ys) st = poll_loop e ys (poll_loop e xs st)"
  by (simp add: poll_loop_def)

lemma poll_loop_skip:
  assumes skip: "\<And>d n c. loop_effect (poll_step e (d, n, c) event) = (d, n)"
  shows "loop_effect (poll_loop e (xs @ event # ys) st) = loop_effect (poll_loop e (xs @ ys) st)"
proof -
  obtain d n c where 1: "poll_loop e xs st = (d, n, c)"
    by (cases "poll_loop e xs st") auto
  obtain d' n' c' where 2: "poll_step e (d, n, c) event = (d', n', c')"
    by (cases "poll_step e (d, n, c) event") auto
  have "d' = d \<and> n' = n" using skip[of d n c] 2 by (simp add: loop_effect_def)
  then have "poll_loop e (event # ys) (d, n, c) = poll_loop e ys (d, n, c')"
    using 2 by (simp add: poll_loop_def)
  then have "loop_effect (poll_loop e (event # ys) (d, n, c)) = loop_effect (poll_loop e ys (d, n, c))"
    using poll_loop_effect_indep[of e ys d n c' c] by simp
  then show ?thesis by (simp add: poll_loop_append 1)
qed

lemma start_cursor_ge: "stored_position d \<le> start_cursor e d"
  by (simp add: stored_position_def start_cursor_def split: option.split)

lemma cycle_failed_cursor:
  "cursor_time_us (jetstream_cursor (fst (cycle_failed e d err))) = cursor_time_us (jetstream_cursor d)"
  "last_error (jetstream_cursor (fst (cycle_failed e d err))) = Some err"
  "snd (cycle_failed e d err) = Failure err"
  by (simp_all add: cycle_failed_def)

lemma serve_success:
  assumes "req_method e \<noteq> ''OPTIONS''" and "cursor_error e = None"
    and "received (jetstream e (start_cursor e d)) = Inr events"
  shows "snd (serve e d) =
           Success (length events) (snd (loop_effect (poll_loop e events (d, 0, start_cursor e d))))
             (foldl advance (start_cursor e d) events) (int (end_ms e) - int (start_ms e))"
    and "cursor_time_us (jetstream_cursor (fst (serve e d)))
           = Some (foldl advance (start_cursor e d) events)"
    and "last_error (jetstream_cursor (fst (serve e d))) = None"
proof -
  obtain d1 n1 c1 where st: "poll_loop e events (d, 0, start_cursor e d) = (d1, n1, c1)"
    by (cases "poll_loop e events (d, 0, start_cursor e d)") auto
  have c1: "c1 = foldl advance (start_cursor e d) events"
    using poll_loop_cursor[of e events d 0 "start_cursor e d"] st by simp
  show "snd (serve e d) =
           Success (length events) (snd (loop_effect (poll_loop e events (d, 0, start_cursor e d))))
             (foldl advance (start_cursor e d) events) (int (end_ms e) - int (start_ms e))"
    using assms st c1 by (simp add: serve_def Let_def loop_effect_def)
  show "cursor_time_us (jetstream_cursor (fst (serve e d)))
           = Some (foldl advance (start_cursor e d) events)"
    using assms st c1 by (simp add: serve_def Let_def)
  show "last_error (jetstream_cursor (fst (serve e d))) = None"
    using assms st by (simp add: serve_def Let_def)
qed

lemma serve_cases:
  "(req_method e = ''OPTIONS'' \<and> serve e d = (d, Preflight))
   \<or> (req_method e \<noteq> ''OPTIONS'' \<and> (\<exists>err. serve e d = cycle_failed e d err))
   \<or> (req_method e \<noteq> ''OPTIONS'' \<and> cursor_error e = None
       \<and> (\<exists>events. received (jetstream e (start_cursor e d)) = Inr events))"
  by (cases "cursor_error e"; cases "received (jetstream e (start_cursor e d))")
     (auto simp: serve_def Let_def)

text \<open>
  Claim C5.  The stored cursor position never moves back over an invocation, whatever
  its outcome; and when the invocation fails with a cycle-level error, the position is
  the one stored before and the error is in \<^verbatim>\<open>last_error\<close>.
\<close>

theorem cursor_position_monotone:
  "stored_position d \<le> stored_position (fst (serve e d))
   \<and> (\<forall>err. snd (serve e d) = Failure err \<longrightarrow>
         cursor_time_us (jetstream_cursor (fst (serve e d))) = cursor_time_us (jetstream_cursor d)
         \<and> last_error (jetstream_cursor (fst (serve e d))) = Some err)"
proof -
  from serve_cases[of e d] show ?thesis
  proof (elim disjE conjE exE)
    assume "serve e d = (d, Preflight)"
    then show ?thesis by simp
  next
    fix err assume "serve e d = cycle_failed e d err"
    then show ?thesis by (simp add: cycle_failed_cursor stored_position_def)
  next
    fix events
    assume a: "req_method e \<noteq> ''OPTIONS''" "cursor_error e = None"
      "received (jetstream e (start_cursor e d)) = Inr events"
    have "stored_position d \<le> start_cursor e d" by (rule start_cursor_ge)
    also have "\<dots> \<le> foldl advance (start_cursor e d) events" by (rule foldl_advance_ge)
    finally have "stored_position d \<le> stored_position (fst (serve e d))"
      by (simp add: stored_position_def serve_success(2)[OF a])
    then show ?thesis by (simp add: serve_success(1)[OF a])
  qed
qed

lemma serve_bad_gateway:
  "serve env_bad_gateway db0 =
     cycle_failed env_bad_gateway db0 ''Error: Jetstream error: 502 Bad Gateway''"
  by (simp add: serve_def env_bad_gateway_def env0_def Let_def)

theorem cursor_position_monotone_witness:
  "snd (serve env_bad_gateway db0) = Failure ''Error: Jetstream error: 502 Bad Gateway''
   \<and> stored_position db0 \<le> stored_position (fst (serve env_bad_gateway db0))
   \<and> cursor_time_us (jetstream_cursor (fst (serve env_bad_gateway db0))) = Some 5
   \<and> last_error (jetstream_cursor (fst (serve env_bad_gateway db0)))
       = Some ''Error: Jetstream error: 502 Bad Gateway''"
proof -
  have f: "snd (serve env_bad_gateway db0) = Failure ''Error: Jetstream error: 502 Bad Gateway''"
    by (simp add: serve_bad_gateway cycle_failed_cursor)
  have c: "cursor_time_us (jetstream_cursor db0) = Some 5" by (simp add: db0_def)
  show ?thesis
    using cursor_position_monotone[of db0 env_bad_gateway] f c by simp
qed

text \<open>
  Claim C8.  When the Jetstream request ends in the abort of the timer, the cycle goes on
  with the empty batch, commits the cursor it started from with \<^verbatim>\<open>last_error\<close> null and
  answers with the success summary.  A response that is not OK, and an exception of any
  other name, end the cycle as a failure that leaves the position alone and records the
  error, rendered as \<^verbatim>\<open>String(error)\<close> renders it.
\<close>

theorem timeout_is_end_of_batch:
  assumes "req_method e \<noteq> ''OPTIONS''" and "cursor_error e = None"
  shows "(\<forall>msg. jetstream e (start_cursor e d) = FetchThrow ''AbortError'' msg \<longrightarrow>
            serve e d =
              (d\<lparr>jetstream_cursor :=
                   (jetstream_cursor d)\<lparr>cursor_time_us := Some (start_cursor e d),
                                          events_processed := 0, last_error := None,
                                          updated_at := end_ms e\<rparr>\<rparr>,
               Success 0 0 (start_cursor e d) (int (end_ms e) - int (start_ms e))))
       \<and> (\<forall>status statusText.
            jetstream e (start_cursor e d) = FetchNotOk status statusText \<longrightarrow>
            serve e d = cycle_failed e d (''Error: Jetstream error: '' @ status @ '' '' @ statusText))
       \<and> (\<forall>name msg.
            name \<noteq> ''AbortError'' \<and> jetstream e (start_cursor e d) = FetchThrow name msg \<longrightarrow>
            serve e d = cycle_failed e d (error_string name msg))"
  using assms by (simp add: serve_def Let_def poll_loop_def)

theorem timeout_is_end_of_batch_witness:
  "req_method env_timeout \<noteq> ''OPTIONS'' \<and> cursor_error env_timeout = None
   \<and> jetstream env_timeout (start_cursor env_timeout db0)
       = FetchThrow ''AbortError'' ''The signal has been aborted''
   \<and> serve env_timeout db0 =
       (db0\<lparr>jetstream_cursor := \<lparr>cursor_time_us = Some 5, events_processed = 0,
                                  last_error = None, updated_at = 130\<rparr>\<rparr>,
        Success 0 0 5 30)
   \<and> jetstream env_bad_gateway (start_cursor env_bad_gateway db0)
       = FetchNotOk ''502'' ''Bad Gateway''
   \<and> snd (serve env_bad_gateway db0) = Failure ''Error: Jetstream error: 502 Bad Gateway''
   \<and> jetstream env_refused (start_cursor env_refused db0)
       = FetchThrow ''TypeError'' ''error sending request''
   \<and> snd (serve env_refused db0) = Failure ''TypeError: error sending request''
   \<and> last_error (jetstream_cursor (fst (serve env_refused db0)))
       = Some ''TypeError: error sending request''
   \<and> jetstream env_bare_error (start_cursor env_bare_error db0) = FetchThrow ''Error'' []
   \<and> snd (serve env_bare_error db0) = Failure ''Error''"
proof -
  have g1: "req_method env_bad_gateway \<noteq> ''OPTIONS''"
    by (simp add: env_bad_gateway_def env0_def)
  have g2: "cursor_error env_bad_gateway = None" by (simp add: env_bad_gateway_def env0_def)
  have g3: "jetstream env_bad_gateway (start_cursor env_bad_gateway db0)
       = FetchNotOk ''502'' ''Bad Gateway''"
    by (simp add: env_bad_gateway_def)
  have g: "snd (serve env_bad_gateway db0) = Failure ''Error: Jetstream error: 502 Bad Gateway''"
    using timeout_is_end_of_batch[OF g1 g2, of db0] g3 by (simp add: cycle_failed_cursor)
  have r1: "req_method env_refused \<noteq> ''OPTIONS''" by (simp add: env_refused_def env0_def)
  have r2: "cursor_error env_refused = None" by (simp add: env_refused_def env0_def)
  have r3: "jetstream env_refused (start_cursor env_refused db0)
       = FetchThrow ''TypeError'' ''error sending request''"
    by (simp add: env_refused_def)
  have r: "snd (serve env_refused db0) = Failure ''TypeError: error sending request''"
      "last_error (jetstream_cursor (fst (serve env_refused db0)))
         = Some ''TypeError: error sending request''"
    using timeout_is_end_of_batch[OF r1 r2, of db0] r3
    by (simp_all add: error_string_def cycle_failed_cursor)
  have b1: "req_method env_bare_error \<noteq> ''OPTIONS''" by (simp add: env_bare_error_def env0_def)
  have b2: "cursor_error env_bare_error = None" by (simp add: env_bare_error_def env0_def)
  have b3: "jetstream env_bare_error (start_cursor env_bare_error db0) = FetchThrow ''Error'' []"
    by (simp add: env_bare_error_def)
  have b: "snd (serve env_bare_error db0) = Failure ''Error''"
    using timeout_is_end_of_batch[OF b1 b2, of db0] b3
    by (simp add: error_string_def cycle_failed_cursor)
  have h1: "req_method env_timeout \<noteq> ''OPTIONS''" by (simp add: env_timeout_def env0_def)
  have h2: "cursor_error env_timeout = None" by (simp add: env_timeout_def env0_def)
  have h3: "jetstream env_timeout (start_cursor env_timeout db0)
       = FetchThrow ''AbortError'' ''The signal has been aborted''"
    by (simp add: env_timeout_def)
  have s: "start_cursor env_timeout db0 = 5" by (simp add: start_cursor_def db0_def)
  have t: "end_ms env_timeout = 130" "start_ms env_timeout = 100"
    by (simp_all add: env_timeout_def env0_def)
  have "serve env_timeout db0 =
       (db0\<lparr>jetstream_cursor :=
               (jetstream_cursor db0)\<lparr>cursor_time_us := Some 5, events_processed := 0,
                                        last_error := None, updated_at := 130\<rparr>\<rparr>,
        Success 0 0 5 30)"
    using timeout_is_end_of_batch[OF h1 h2, of db0] h3 by (simp add: s t)
  then show ?thesis using h1 h2 h3 g3 g r3 r b3 b by (simp add: db0_def)
qed

lemma poll_step_not_relevant:
  "isRelevantToCannect event \<noteq> Inr True \<Longrightarrow> loop_effect (poll_step e (d, n, c) event) = (d, n)"
  by (cases "isRelevantToCannect event") (auto simp: poll_step_def loop_effect_def)

lemma optional_includes_outside:
  "\<not> refers_local v \<Longrightarrow> optional_includes v \<noteq> Inr True"
  by (cases v) simp_all

lemma first_true_outside:
  "\<forall>c \<in> set cs. c \<noteq> Inr True \<Longrightarrow> \<not> rest \<Longrightarrow> first_true cs rest \<noteq> Inr True"
  by (induction cs rest rule: first_true.induct) auto

text \<open>
  Claim C6.  An event none of whose subject, reply-parent, reply-root and quoted-record
  URIs is a string containing the local domain, and which is not of the follow
  collection, is not accepted by the relevance filter; the batch that contains it leaves
  the database and the processed count as the batch without it does.
\<close>

theorem irrelevant_event_changes_nothing:
  assumes "\<not> refers_local (subject_uri (event_record event))"
    and "\<not> refers_local (reply_parent_uri (event_record event))"
    and "\<not> refers_local (reply_root_uri (event_record event))"
    and "\<not> refers_local (embed_record_uri (event_record event))"
    and "map_option collection (ev_commit event) \<noteq> Some ''app.bsky.graph.follow''"
  shows "isRelevantToCannect event \<noteq> Inr True
       \<and> loop_effect (poll_loop e (before @ event # after) (d, n, c))
           = loop_effect (poll_loop e (before @ after) (d, n, c))"
proof -
  have nr: "isRelevantToCannect event \<noteq> Inr True"
  proof (cases "ev_commit event")
    case None
    then show ?thesis by (simp add: isRelevantToCannect_def)
  next
    case (Some cm)
    show ?thesis
    proof (cases "commit_record cm")
      case None
      then show ?thesis using Some by (simp add: isRelevantToCannect_def)
    next
      case (Some r)
      have er: "event_record event = Some r"
        using \<open>ev_commit event = Some cm\<close> Some by (simp add: event_record_def)
      have "first_true
                 [optional_includes (subject_uri (Some r)),
                  optional_includes (rec_reply_parent_uri r),
                  optional_includes (rec_reply_root_uri r),
                  optional_includes (rec_embed_record_uri r)]
                 (collection cm = ''app.bsky.graph.follow'') \<noteq> Inr True"
      proof (rule first_true_outside)
        show "\<forall>c\<in>set [optional_includes (subject_uri (Some r)),
                  optional_includes (rec_reply_parent_uri r),
                  optional_includes (rec_reply_root_uri r),
                  optional_includes (rec_embed_record_uri r)]. c \<noteq> Inr True"
          using assms(1-4) unfolding er
          by (simp add: optional_includes_outside del: subject_uri.simps)
        show "collection cm \<noteq> ''app.bsky.graph.follow''"
          using assms(5) \<open>ev_commit event = Some cm\<close> by simp
      qed
      then show ?thesis
        using \<open>ev_commit event = Some cm\<close> Some by (simp add: isRelevantToCannect_def)
    qed
  qed
  have "loop_effect (poll_loop e (before @ event # after) (d, n, c))
           = loop_effect (poll_loop e (before @ after) (d, n, c))"
    by (rule poll_loop_skip) (rule poll_step_not_relevant[OF nr])
  with nr show ?thesis by simp
qed

theorem irrelevant_event_changes_nothing_witness:
  "\<not> refers_local (subject_uri (event_record foreign_like))
   \<and> \<not> refers_local (reply_parent_uri (event_record foreign_like))
   \<and> \<not> refers_local (reply_root_uri (event_record foreign_like))
   \<and> \<not> refers_local (embed_record_uri (event_record foreign_like))
   \<and> map_option collection (ev_commit foreign_like) \<noteq> Some ''app.bsky.graph.follow''
   \<and> isRelevantToCannect foreign_like \<noteq> Inr True
   \<and> loop_effect (poll_loop env0 ([like_create] @ foreign_like # [like_delete]) (db0, 0, 5))
       = loop_effect (poll_loop env0 ([like_create] @ [like_delete]) (db0, 0, 5))"
proof -
  have r: "event_record foreign_like =
     Some (no_record\<lparr>rec_subject :=
                   Some (SubjectRef (JString ''at://carol.example.org/app.bsky.feed.post/9''))\<rparr>)"
    by (simp add: event_record_def foreign_like_def)
  have h1: "\<not> refers_local (subject_uri (event_record foreign_like))"
    by (simp add: r no_record_def CANNECT_DOMAIN_def)
  have h2: "\<not> refers_local (reply_parent_uri (event_record foreign_like))"
    by (simp add: r no_record_def)
  have h3: "\<not> refers_local (reply_root_uri (event_record foreign_like))"
    by (simp add: r no_record_def)
  have h4: "\<not> refers_local (embed_record_uri (event_record foreign_like))"
    by (simp add: r no_record_def)
  have h5: "map_option collection (ev_commit foreign_like) \<noteq> Some ''app.bsky.graph.follow''"
    by (simp add: foreign_like_def)
  show ?thesis
    using irrelevant_event_changes_nothing[OF h1 h2 h3 h4 h5, of env0 "[like_create]" "[like_delete]" db0 0 5]
      h1 h2 h3 h4 h5 by blast
qed

text \<open>
  Claim C10.  An event whose kind is not \<^verbatim>\<open>commit\<close>, or that has no commit, or whose
  commit has no record, is classified as not relevant, and the batch that contains it
  leaves the database and the processed count as the batch without it does.  A delete
  that arrives without a record payload is such an event: no interaction is removed and
  no counter changes for it.
\<close>

theorem event_without_record_is_discarded:
  assumes "ev_kind event \<noteq> ''commit'' \<or> event_record event = None"
  shows "isRelevantToCannect event = Inr False
       \<and> loop_effect (poll_loop e (before @ event # after) (d, n, c))
           = loop_effect (poll_loop e (before @ after) (d, n, c))"
proof -
  have nr: "isRelevantToCannect event = Inr False"
    using assms
    by (auto simp: isRelevantToCannect_def event_record_def split: option.split)
  have "loop_effect (poll_loop e (before @ event # after) (d, n, c))
           = loop_effect (poll_loop e (before @ after) (d, n, c))"
    by (rule poll_loop_skip) (rule poll_step_not_relevant, simp add: nr)
  with nr show ?thesis by simp
qed

lemma like_create_relevant: "isRelevantToCannect like_create = Inr True"
  by (simp add: isRelevantToCannect_def like_create_def like_create_commit_def like_record_def
        no_record_def CANNECT_DOMAIN_def)

lemma like_create_then_bare_delete:
  "loop_effect (poll_loop env0 [like_create] (db0, 0, 5))
     = (fst (processEvent env0 db0 like_create), 1)"
  by (simp add: poll_loop_def poll_step_def loop_effect_def like_create_once like_create_relevant)

theorem event_without_record_is_discarded_witness:
  "event_record bare_delete = None
   \<and> operation (the (ev_commit bare_delete)) = ''delete''
   \<and> isRelevantToCannect bare_delete = Inr False
   \<and> loop_effect (poll_loop env0 ([like_create] @ bare_delete # []) (db0, 0, 5))
       = (fst (processEvent env0 db0 like_create), 1)
   \<and> counter_total ''like'' (fst (processEvent env0 db0 like_create)) = 2"
proof -
  have h: "ev_kind bare_delete \<noteq> ''commit'' \<or> event_record bare_delete = None"
    by (simp add: bare_delete_def event_record_def)
  have o: "operation (the (ev_commit bare_delete)) = ''delete''"
    by (simp add: bare_delete_def)
  have c: "counter_total ''like'' (fst (processEvent env0 db0 like_create)) = 2"
    by (simp add: like_create_once counter_total_def)
  show ?thesis
    using event_without_record_is_discarded[OF h, of env0 "[like_create]" "[]" db0 0 5] o c
    by (simp add: like_create_then_bare_delete bare_delete_def event_record_def)
qed

lemma bad_reply_relevant: "isRelevantToCannect bad_reply = Inr True"
  by (simp add: isRelevantToCannect_def bad_reply_def no_record_def CANNECT_DOMAIN_def)

lemma foreign_like_not_relevant: "isRelevantToCannect foreign_like = Inr False"
  by (simp add: isRelevantToCannect_def foreign_like_def no_record_def CANNECT_DOMAIN_def)

lemma bad_reply_raises:
  "snd (processEvent env0 (fst (processEvent env0 db0 like_create)) bad_reply) = Throws type_error"
  by (simp add: like_create_once processEvent_def bad_reply_def no_record_def
        handlePostEvent_def Let_def CANNECT_DOMAIN_def split: sum.split)

lemma env0_batch:
  "received (jetstream env0 (start_cursor env0 db0)) = Inr [like_create, bad_reply, foreign_like]"
  by (simp add: env0_def)

text \<open>
  Claim C4 does not hold.  In this batch the like at position 10 is applied, the reply at
  position 20 is accepted by the filter and its processing raises, and the like at
  position 30 is not relevant.  The cycle reports success and commits position 30: not
  the position of the last applied event, and past the event that raised.
\<close>

theorem cursor_moves_past_failed_event:
  "received (jetstream env0 (start_cursor env0 db0)) = Inr [like_create, bad_reply, foreign_like]
   \<and> ev_time_us like_create = Some 10
   \<and> isRelevantToCannect like_create = Inr True
   \<and> snd (processEvent env0 db0 like_create) = Normal
   \<and> ev_time_us bad_reply = Some 20
   \<and> isRelevantToCannect bad_reply = Inr True
   \<and> snd (processEvent env0 (fst (processEvent env0 db0 like_create)) bad_reply)
       = Throws type_error
   \<and> isRelevantToCannect foreign_like = Inr False
   \<and> snd (serve env0 db0) = Success 3 1 30 30
   \<and> cursor_time_us (jetstream_cursor (fst (serve env0 db0))) = Some 30"
proof -
  have m: "req_method env0 \<noteq> ''OPTIONS''" "cursor_error env0 = None"
    by (simp_all add: env0_def)
  have s: "start_cursor env0 db0 = 5" by (simp add: start_cursor_def db0_def)
  have ms: "end_ms env0 = 130" "start_ms env0 = 100" by (simp_all add: env0_def)
  have t: "ev_time_us like_create = Some 10" "ev_time_us bad_reply = Some 20"
    "ev_time_us foreign_like = Some 30"
    by (simp_all add: like_create_def bad_reply_def foreign_like_def)
  have c: "foldl advance 5 [like_create, bad_reply, foreign_like] = 30"
    by (simp add: advance_def t)
  obtain d2 where d2: "processEvent env0 (fst (processEvent env0 db0 like_create)) bad_reply
                        = (d2, Throws type_error)"
    using bad_reply_raises
    by (cases "processEvent env0 (fst (processEvent env0 db0 like_create)) bad_reply") auto
  have n: "snd (loop_effect (poll_loop env0 [like_create, bad_reply, foreign_like] (db0, 0, 5))) = 1"
    by (simp add: poll_loop_def poll_step_def loop_effect_def like_create_relevant
          bad_reply_relevant foreign_like_not_relevant like_create_once[THEN arg_cong, of fst]
          like_create_once d2[unfolded like_create_once, simplified])
  have r: "snd (serve env0 db0) = Success 3 1 30 30"
    using serve_success(1)[OF m env0_batch] n c by (simp add: s ms)
  have k: "cursor_time_us (jetstream_cursor (fst (serve env0 db0))) = Some 30"
    using serve_success(2)[OF m env0_batch] c by (simp add: s)
  show ?thesis
    using env0_batch t like_create_relevant bad_reply_relevant bad_reply_raises
      foreign_like_not_relevant r k
    by (simp add: like_create_once)
qed

lemma event_times_finite: "finite {t. \<exists>ev \<in> set events. ev_time_us ev = Some t}"
proof (rule finite_subset)
  show "{t. \<exists>ev \<in> set events. ev_time_us ev = Some t} \<subseteq> the ` ev_time_us ` set events"
    by force
  show "finite (the ` ev_time_us ` set events)" by simp
qed

lemma poll_loop_handler_raises:
  assumes "isRelevantToCannect ev = Inr True" and "processEvent e d0 ev = (d1, Throws err)"
  shows "poll_loop e (ev # rest) (d0, n, c) = poll_loop e rest (d1, n, advance c ev)"
  using assms by (simp add: poll_loop_def poll_step_def)

lemma poll_loop_filter_raises:
  assumes "isRelevantToCannect ev = Inl err"
  shows "poll_loop e (ev # rest) (d0, n, c) = poll_loop e rest (d0, n, advance c ev)"
  using assms by (simp add: poll_loop_def poll_step_def)

text \<open>
  Claim C4, amended.  An event never makes the cycle fail.  When the handler raises on an
  event, the loop keeps the writes the handler made before the exception, leaves the
  processed count as it is, moves the cursor variable to the event's \<^verbatim>\<open>time_us\<close> when that
  is larger, and goes on with the rest of the batch; when the relevance filter raises, it
  does the same with the database as it was.  A cycle that gets its batch answers with
  the success summary, clears \<^verbatim>\<open>last_error\<close>, and commits the largest \<^verbatim>\<open>time_us\<close> among
  all events of the batch, or the position it started from when none is larger, whether
  or not processing an event raised.  So the committed cursor is at or past the position
  of every event of the batch, the events whose processing raised included.
\<close>

theorem committed_cursor_is_latest_event_time:
  assumes "req_method e \<noteq> ''OPTIONS''" and "cursor_error e = None"
    and "received (jetstream e (start_cursor e d)) = Inr events"
  shows "cursor_time_us (jetstream_cursor (fst (serve e d)))
           = Some (Max (insert (start_cursor e d) {t. \<exists>ev \<in> set events. ev_time_us ev = Some t}))
       \<and> snd (serve e d) =
           Success (length events)
             (snd (loop_effect (poll_loop e events (d, 0, start_cursor e d))))
             (Max (insert (start_cursor e d) {t. \<exists>ev \<in> set events. ev_time_us ev = Some t}))
             (int (end_ms e) - int (start_ms e))
       \<and> last_error (jetstream_cursor (fst (serve e d))) = None
       \<and> (\<forall>ev \<in> set events. \<forall>t. ev_time_us ev = Some t \<longrightarrow>
             t \<le> Max (insert (start_cursor e d) {t. \<exists>ev \<in> set events. ev_time_us ev = Some t}))
       \<and> (\<forall>ev rest d0 d1 n c err.
             isRelevantToCannect ev = Inr True \<and> processEvent e d0 ev = (d1, Throws err) \<longrightarrow>
             poll_loop e (ev # rest) (d0, n, c) = poll_loop e rest (d1, n, advance c ev))
       \<and> (\<forall>ev rest d0 n c err.
             isRelevantToCannect ev = Inl err \<longrightarrow>
             poll_loop e (ev # rest) (d0, n, c) = poll_loop e rest (d0, n, advance c ev))"
proof -
  let ?T = "{t. \<exists>ev \<in> set events. ev_time_us ev = Some t}"
  have 1: "cursor_time_us (jetstream_cursor (fst (serve e d)))
             = Some (Max (insert (start_cursor e d) ?T))"
    using serve_success(2)[OF assms] by (simp add: foldl_advance_Max)
  have 2: "snd (serve e d) =
           Success (length events)
             (snd (loop_effect (poll_loop e events (d, 0, start_cursor e d))))
             (Max (insert (start_cursor e d) ?T)) (int (end_ms e) - int (start_ms e))"
    using serve_success(1)[OF assms] by (simp add: foldl_advance_Max)
  have 3: "last_error (jetstream_cursor (fst (serve e d))) = None"
    by (rule serve_success(3)[OF assms])
  have 4: "\<forall>ev \<in> set events. \<forall>t. ev_time_us ev = Some t \<longrightarrow>
             t \<le> Max (insert (start_cursor e d) ?T)"
  proof (intro ballI allI impI)
    fix ev t assume "ev \<in> set events" "ev_time_us ev = Some t"
    then have "t \<in> insert (start_cursor e d) ?T" by auto
    moreover have "finite (insert (start_cursor e d) ?T)"
      using event_times_finite[of events] by simp
    ultimately show "t \<le> Max (insert (start_cursor e d) ?T)" by (rule Max_ge[rotated])
  qed
  have 5: "\<forall>ev rest d0 d1 n c err.
             isRelevantToCannect ev = Inr True \<and> processEvent e d0 ev = (d1, Throws err) \<longrightarrow>
             poll_loop e (ev # rest) (d0, n, c) = poll_loop e rest (d1, n, advance c ev)"
    by (auto intro: poll_loop_handler_raises)
  have 6: "\<forall>ev rest d0 n c err.
             isRelevantToCannect ev = Inl err \<longrightarrow>
             poll_loop e (ev # rest) (d0, n, c) = poll_loop e rest (d0, n, advance c ev)"
    by (auto intro: poll_loop_filter_raises)
  show ?thesis using 1 2 3 4 5 6 by (intro conjI)
qed

theorem committed_cursor_is_latest_event_time_witness:
  "req_method env0 \<noteq> ''OPTIONS'' \<and> cursor_error env0 = None
   \<and> received (jetstream env0 (start_cursor env0 db0)) = Inr [like_create, bad_reply, foreign_like]
   \<and> cursor_time_us (jetstream_cursor (fst (serve env0 db0))) = Some 30
   \<and> snd (serve env0 db0) = Success 3 1 30 30
   \<and> last_error (jetstream_cursor (fst (serve env0 db0))) = None
   \<and> ev_time_us bad_reply = Some 20
   \<and> isRelevantToCannect bad_reply = Inr True
   \<and> snd (processEvent env0 (fst (processEvent env0 db0 like_create)) bad_reply)
       = Throws type_error
   \<and> poll_loop env0 [bad_reply, foreign_like] (fst (processEvent env0 db0 like_create), 1, 10)
       = poll_loop env0 [foreign_like]
           (fst (processEvent env0 (fst (processEvent env0 db0 like_create)) bad_reply), 1, 20)"
proof -
  have h1: "req_method env0 \<noteq> ''OPTIONS''" by (simp add: env0_def)
  have h2: "cursor_error env0 = None" by (simp add: env0_def)
  note main = committed_cursor_is_latest_event_time[OF h1 h2 env0_batch]
  have s: "start_cursor env0 db0 = 5" by (simp add: start_cursor_def db0_def)
  have t: "ev_time_us like_create = Some 10" "ev_time_us bad_reply = Some 20"
    "ev_time_us foreign_like = Some 30"
    by (simp_all add: like_create_def bad_reply_def foreign_like_def)
  have T: "{t. \<exists>ev \<in> set [like_create, bad_reply, foreign_like]. ev_time_us ev = Some t}
             = {10, 20, 30}"
    using t by auto
  have m: "Max (insert (start_cursor env0 db0)
             {t. \<exists>ev \<in> set [like_create, bad_reply, foreign_like]. ev_time_us ev = Some t}) = 30"
    by (simp only: T s) simp
  obtain d2 where d2: "processEvent env0 (fst (processEvent env0 db0 like_create)) bad_reply
                        = (d2, Throws type_error)"
    using bad_reply_raises
    by (cases "processEvent env0 (fst (processEvent env0 db0 like_create)) bad_reply") auto
  have n: "snd (loop_effect (poll_loop env0 [like_create, bad_reply, foreign_like] (db0, 0, 5))) = 1"
    by (simp add: poll_loop_def poll_step_def loop_effect_def like_create_relevant
          bad_reply_relevant foreign_like_not_relevant like_create_once[THEN arg_cong, of fst]
          like_create_once d2[unfolded like_create_once, simplified])
  have ms: "end_ms env0 = 130" "start_ms env0 = 100" by (simp_all add: env0_def)
  have c1: "cursor_time_us (jetstream_cursor (fst (serve env0 db0))) = Some 30"
    using main m by simp
  have c2: "snd (serve env0 db0) = Success 3 1 30 30"
    using main m n by (simp add: s ms)
  have c3: "last_error (jetstream_cursor (fst (serve env0 db0))) = None"
    using main by simp
  have a: "advance 10 bad_reply = 20" by (simp add: advance_def t)
  have c5: "poll_loop env0 [bad_reply, foreign_like]
              (fst (processEvent env0 db0 like_create), 1, 10)
            = poll_loop env0 [foreign_like] (d2, 1, 20)"
    using main bad_reply_relevant d2 a by metis
  show ?thesis
    using h1 h2 env0_batch c1 c2 c3 t(2) bad_reply_relevant bad_reply_raises c5 d2 by simp
qed

section \<open>Retractions\<close>

lemma filter_none_rest: "filter P xs = [] \<Longrightarrow> filter (\<lambda>x. \<not> P x) xs = xs"
  by (induction xs) (auto split: if_splits)

lemma delete_interactions_absent:
  "interaction_rows d k = [] \<Longrightarrow> delete_interactions k d = d"
  by (simp add: interaction_rows_def delete_interactions_def filter_none_rest)

lemma sum_drop_le:
  fixes g :: "'a \<Rightarrow> nat"
  assumes "\<And>p. g (h p) \<le> g p"
  shows "sum_list (map g (map (\<lambda>p. if key p = t then h p else p) xs)) \<le> sum_list (map g xs)"
proof (induction xs)
  case Nil
  then show ?case by simp
next
  case (Cons x xs)
  then show ?case using assms[of x] by auto
qed

lemma sum_drop_one:
  fixes g :: "'a \<Rightarrow> nat"
  assumes h: "\<And>p. g p \<le> g (h p) + 1"
  shows "distinct (map key xs) \<Longrightarrow>
     sum_list (map g xs) \<le> sum_list (map g (map (\<lambda>p. if key p = t then h p else p) xs)) + 1"
proof (induction xs)
  case Nil
  then show ?case by simp
next
  case (Cons y ys)
  show ?case
  proof (cases "key y = t")
    case True
    then have "\<forall>p \<in> set ys. key p \<noteq> t"
      using Cons.prems by (auto simp: image_iff)
    then have "map (\<lambda>p. if key p = t then h p else p) ys = ys"
      by (induction ys) auto
    then show ?thesis using True h[of y] by simp
  next
    case False
    then show ?thesis using Cons by simp
  qed
qed

text \<open>A counter procedure that lowers no total and lowers each total by at most one.\<close>

lemma lowers_likes:
  "counter_total ty (decrement_post_likes t d) \<le> counter_total ty d"
  "unique_ids d \<Longrightarrow> counter_total ty d \<le> counter_total ty (decrement_post_likes t d) + 1"
proof -
  have 1: "sum_list (map g (map (\<lambda>p. if post_id p = t
              then p\<lparr>likes_count := likes_count p - 1\<rparr> else p) (posts d)))
           \<le> sum_list (map g (posts d))"
    if "\<And>p. g (p\<lparr>likes_count := likes_count p - 1\<rparr>) \<le> g p" for g :: "post_row \<Rightarrow> nat"
    by (rule sum_drop_le) (rule that)
  show "counter_total ty (decrement_post_likes t d) \<le> counter_total ty d"
    by (simp add: counter_total_def decrement_post_likes_def 1 del: map_map)
  assume "unique_ids d"
  then have dist: "distinct (map post_id (posts d))" by (simp add: unique_ids_def)
  have 2: "sum_list (map g (posts d))
           \<le> Suc (sum_list (map g (map (\<lambda>p. if post_id p = t
              then p\<lparr>likes_count := likes_count p - 1\<rparr> else p) (posts d))))"
    if "\<And>p. g p \<le> g (p\<lparr>likes_count := likes_count p - 1\<rparr>) + 1" for g :: "post_row \<Rightarrow> nat"
    using sum_drop_one[of g "\<lambda>p. p\<lparr>likes_count := likes_count p - 1\<rparr>" post_id "posts d" t, OF that dist]
    by simp
  show "counter_total ty d \<le> counter_total ty (decrement_post_likes t d) + 1"
    by (simp add: counter_total_def decrement_post_likes_def 2 del: map_map)
qed

lemma lowers_reposts:
  "counter_total ty (decrement_post_reposts t d) \<le> counter_total ty d"
  "unique_ids d \<Longrightarrow> counter_total ty d \<le> counter_total ty (decrement_post_reposts t d) + 1"
proof -
  have 1: "sum_list (map g (map (\<lambda>p. if post_id p = t
              then p\<lparr>reposts_count := reposts_count p - 1\<rparr> else p) (posts d)))
           \<le> sum_list (map g (posts d))"
    if "\<And>p. g (p\<lparr>reposts_count := reposts_count p - 1\<rparr>) \<le> g p" for g :: "post_row \<Rightarrow> nat"
    by (rule sum_drop_le) (rule that)
  show "counter_total ty (decrement_post_reposts t d) \<le> counter_total ty d"
    by (simp add: counter_total_def decrement_post_reposts_def 1 del: map_map)
  assume "unique_ids d"
  then have dist: "distinct (map post_id (posts d))" by (simp add: unique_ids_def)
  have 2: "sum_list (map g (posts d))
           \<le> Suc (sum_list (map g (map (\<lambda>p. if post_id p = t
              then p\<lparr>reposts_count := reposts_count p - 1\<rparr> else p) (posts d))))"
    if "\<And>p. g p \<le> g (p\<lparr>reposts_count := reposts_count p - 1\<rparr>) + 1" for g :: "post_row \<Rightarrow> nat"
    using sum_drop_one[of g "\<lambda>p. p\<lparr>reposts_count := reposts_count p - 1\<rparr>" post_id "posts d" t, OF that dist]
    by simp
  show "counter_total ty d \<le> counter_total ty (decrement_post_reposts t d) + 1"
    by (simp add: counter_total_def decrement_post_reposts_def 2 del: map_map)
qed

lemma lowers_followers:
  "counter_total ty (decrement_profile_followers t d) \<le> counter_total ty d"
  "unique_ids d \<Longrightarrow> counter_total ty d \<le> counter_total ty (decrement_profile_followers t d) + 1"
proof -
  have 1: "sum_list (map g (map (\<lambda>p. if profile_id p = t
              then p\<lparr>followers_count := followers_count p - 1\<rparr> else p) (profiles d)))
           \<le> sum_list (map g (profiles d))"
    if "\<And>p. g (p\<lparr>followers_count := followers_count p - 1\<rparr>) \<le> g p"
    for g :: "profile_row \<Rightarrow> nat"
    by (rule sum_drop_le) (rule that)
  show "counter_total ty (decrement_profile_followers t d) \<le> counter_total ty d"
    by (simp add: counter_total_def decrement_profile_followers_def 1 del: map_map)
  assume "unique_ids d"
  then have dist: "distinct (map profile_id (profiles d))" by (simp add: unique_ids_def)
  have 2: "sum_list (map g (profiles d))
           \<le> Suc (sum_list (map g (map (\<lambda>p. if profile_id p = t
              then p\<lparr>followers_count := followers_count p - 1\<rparr> else p) (profiles d))))"
    if "\<And>p. g p \<le> g (p\<lparr>followers_count := followers_count p - 1\<rparr>) + 1"
    for g :: "profile_row \<Rightarrow> nat"
    using sum_drop_one[of g "\<lambda>p. p\<lparr>followers_count := followers_count p - 1\<rparr>" profile_id "profiles d" t, OF that dist]
    by simp
  show "counter_total ty d \<le> counter_total ty (decrement_profile_followers t d) + 1"
    by (simp add: counter_total_def decrement_profile_followers_def 2 del: map_map)
qed

lemma decrement_frame [simp]:
  "federated_interactions (decrement_post_likes t d) = federated_interactions d"
  "federated_interactions (decrement_post_reposts t d) = federated_interactions d"
  "federated_interactions (decrement_profile_followers t d) = federated_interactions d"
  "notifications (decrement_post_likes t d) = notifications d"
  "notifications (decrement_post_reposts t d) = notifications d"
  "notifications (decrement_profile_followers t d) = notifications d"
  by (simp_all add: decrement_post_likes_def decrement_post_reposts_def
        decrement_profile_followers_def)

lemma handleLikeEvent_delete:
  "interaction_rows d (like_uri a k) = [] \<Longrightarrow>
   handleLikeEvent e d a ''delete'' r k =
     (case local_subject (subject_uri r) of
        Inl err \<Rightarrow> (d, Throws err)
      | Inr None \<Rightarrow> (d, Normal)
      | Inr (Some u) \<Rightarrow>
          (case single (posts_by_uri d u) of
             None \<Rightarrow> (d, Normal)
           | Some post \<Rightarrow> (decrement_post_likes (post_id post) d, Normal)))"
  by (simp add: handleLikeEvent_def Let_def delete_interactions_absent
        split: sum.split option.split)

lemma handleRepostEvent_delete:
  "interaction_rows d (repost_uri a k) = [] \<Longrightarrow>
   handleRepostEvent e d a ''delete'' r k =
     (case local_subject (subject_uri r) of
        Inl err \<Rightarrow> (d, Throws err)
      | Inr None \<Rightarrow> (d, Normal)
      | Inr (Some u) \<Rightarrow>
          (case single (posts_by_uri d u) of
             None \<Rightarrow> (d, Normal)
           | Some post \<Rightarrow> (decrement_post_reposts (post_id post) d, Normal)))"
  by (simp add: handleRepostEvent_def Let_def delete_interactions_absent
        split: sum.split option.split)

lemma handleFollowEvent_delete:
  "interaction_rows d (follow_uri a k) = [] \<Longrightarrow>
   handleFollowEvent e d a ''delete'' r k =
     (case follow_subject r of
        None \<Rightarrow> (d, Normal)
      | Some u \<Rightarrow>
          (case single (profiles_by_did d u) of
             None \<Rightarrow> (d, Normal)
           | Some profile \<Rightarrow> (decrement_profile_followers (profile_id profile) d, Normal)))"
  by (simp add: handleFollowEvent_def Let_def delete_interactions_absent
        split: option.split)

lemma processEvent_delete:
  assumes c: "ev_commit event = Some c" and op: "operation c = ''delete''"
    and absent: "interaction_rows d (record_uri (ev_did event) (collection c) (rkey c)) = []"
  shows "fst (processEvent e d event) = d
       \<or> (\<exists>t. fst (processEvent e d event) = decrement_post_likes t d)
       \<or> (\<exists>t. fst (processEvent e d event) = decrement_post_reposts t d)
       \<or> (\<exists>t. fst (processEvent e d event) = decrement_profile_followers t d)"
proof -
  consider (like) "collection c = ''app.bsky.feed.like''"
    | (repost) "collection c = ''app.bsky.feed.repost''"
    | (post) "collection c = ''app.bsky.feed.post''"
    | (follow) "collection c = ''app.bsky.graph.follow''"
    | (other) "collection c \<noteq> ''app.bsky.feed.like''" "collection c \<noteq> ''app.bsky.feed.repost''"
        "collection c \<noteq> ''app.bsky.feed.post''" "collection c \<noteq> ''app.bsky.graph.follow''"
    by blast
  then show ?thesis
  proof cases
    case like
    then have "interaction_rows d (like_uri (ev_did event) (rkey c)) = []"
      using absent by (simp add: record_uri_keys)
    then show ?thesis using c op like
      by (auto simp: processEvent_def handleLikeEvent_delete split: sum.split option.split)
  next
    case repost
    then have "interaction_rows d (repost_uri (ev_did event) (rkey c)) = []"
      using absent by (simp add: record_uri_keys)
    then show ?thesis using c op repost
      by (auto simp: processEvent_def handleRepostEvent_delete split: sum.split option.split)
  next
    case post
    then show ?thesis using c op by (simp add: processEvent_def handlePostEvent_def)
  next
    case follow
    then have "interaction_rows d (follow_uri (ev_did event) (rkey c)) = []"
      using absent by (simp add: record_uri_keys)
    then show ?thesis using c op follow
      by (auto simp: processEvent_def handleFollowEvent_delete split: option.split)
  next
    case other
    then show ?thesis using c by (simp add: processEvent_def)
  qed
qed

lemma like_delete_relevant: "isRelevantToCannect like_delete = Inr True"
  by (simp add: isRelevantToCannect_def like_delete_def like_delete_commit_def like_record_def
        no_record_def CANNECT_DOMAIN_def)

lemma like_delete_once:
  "processEvent env0 db0 like_delete = (db0\<lparr>posts := [post1\<lparr>likes_count := 0\<rparr>]\<rparr>, Normal)"
  by (simp add: processEvent_def like_delete_def like_delete_commit_def like_record_def
        no_record_def handleLikeEvent_def CANNECT_DOMAIN_def posts_by_uri_def db0_def post1_def
        like_uri_def delete_interactions_def decrement_post_likes_def)

text \<open>
  Claim C3 does not hold.  The database has no interaction record at all, the post has one
  like, and a delete event for a like of that post arrives with its record.  The batch
  counts the event as processed and the post's counter goes from one to zero.
\<close>

theorem delete_without_create_decrements:
  "interaction_rows db0 (record_uri ''did:plc:bob'' ''app.bsky.feed.like'' ''k1'') = []
   \<and> ev_commit like_delete = Some like_delete_commit
   \<and> operation like_delete_commit = ''delete''
   \<and> counter_total ''like'' db0 = 1
   \<and> loop_effect (poll_loop env0 [like_delete] (db0, 0, 5))
       = (db0\<lparr>posts := [post1\<lparr>likes_count := 0\<rparr>]\<rparr>, 1)
   \<and> counter_total ''like'' (fst (loop_effect (poll_loop env0 [like_delete] (db0, 0, 5)))) = 0"
proof -
  have l: "loop_effect (poll_loop env0 [like_delete] (db0, 0, 5))
       = (db0\<lparr>posts := [post1\<lparr>likes_count := 0\<rparr>]\<rparr>, 1)"
    by (simp add: poll_loop_def poll_step_def loop_effect_def like_delete_relevant like_delete_once)
  show ?thesis
    unfolding l
    by (simp add: interaction_rows_def db0_def like_delete_def like_delete_commit_def
          counter_total_def post1_def)
qed

lemma processEvent_no_record:
  assumes "ev_commit event = Some c" and "commit_record c = None"
  shows "processEvent e d event = (d, Normal)"
  using assms
  by (simp add: processEvent_def handleLikeEvent_def handleRepostEvent_def handlePostEvent_def
        handleFollowEvent_def Let_def)

lemma not_relevant_no_record:
  assumes "ev_commit event = Some c" and "commit_record c = None"
  shows "isRelevantToCannect event = Inr False"
  using assms by (simp add: isRelevantToCannect_def)

text \<open>
  Claim C3, amended.  For a delete event whose key has no interaction record, no
  interaction record is removed or added and no notification is written.  The counter is
  decremented all the same: when the event is of the like, repost or follow collection
  and its subject resolves to one local post or profile, the result is the database with
  that subject's counter lowered by one, not below zero.  In every other case the
  database is as it was: an event of the post collection or of a collection without a
  handler, an event without a record payload (which the relevance filter drops before
  the router), and an event whose subject does not resolve.  So no counter total grows
  and none drops by more than one.
\<close>

theorem delete_without_record_keeps_rows:
  assumes "ev_commit event = Some c" and "operation c = ''delete''"
    and "interaction_rows d (record_uri (ev_did event) (collection c) (rkey c)) = []"
    and "distinct (map post_id (posts d))" and "distinct (map profile_id (profiles d))"
  shows "federated_interactions (fst (processEvent e d event)) = federated_interactions d
       \<and> notifications (fst (processEvent e d event)) = notifications d
       \<and> (\<forall>ty. counter_total ty (fst (processEvent e d event)) \<le> counter_total ty d
               \<and> counter_total ty d \<le> counter_total ty (fst (processEvent e d event)) + 1)
       \<and> (\<forall>u post. collection c = ''app.bsky.feed.like''
               \<and> local_subject (subject_uri (commit_record c)) = Inr (Some u)
               \<and> single (posts_by_uri d u) = Some post
             \<longrightarrow> fst (processEvent e d event) = decrement_post_likes (post_id post) d)
       \<and> (\<forall>u post. collection c = ''app.bsky.feed.repost''
               \<and> local_subject (subject_uri (commit_record c)) = Inr (Some u)
               \<and> single (posts_by_uri d u) = Some post
             \<longrightarrow> fst (processEvent e d event) = decrement_post_reposts (post_id post) d)
       \<and> (\<forall>u profile. collection c = ''app.bsky.graph.follow''
               \<and> follow_subject (commit_record c) = Some u
               \<and> single (profiles_by_did d u) = Some profile
             \<longrightarrow> fst (processEvent e d event)
                   = decrement_profile_followers (profile_id profile) d)
       \<and> (collection c = ''app.bsky.feed.post'' \<longrightarrow> processEvent e d event = (d, Normal))
       \<and> (collection c \<noteq> ''app.bsky.feed.like'' \<and> collection c \<noteq> ''app.bsky.feed.repost''
            \<and> collection c \<noteq> ''app.bsky.graph.follow'' \<longrightarrow> processEvent e d event = (d, Normal))
       \<and> (commit_record c = None \<longrightarrow>
             isRelevantToCannect event = Inr False \<and> processEvent e d event = (d, Normal))
       \<and> ((collection c = ''app.bsky.feed.like'' \<or> collection c = ''app.bsky.feed.repost'')
            \<and> (\<forall>u. local_subject (subject_uri (commit_record c)) = Inr (Some u)
                   \<longrightarrow> single (posts_by_uri d u) = None)
             \<longrightarrow> fst (processEvent e d event) = d)
       \<and> (collection c = ''app.bsky.graph.follow''
            \<and> (\<forall>u. follow_subject (commit_record c) = Some u
                   \<longrightarrow> single (profiles_by_did d u) = None)
             \<longrightarrow> processEvent e d event = (d, Normal))"
proof -
  let ?d' = "fst (processEvent e d event)"
  have u: "unique_ids d" using assms(4,5) by (simp add: unique_ids_def)
  from processEvent_delete[OF assms(1-3), of e]
  have frame: "federated_interactions ?d' = federated_interactions d
       \<and> notifications ?d' = notifications d
       \<and> (\<forall>ty. counter_total ty ?d' \<le> counter_total ty d
               \<and> counter_total ty d \<le> counter_total ty ?d' + 1)"
    using u by (auto simp: lowers_likes lowers_reposts lowers_followers simp del: One_nat_def)
  have lk: "interaction_rows d (like_uri (ev_did event) (rkey c)) = []"
    if "collection c = ''app.bsky.feed.like''"
    using assms(3) that by (simp add: record_uri_keys)
  have rk: "interaction_rows d (repost_uri (ev_did event) (rkey c)) = []"
    if "collection c = ''app.bsky.feed.repost''"
    using assms(3) that by (simp add: record_uri_keys)
  have fk: "interaction_rows d (follow_uri (ev_did event) (rkey c)) = []"
    if "collection c = ''app.bsky.graph.follow''"
    using assms(3) that by (simp add: record_uri_keys)
  have like: "?d' = decrement_post_likes (post_id post) d"
    if "collection c = ''app.bsky.feed.like''"
      "local_subject (subject_uri (commit_record c)) = Inr (Some u)"
      "single (posts_by_uri d u) = Some post" for u post
    using assms(1,2) that lk by (simp add: processEvent_def handleLikeEvent_delete)
  have repost: "?d' = decrement_post_reposts (post_id post) d"
    if "collection c = ''app.bsky.feed.repost''"
      "local_subject (subject_uri (commit_record c)) = Inr (Some u)"
      "single (posts_by_uri d u) = Some post" for u post
    using assms(1,2) that rk by (simp add: processEvent_def handleRepostEvent_delete)
  have follow: "?d' = decrement_profile_followers (profile_id profile) d"
    if "collection c = ''app.bsky.graph.follow''"
      "follow_subject (commit_record c) = Some u"
      "single (profiles_by_did d u) = Some profile" for u profile
    using assms(1,2) that fk by (simp add: processEvent_def handleFollowEvent_delete)
  have post: "processEvent e d event = (d, Normal)" if "collection c = ''app.bsky.feed.post''"
    using assms(1,2) that by (simp add: processEvent_def handlePostEvent_def)
  have other: "processEvent e d event = (d, Normal)"
    if "collection c \<noteq> ''app.bsky.feed.like''" "collection c \<noteq> ''app.bsky.feed.repost''"
      "collection c \<noteq> ''app.bsky.graph.follow''"
    using assms(1,2) that by (simp add: processEvent_def handlePostEvent_def)
  have bare: "isRelevantToCannect event = Inr False \<and> processEvent e d event = (d, Normal)"
    if "commit_record c = None"
    using processEvent_no_record[OF assms(1) that] not_relevant_no_record[OF assms(1) that]
    by simp
  have unres: "?d' = d"
    if "collection c = ''app.bsky.feed.like'' \<or> collection c = ''app.bsky.feed.repost''"
      "\<forall>u. local_subject (subject_uri (commit_record c)) = Inr (Some u)
           \<longrightarrow> single (posts_by_uri d u) = None"
    using that(1)
  proof
    assume l: "collection c = ''app.bsky.feed.like''"
    show ?thesis using assms(1,2) l lk[OF l] that(2)
      by (simp add: processEvent_def handleLikeEvent_delete split: sum.split option.split)
  next
    assume r: "collection c = ''app.bsky.feed.repost''"
    show ?thesis using assms(1,2) r rk[OF r] that(2)
      by (simp add: processEvent_def handleRepostEvent_delete split: sum.split option.split)
  qed
  have unres_follow: "processEvent e d event = (d, Normal)"
    if f: "collection c = ''app.bsky.graph.follow''"
      and "\<forall>u. follow_subject (commit_record c) = Some u \<longrightarrow> single (profiles_by_did d u) = None"
    using assms(1,2) f fk[OF f] that(2)
    by (simp add: processEvent_def handleFollowEvent_delete split: option.split)
  show ?thesis
    apply (intro conjI)
    using frame apply blast
    using frame apply blast
    using frame apply blast
    using like apply blast
    using repost apply blast
    using follow apply blast
    using post apply blast
    using other apply blast
    using bare apply blast
    using unres apply blast
    using unres_follow apply blast
    done
qed

theorem delete_without_record_keeps_rows_witness:
  "ev_commit like_delete = Some like_delete_commit
   \<and> operation like_delete_commit = ''delete''
   \<and> interaction_rows db0
        (record_uri (ev_did like_delete) (collection like_delete_commit) (rkey like_delete_commit))
       = []
   \<and> distinct (map post_id (posts db0)) \<and> distinct (map profile_id (profiles db0))
   \<and> collection like_delete_commit = ''app.bsky.feed.like''
   \<and> local_subject (subject_uri (commit_record like_delete_commit))
       = Inr (Some ''at://alice.cannect.space/app.bsky.feed.post/1'')
   \<and> single (posts_by_uri db0 ''at://alice.cannect.space/app.bsky.feed.post/1'') = Some post1
   \<and> federated_interactions (fst (processEvent env0 db0 like_delete)) = federated_interactions db0
   \<and> notifications (fst (processEvent env0 db0 like_delete)) = notifications db0
   \<and> fst (processEvent env0 db0 like_delete) = decrement_post_likes (post_id post1) db0
   \<and> Option.bind (ev_commit bare_delete) commit_record = None
   \<and> map_option operation (ev_commit bare_delete) = Some ''delete''
   \<and> isRelevantToCannect bare_delete = Inr False
   \<and> processEvent env0 db0 bare_delete = (db0, Normal)"
proof -
  have h1: "ev_commit like_delete = Some like_delete_commit" by (simp add: like_delete_def)
  have h2: "operation like_delete_commit = ''delete''" by (simp add: like_delete_commit_def)
  have h3: "interaction_rows db0
        (record_uri (ev_did like_delete) (collection like_delete_commit) (rkey like_delete_commit))
       = []"
    by (simp add: interaction_rows_def db0_def)
  have h4: "distinct (map post_id (posts db0))" by (simp add: db0_def)
  have h5: "distinct (map profile_id (profiles db0))" by (simp add: db0_def)
  have a: "collection like_delete_commit = ''app.bsky.feed.like''"
    by (simp add: like_delete_commit_def)
  have b: "local_subject (subject_uri (commit_record like_delete_commit))
       = Inr (Some ''at://alice.cannect.space/app.bsky.feed.post/1'')"
    by (simp add: like_delete_commit_def like_record_def no_record_def CANNECT_DOMAIN_def)
  have c: "single (posts_by_uri db0 ''at://alice.cannect.space/app.bsky.feed.post/1'') = Some post1"
    by (simp add: posts_by_uri_def db0_def post1_def)
  obtain bc where bc: "ev_commit bare_delete = Some bc" "operation bc = ''delete''"
      "commit_record bc = None"
    by (simp add: bare_delete_def)
  have b3: "interaction_rows db0 (record_uri (ev_did bare_delete) (collection bc) (rkey bc)) = []"
    by (simp add: interaction_rows_def db0_def)
  have bare: "isRelevantToCannect bare_delete = Inr False"
      "processEvent env0 db0 bare_delete = (db0, Normal)"
    using delete_without_record_keeps_rows[OF bc(1,2) b3 h4 h5, of env0] bc(3) by blast+
  have like: "federated_interactions (fst (processEvent env0 db0 like_delete))
                = federated_interactions db0"
      "notifications (fst (processEvent env0 db0 like_delete)) = notifications db0"
      "fst (processEvent env0 db0 like_delete) = decrement_post_likes (post_id post1) db0"
    using delete_without_record_keeps_rows[OF h1 h2 h3 h4 h5, of env0] a b c by blast+
  show ?thesis
    using h1 h2 h3 h4 h5 a b c like bare bc by simp
qed

section \<open>Profile resolution\<close>

lemma getBlueskyProfile_hit:
  "cached_row d a = Some row \<Longrightarrow> cache_fresh e row \<Longrightarrow>
     getBlueskyProfile e d a = (d, Some (CachedActor row))"
  by (simp add: getBlueskyProfile_def cached_row_def cache_fresh_def)

lemma getBlueskyProfile_miss:
  "\<not> cache_hit e d a \<Longrightarrow>
     getBlueskyProfile e d a =
       (case bsky_api e a of
          ApiNotOk status \<Rightarrow> (d\<lparr>profile_requests := profile_requests d @ [a]\<rparr>, None)
        | ApiThrow msg \<Rightarrow> (d\<lparr>profile_requests := profile_requests d @ [a]\<rparr>, None)
        | ApiOk profile \<Rightarrow>
            (upsert_cache \<lparr>c_did = a, c_handle = p_handle profile,
                            c_display_name = p_displayName profile,
                            c_avatar = p_avatar profile, c_cached_at = now_ms e\<rparr>
               (d\<lparr>profile_requests := profile_requests d @ [a]\<rparr>),
             Some (FetchedActor profile)))"
  by (cases "single (filter (\<lambda>c. c_did c = a) (bluesky_profile_cache d))")
     (simp_all add: getBlueskyProfile_def cache_hit_def cached_row_def cache_fresh_def Let_def)

lemma upsert_cache_rows:
  "set (filter (\<lambda>c. c_did c = c_did r) (bluesky_profile_cache (upsert_cache r d))) = {r}"
proof (cases "filter (\<lambda>c. c_did c = c_did r) (bluesky_profile_cache d) = []")
  case True
  then show ?thesis by (simp add: upsert_cache_def)
next
  case False
  then obtain x where x: "x \<in> set (bluesky_profile_cache d)" "c_did x = c_did r"
    by (auto simp: filter_empty_conv)
  have "set (filter (\<lambda>c. c_did c = c_did r)
               (map (\<lambda>c. if c_did c = c_did r then r else c) (bluesky_profile_cache d))) = {r}"
    using x by (auto simp: image_iff)
  then show ?thesis using False by (simp add: upsert_cache_def)
qed

lemma upsert_cache_requests [simp]:
  "profile_requests (upsert_cache r d) = profile_requests d"
  by (simp add: upsert_cache_def)

text \<open>
  Claim C9.  A cache row of the actor that is younger than the time to live is returned
  as it is, and nothing is requested from the remote API.  Otherwise exactly one lookup
  is made: a profile that comes back is returned and is the actor's row in the cache
  from then on, stamped with the current time; a response that is not OK or an exception
  gives null, and the notification is still written, with the first twenty characters
  of the DID for a handle.
\<close>

theorem profile_resolution:
  "(\<forall>row. cached_row d a = Some row \<and> cache_fresh e row \<longrightarrow>
       getBlueskyProfile e d a = (d, Some (CachedActor row)))
   \<and> (\<forall>profile. \<not> cache_hit e d a \<and> bsky_api e a = ApiOk profile \<longrightarrow>
       snd (getBlueskyProfile e d a) = Some (FetchedActor profile)
       \<and> profile_requests (fst (getBlueskyProfile e d a)) = profile_requests d @ [a]
       \<and> set (filter (\<lambda>c. c_did c = a)
                 (bluesky_profile_cache (fst (getBlueskyProfile e d a))))
           = {\<lparr>c_did = a, c_handle = p_handle profile, c_display_name = p_displayName profile,
               c_avatar = p_avatar profile, c_cached_at = now_ms e\<rparr>})
   \<and> (\<not> cache_hit e d a \<and> (\<forall>profile. bsky_api e a \<noteq> ApiOk profile) \<longrightarrow>
       getBlueskyProfile e d a = (d\<lparr>profile_requests := profile_requests d @ [a]\<rparr>, None)
       \<and> createExternalNotification e d userId a reason postId =
           d\<lparr>profile_requests := profile_requests d @ [a],
              notifications := notifications d @
                [\<lparr>n_user_id = userId, n_actor_id = None, n_actor_did = a,
                  n_actor_handle = take 20 a, n_actor_display_name = None,
                  n_actor_avatar = None, n_reason = reason, n_post_id = postId,
                  n_is_external = True\<rparr>]\<rparr>)"
proof (intro conjI allI impI)
  fix row assume "cached_row d a = Some row \<and> cache_fresh e row"
  then show "getBlueskyProfile e d a = (d, Some (CachedActor row))"
    by (simp add: getBlueskyProfile_hit)
next
  fix profile assume a: "\<not> cache_hit e d a \<and> bsky_api e a = ApiOk profile"
  let ?r = "\<lparr>c_did = a, c_handle = p_handle profile, c_display_name = p_displayName profile,
               c_avatar = p_avatar profile, c_cached_at = now_ms e\<rparr>"
  have g: "getBlueskyProfile e d a =
      (upsert_cache ?r (d\<lparr>profile_requests := profile_requests d @ [a]\<rparr>),
       Some (FetchedActor profile))"
    using a by (simp add: getBlueskyProfile_miss)
  show "snd (getBlueskyProfile e d a) = Some (FetchedActor profile)" by (simp add: g)
  show "profile_requests (fst (getBlueskyProfile e d a)) = profile_requests d @ [a]"
    by (simp add: g)
  show "set (filter (\<lambda>c. c_did c = a) (bluesky_profile_cache (fst (getBlueskyProfile e d a))))
           = {?r}"
    using upsert_cache_rows[of ?r "d\<lparr>profile_requests := profile_requests d @ [a]\<rparr>"]
    by (simp add: g)
next
  assume a: "\<not> cache_hit e d a \<and> (\<forall>profile. bsky_api e a \<noteq> ApiOk profile)"
  then show g: "getBlueskyProfile e d a = (d\<lparr>profile_requests := profile_requests d @ [a]\<rparr>, None)"
    by (cases "bsky_api e a") (simp_all add: getBlueskyProfile_miss)
  show "createExternalNotification e d userId a reason postId =
           d\<lparr>profile_requests := profile_requests d @ [a],
              notifications := notifications d @
                [\<lparr>n_user_id = userId, n_actor_id = None, n_actor_did = a,
                  n_actor_handle = take 20 a, n_actor_display_name = None,
                  n_actor_avatar = None, n_reason = reason, n_post_id = postId,
                  n_is_external = True\<rparr>]\<rparr>"
    by (simp add: createExternalNotification_def g)
qed

theorem profile_resolution_witness:
  "cached_row db_cached ''did:plc:bob'' = Some bob_row \<and> cache_fresh env0 bob_row
   \<and> getBlueskyProfile env0 db_cached ''did:plc:bob'' = (db_cached, Some (CachedActor bob_row))
   \<and> \<not> cache_hit env_api_ok db0 ''did:plc:bob''
   \<and> bsky_api env_api_ok ''did:plc:bob'' = ApiOk bob_profile
   \<and> snd (getBlueskyProfile env_api_ok db0 ''did:plc:bob'') = Some (FetchedActor bob_profile)
   \<and> profile_requests (fst (getBlueskyProfile env_api_ok db0 ''did:plc:bob'')) = [''did:plc:bob'']
   \<and> \<not> cache_hit env0 db0 ''did:plc:bob''
   \<and> bsky_api env0 ''did:plc:bob'' = ApiNotOk ''404''
   \<and> getBlueskyProfile env0 db0 ''did:plc:bob''
       = (db0\<lparr>profile_requests := [''did:plc:bob'']\<rparr>, None)"
proof -
  have h1: "cached_row db_cached ''did:plc:bob'' = Some bob_row"
    by (simp add: cached_row_def db_cached_def bob_row_def)
  have h2: "cache_fresh env0 bob_row"
    by (simp add: cache_fresh_def env0_def bob_row_def PROFILE_CACHE_TTL_MS_def)
  have h3: "\<not> cache_hit env_api_ok db0 ''did:plc:bob''"
    by (simp add: cache_hit_def cached_row_def db0_def)
  have h4: "bsky_api env_api_ok ''did:plc:bob'' = ApiOk bob_profile"
    by (simp add: env_api_ok_def)
  have h5: "\<not> cache_hit env0 db0 ''did:plc:bob''"
    by (simp add: cache_hit_def cached_row_def db0_def)
  have h6: "bsky_api env0 ''did:plc:bob'' = ApiNotOk ''404''" by (simp add: env0_def)
  have r0: "profile_requests db0 = []" by (simp add: db0_def)
  have hit: "getBlueskyProfile env0 db_cached ''did:plc:bob'' = (db_cached, Some (CachedActor bob_row))"
    using profile_resolution[of db_cached "''did:plc:bob''" env0] h1 h2 by blast
  have ok: "snd (getBlueskyProfile env_api_ok db0 ''did:plc:bob'') = Some (FetchedActor bob_profile)
      \<and> profile_requests (fst (getBlueskyProfile env_api_ok db0 ''did:plc:bob''))
          = profile_requests db0 @ [''did:plc:bob'']"
    using profile_resolution[of db0 "''did:plc:bob''" env_api_ok] h3 h4 by blast
  have "\<forall>profile. bsky_api env0 ''did:plc:bob'' \<noteq> ApiOk profile" using h6 by simp
  then have miss: "getBlueskyProfile env0 db0 ''did:plc:bob''
       = (db0\<lparr>profile_requests := profile_requests db0 @ [''did:plc:bob'']\<rparr>, None)"
    using profile_resolution[of db0 "''did:plc:bob''" env0] h5 by blast
  show ?thesis
    using h1 h2 h3 h4 h5 h6 hit ok miss by (simp add: r0)
qed

section \<open>Outbound actions\<close>

text \<open>
  Claim C7.  When the write to the PDS fails, with no session, a rejected write or a
  failed refresh, the action returns that error and the database is the one before.
  The database differs from the one before only when the PDS answered with a record
  reference, which is then the result.
\<close>

theorem failed_write_changes_nothing:
  "(\<forall>err. pds_write w = Inl err \<longrightarrow> perform w act actorDid t d = (Inl err, d))
   \<and> (snd (perform w act actorDid t d) \<noteq> d \<longrightarrow>
        (\<exists>uri. pds_write w = Inr uri \<and> fst (perform w act actorDid t d) = Inr uri))"
  by (cases "pds_write w") (simp_all add: perform_def)

theorem failed_write_changes_nothing_witness:
  "pds_write pds_down = Inl (WriteFailed ''network error'')
   \<and> perform pds_down DoRepost ''did:plc:alice'' repost_target db0
       = (Inl (WriteFailed ''network error''), db0)
   \<and> snd (perform pds_up DoRepost ''did:plc:alice'' repost_target db0) \<noteq> db0
   \<and> fst (perform pds_up DoRepost ''did:plc:alice'' repost_target db0)
       = Inr ''at://did:plc:alice/app.bsky.feed.repost/r1''"
proof -
  have h: "pds_write pds_down = Inl (WriteFailed ''network error'')"
    by (simp add: pds_write_def pds_down_def)
  have u: "pds_write pds_up = Inr ''at://did:plc:alice/app.bsky.feed.repost/r1''"
    by (simp add: pds_write_def pds_up_def)
  have "federated_interactions (snd (perform pds_up DoRepost ''did:plc:alice'' repost_target db0))
        \<noteq> federated_interactions db0"
    by (simp add: perform_def u mirror_created_def insert_interaction_def interaction_rows_def
          db0_def increment_post_reposts_def repost_target_def)
  then have c: "snd (perform pds_up DoRepost ''did:plc:alice'' repost_target db0) \<noteq> db0"
    by auto
  show ?thesis
    using failed_write_changes_nothing[of pds_down DoRepost "''did:plc:alice''" repost_target db0]
      failed_write_changes_nothing[of pds_up DoRepost "''did:plc:alice''" repost_target db0]
      h u c
    by auto
qed

section \<open>Two paths on one database\<close>

lemma lookup_stable:
  assumes "counters_only d0 d"
  shows "lookup d j = lookup d0 j"
proof (cases "j_kind j = KFollow")
  case True
  have "rel_option same_profile (single (profiles_by_did d0 (j_subject j)))
          (single (profiles_by_did d (j_subject j)))"
    using assms by (rule profile_lookup_rel)
  then show ?thesis using True
    by (cases "single (profiles_by_did d0 (j_subject j))";
        cases "single (profiles_by_did d (j_subject j))")
       (simp_all add: lookup_def same_profile_def)
next
  case False
  have "rel_option same_post (single (posts_by_uri d0 (j_subject j)))
          (single (posts_by_uri d (j_subject j)))"
    using assms by (rule post_lookup_rel)
  then show ?thesis using False
    by (cases "single (posts_by_uri d0 (j_subject j))";
        cases "single (posts_by_uri d (j_subject j))")
       (simp_all add: lookup_def same_post_def)
qed

lemma lookup_found_ok:
  assumes "lookup d j = Some found"
  shows "target_ok d (j_kind j) (fst found)"
proof (cases "j_kind j = KFollow")
  case True
  then obtain p where "single (profiles_by_did d (j_subject j)) = Some p" "fst found = profile_id p"
    using assms by (auto simp: lookup_def)
  then show ?thesis using True profile_lookup_mem[of d "j_subject j" p]
    by (simp add: target_ok_def)
next
  case False
  then obtain p where "single (posts_by_uri d (j_subject j)) = Some p" "fst found = post_id p"
    using assms by (auto simp: lookup_def)
  then show ?thesis using False post_lookup_mem[of d "j_subject j" p]
    by (simp add: target_ok_def)
qed

lemma target_ok_stable:
  "counters_only d0 d \<Longrightarrow> target_ok d knd t = target_ok d0 knd t"
  by (simp add: target_ok_def counters_only_ids)

lemma job_ok_stable: "counters_only d0 d \<Longrightarrow> job_ok d x = job_ok d0 x"
  by (simp add: job_ok_def target_ok_stable split: option.split)

lemma job_bump_counter_bump [simp]: "counter_bump (job_bump knd t)"
  by (cases knd) simp_all

lemma job_bump_total:
  assumes u: "unique_ids d" and ok: "target_ok d knd t"
  shows "counter_total ty (job_bump knd t d)
         = counter_total ty d + (if kind_name knd = ty then 1 else 0)"
proof (cases "knd = KFollow")
  case True
  then obtain p where p: "p \<in> set (profiles d)" "profile_id p = t"
    using ok by (auto simp: target_ok_def)
  have "counter_total ty (increment_profile_followers (profile_id p) d)
          = counter_total ty d + (if ty = ''follow'' then 1 else 0)"
    using raises_followers u p(1) unfolding raises_profile_def by blast
  then show ?thesis using True p(2) by auto
next
  case False
  then obtain p where p: "p \<in> set (posts d)" "post_id p = t"
    using ok by (auto simp: target_ok_def)
  have r: "counter_total ty (bump (post_id p) d) = counter_total ty d + (if ty = T then 1 else 0)"
    if "raises bump T" for bump T
    using that u p(1) unfolding raises_def by blast
  show ?thesis using False p(2) r[OF raises_likes] r[OF raises_reposts] r[OF raises_replies]
      r[OF raises_quotes]
    by (cases knd) auto
qed

text \<open>What one statement does to the tables.\<close>

lemma step_counters_only:
  assumes "job_step e (d, s) = (d', s')"
  shows "counters_only d d'"
proof (cases "(e, (d, s))" rule: job_step.cases)
  case (1 e0 d0)
  then show ?thesis using assms by simp
next
  case (2 e0 d0 j rest)
  then show ?thesis using assms by (auto split: option.splits)
next
  case (3 e0 d0 j found rest)
  then show ?thesis using assms by (auto split: option.splits)
next
  case (4 e0 d0 j found rest)
  then show ?thesis using assms
    by (auto simp: insert_interaction_def intro: counters_only_fields split: if_splits)
next
  case (5 e0 d0 j found rest)
  have "counters_only d (job_bump (j_kind j) (fst found) d)"
    using job_bump_counter_bump[of "j_kind j" "fst found"] unfolding counter_bump_def by blast
  then show ?thesis using 5 assms by auto
next
  case (6 e0 d0 j found rest)
  then show ?thesis using assms by (auto intro: counters_only_fields)
qed

lemma step_rows:
  assumes "job_step e (d, s) = (d', s')"
  shows "federated_interactions d' = federated_interactions d
       \<or> (\<exists>row. interaction_rows d (fi_at_uri row) = []
              \<and> federated_interactions d' = federated_interactions d @ [row])"
proof (cases "(e, (d, s))" rule: job_step.cases)
  case (1 e0 d0)
  then show ?thesis using assms by simp
next
  case (2 e0 d0 j rest)
  then show ?thesis using assms by (auto split: option.splits)
next
  case (3 e0 d0 j found rest)
  then show ?thesis using assms by (auto split: option.splits)
next
  case (4 e0 d0 j found rest)
  then show ?thesis using assms
    by (auto simp: insert_interaction_def split: if_splits)
next
  case (5 e0 d0 j found rest)
  have "federated_interactions (job_bump (j_kind j) (fst found) d) = federated_interactions d"
    using job_bump_counter_bump[of "j_kind j" "fst found"] unfolding counter_bump_def by blast
  then show ?thesis using 5 assms by auto
next
  case (6 e0 d0 j found rest)
  then show ?thesis using assms by auto
qed

lemma rows_keys_grow:
  assumes "federated_interactions d' = federated_interactions d
       \<or> (\<exists>row. interaction_rows d (fi_at_uri row) = []
              \<and> federated_interactions d' = federated_interactions d @ [row])"
  shows "keys_grow d d'"
  unfolding keys_grow_def
proof
  fix k
  from assms
  show "interaction_rows d' k = interaction_rows d k
        \<or> (interaction_rows d k = [] \<and> length (interaction_rows d' k) = 1)"
  proof
    assume "federated_interactions d' = federated_interactions d"
    then show ?thesis by (simp add: interaction_rows_def)
  next
    assume "\<exists>row. interaction_rows d (fi_at_uri row) = []
              \<and> federated_interactions d' = federated_interactions d @ [row]"
    then obtain row where a: "interaction_rows d (fi_at_uri row) = []"
      "federated_interactions d' = federated_interactions d @ [row]" by blast
    show ?thesis
    proof (cases "fi_at_uri row = k")
      case True
      then show ?thesis using a by (auto simp: interaction_rows_def)
    next
      case False
      then show ?thesis using a by (simp add: interaction_rows_def)
    qed
  qed
qed

lemma step_keys_grow: "job_step e (d, s) = (d', s') \<Longrightarrow> keys_grow d d'"
  by (rule rows_keys_grow) (rule step_rows)

lemma owed_Cons: "owed ty (x # s) = owes ty x + owed ty s"
  by (simp add: owed_def)

lemma owes_simps [simp]:
  "owes ty (j, AtLookup) = 0"
  "owes ty (j, AtCheck found) = 0"
  "owes ty (j, AtInsert found) = 0"
  "owes ty (j, AtCount found) = (if kind_name (j_kind j) = ty then 1 else 0)"
  "owes ty (j, AtNotify found) = 0"
  by (simp_all add: owes_def)

lemma step_owed:
  assumes step: "job_step e (d, s) = (d', s')"
    and u: "unique_ids d" and ok: "list_all (job_ok d) s"
  shows "counter_total ty d' + owed ty s' + length (type_rows ty d)
         = counter_total ty d + owed ty s + length (type_rows ty d')"
proof (cases "(e, (d, s))" rule: job_step.cases)
  case (1 e0 d0)
  then show ?thesis using step by simp
next
  case (2 e0 d0 j rest)
  then show ?thesis using step by (auto simp: owed_Cons split: option.splits)
next
  case (3 e0 d0 j found rest)
  then show ?thesis using step by (auto simp: owed_Cons split: option.splits)
next
  case (4 e0 d0 j found rest)
  show ?thesis
  proof (cases "interaction_rows d (j_key j) = []")
    case False
    then have "d' = d" "s' = rest"
      using 4 step by (simp_all add: insert_interaction_def job_row_def)
    then show ?thesis using 4 by (simp add: owed_Cons)
  next
    case True
    then have e: "d' = d\<lparr>federated_interactions := federated_interactions d @ [job_row j found]\<rparr>"
      "s' = (j, AtCount found) # rest"
      using 4 step by (auto simp: insert_interaction_def job_row_def)
    have c: "counter_total ty d' = counter_total ty d"
      by (rule counter_total_fields) (simp_all add: e)
    have t: "length (type_rows ty d')
             = length (type_rows ty d) + (if kind_name (j_kind j) = ty then 1 else 0)"
      by (simp add: type_rows_def e job_row_def)
    show ?thesis using 4 c t by (simp add: e owed_Cons)
  qed
next
  case (5 e0 d0 j found rest)
  then have e: "d' = job_bump (j_kind j) (fst found) d"
    "s' = (if j_inbound j then (j, AtNotify found) # rest else rest)"
    using step by auto
  have "target_ok d (j_kind j) (fst found)" using ok 5 by (simp add: job_ok_def)
  then have c: "counter_total ty d'
                = counter_total ty d + (if kind_name (j_kind j) = ty then 1 else 0)"
    unfolding e by (rule job_bump_total[OF u])
  have "federated_interactions d' = federated_interactions d"
    using job_bump_counter_bump[of "j_kind j" "fst found"] unfolding counter_bump_def e by blast
  then have t: "type_rows ty d' = type_rows ty d" by (simp add: type_rows_def)
  show ?thesis using 5 c t by (simp add: e owed_Cons)
next
  case (6 e0 d0 j found rest)
  then have e: "d' = createExternalNotification e d (snd found) (j_actor j)
                       (kind_name (j_kind j))
                       (if j_kind j = KFollow then None else Some (fst found))"
    "s' = rest"
    using step by auto
  have c: "counter_total ty d' = counter_total ty d"
    by (rule counter_total_fields) (simp_all add: e)
  have t: "type_rows ty d' = type_rows ty d" by (simp add: type_rows_def e)
  show ?thesis using 6 c t by (simp add: e owed_Cons)
qed

lemma step_job_ok:
  assumes step: "job_step e (d, s) = (d', s')" and ok: "list_all (job_ok d) s"
  shows "list_all (job_ok d) s'"
proof (cases "(e, (d, s))" rule: job_step.cases)
  case (1 e0 d0)
  then show ?thesis using step by auto
next
  case (2 e0 d0 j rest)
  have "target_ok d (j_kind j) (fst found)" if "lookup d j = Some found" for found
    using that by (rule lookup_found_ok)
  then show ?thesis using 2 step ok
    by (auto simp: job_ok_def split: option.splits)
next
  case (3 e0 d0 j found rest)
  then show ?thesis using step ok by (auto simp: job_ok_def split: option.splits)
next
  case (4 e0 d0 j found rest)
  then show ?thesis using step ok by (auto simp: job_ok_def split: option.splits)
next
  case (5 e0 d0 j found rest)
  then show ?thesis using step ok by (auto simp: job_ok_def split: if_splits)
next
  case (6 e0 d0 j found rest)
  then show ?thesis using step ok by auto
qed

lemma settled_rows:
  assumes "settled d0 d jobs s" and "keys_grow d d'"
  shows "settled d0 d' jobs s"
  using assms keys_grow_nonempty[OF assms(2)] unfolding settled_def by blast

lemma settled_tail:
  assumes s: "settled d0 d jobs (x # rest)"
    and head: "resolves d0 (fst x) \<Longrightarrow> waiting (snd x) \<Longrightarrow> interaction_rows d (j_key (fst x)) \<noteq> []"
  shows "settled d0 d jobs rest"
  unfolding settled_def
proof (intro ballI impI)
  fix j assume j: "j \<in> set jobs" "resolves d0 j"
  then have "(\<exists>y \<in> set (x # rest). fst y = j \<and> waiting (snd y)) \<or> interaction_rows d (j_key j) \<noteq> []"
    using s by (simp add: settled_def)
  then show "(\<exists>y \<in> set rest. fst y = j \<and> waiting (snd y)) \<or> interaction_rows d (j_key j) \<noteq> []"
    using head j(2) by auto
qed

lemma settled_head:
  assumes s: "settled d0 d jobs ((j, p) # rest)" and "waiting p'"
  shows "settled d0 d jobs ((j, p') # rest)"
  using assms unfolding settled_def by fastforce

lemma settled_drop:
  "settled d0 d jobs ((j, p) # rest) \<Longrightarrow> \<not> waiting p \<Longrightarrow> settled d0 d jobs rest"
  unfolding settled_def by fastforce

lemma settled_Cons: "settled d0 d jobs rest \<Longrightarrow> settled d0 d jobs (x # rest)"
  unfolding settled_def by fastforce

lemma step_settled:
  assumes step: "job_step e (d, s) = (d', s')"
    and st: "settled d0 d jobs s" and co: "counters_only d0 d" and ok: "list_all (job_ok d0) s"
  shows "settled d0 d' jobs s'"
proof (cases "(e, (d, s))" rule: job_step.cases)
  case (1 e0 d0)
  then show ?thesis using step st by auto
next
  case (2 e0 d0' j rest)
  then have s: "s = (j, AtLookup) # rest" by simp
  show ?thesis
  proof (cases "lookup d j")
    case None
    then have e: "d' = d" "s' = rest" using step s by simp_all
    have inb: "j_inbound j" using ok s by (simp add: job_ok_def)
    have "\<not> resolves d0 j"
      using None inb lookup_stable[OF co, of j] by (simp add: resolves_def)
    then show ?thesis unfolding e using settled_tail[of d0 d jobs "(j, AtLookup)" rest] st s
      by simp
  next
    case (Some found)
    then have e: "d' = d" "s' = (j, AtCheck found) # rest" using step s by simp_all
    show ?thesis unfolding e using settled_head[of d0 d jobs j AtLookup rest "AtCheck found"] st s
      by simp
  qed
next
  case (3 e0 d0' j found rest)
  then have s: "s = (j, AtCheck found) # rest" by simp
  show ?thesis
  proof (cases "single (interaction_rows d (j_key j))")
    case None
    then have e: "d' = d" "s' = (j, AtInsert found) # rest" using step s by simp_all
    show ?thesis unfolding e
      using settled_head[of d0 d jobs j "AtCheck found" rest "AtInsert found"] st s by simp
  next
    case (Some existing)
    then have e: "d' = d" "s' = rest" using step s by simp_all
    have "interaction_rows d (j_key j) \<noteq> []" using Some by auto
    then show ?thesis unfolding e
      using settled_tail[of d0 d jobs "(j, AtCheck found)" rest] st s by simp
  qed
next
  case (4 e0 d0' j found rest)
  then have s: "s = (j, AtInsert found) # rest" by simp
  show ?thesis
  proof (cases "interaction_rows d (j_key j) = []")
    case False
    then have e: "d' = d" "s' = rest"
      using step s by (simp_all add: insert_interaction_def job_row_def)
    show ?thesis unfolding e
      using settled_tail[of d0 d jobs "(j, AtInsert found)" rest] st s False by simp
  next
    case True
    then have e: "d' = d\<lparr>federated_interactions := federated_interactions d @ [job_row j found]\<rparr>"
      "s' = (j, AtCount found) # rest"
      using step s by (auto simp: insert_interaction_def job_row_def)
    have kg: "keys_grow d d'" using step by (rule step_keys_grow)
    have st': "settled d0 d' jobs ((j, AtInsert found) # rest)"
      using settled_rows[OF st kg] s by simp
    have "interaction_rows d' (j_key j) \<noteq> []"
      by (simp add: e interaction_rows_def job_row_def)
    then have "settled d0 d' jobs rest"
      using settled_tail[of d0 d' jobs "(j, AtInsert found)" rest] st' by simp
    then show ?thesis unfolding e(2) by (rule settled_Cons)
  qed
next
  case (5 e0 d0' j found rest)
  then have s: "s = (j, AtCount found) # rest" by simp
  have kg: "keys_grow d d'" using step by (rule step_keys_grow)
  have "settled d0 d' jobs ((j, AtCount found) # rest)"
    using settled_rows[OF st kg] s by simp
  then have r: "settled d0 d' jobs rest" by (rule settled_drop) simp
  have "s' = (j, AtNotify found) # rest \<or> s' = rest"
    using step s by (cases "j_inbound j") auto
  then show ?thesis using r settled_Cons[OF r] by auto
next
  case (6 e0 d0' j found rest)
  then have s: "s = (j, AtNotify found) # rest" by simp
  have kg: "keys_grow d d'" using step by (rule step_keys_grow)
  have "settled d0 d' jobs ((j, AtNotify found) # rest)"
    using settled_rows[OF st kg] s by simp
  then have r: "settled d0 d' jobs rest" by (rule settled_drop) simp
  have "s' = rest" using step s by auto
  then show ?thesis using r by simp
qed

lemma race_inv_swap: "race_inv d0 jobs1 jobs2 (d, s1, s2) = race_inv d0 jobs2 jobs1 (d, s2, s1)"
  unfolding race_inv_def by (auto simp: add.commute add.left_commute)

lemma race_inv_step:
  assumes u: "unique_ids d0"
    and inv: "race_inv d0 jobs1 jobs2 (d, s1, s2)"
    and step: "job_step e (d, s1) = (d', s1')"
  shows "race_inv d0 jobs1 jobs2 (d', s1', s2)"
proof -
  have co: "counters_only d0 d" and kg: "keys_grow d0 d"
    and ct: "\<And>ty. counter_total ty d + owed ty s1 + owed ty s2 + length (type_rows ty d0)
                   = counter_total ty d0 + length (type_rows ty d)"
    and ok1: "list_all (job_ok d0) s1" and ok2: "list_all (job_ok d0) s2"
    and st1: "settled d0 d jobs1 s1" and st2: "settled d0 d jobs2 s2"
    using inv by (auto simp: race_inv_def)
  have ud: "unique_ids d" using unique_ids_counters_only[OF co u] .
  have okd: "list_all (job_ok d) s1" using ok1 by (simp add: job_ok_stable[OF co] cong: list.pred_cong)
  have co1: "counters_only d d'" using step by (rule step_counters_only)
  have kg1: "keys_grow d d'" using step by (rule step_keys_grow)
  have 1: "counters_only d0 d'" using co co1 by (rule counters_only_trans)
  have 2: "keys_grow d0 d'" using kg kg1 by (rule keys_grow_trans)
  have 3: "counter_total ty d' + owed ty s1' + owed ty s2 + length (type_rows ty d0)
                   = counter_total ty d0 + length (type_rows ty d')" for ty
    using ct[of ty] step_owed[OF step ud okd, of ty] by arith
  have "list_all (job_ok d) s1'" using step okd by (rule step_job_ok)
  then have 4: "list_all (job_ok d0) s1'" by (simp add: job_ok_stable[OF co] cong: list.pred_cong)
  have 5: "settled d0 d' jobs1 s1'" using step st1 co ok1 by (rule step_settled)
  have 6: "settled d0 d' jobs2 s2" using st2 kg1 by (rule settled_rows)
  show ?thesis using 1 2 3 4 ok2 5 6 by (simp add: race_inv_def)
qed

lemma race_inv_preserved:
  assumes u: "unique_ids d0"
  shows "race_inv d0 jobs1 jobs2 st \<Longrightarrow> race_inv d0 jobs1 jobs2 (race e1 e2 sched st)"
proof (induction sched arbitrary: st)
  case Nil
  then show ?case by simp
next
  case (Cons first sched)
  obtain d s1 s2 where st: "st = (d, s1, s2)" by (cases st) auto
  show ?case
  proof (cases first)
    case True
    obtain d' s1' where s: "job_step e1 (d, s1) = (d', s1')"
      by (cases "job_step e1 (d, s1)") auto
    have "race_inv d0 jobs1 jobs2 (d', s1', s2)"
      using race_inv_step[OF u _ s] Cons.prems st by simp
    then show ?thesis using Cons.IH[of "(d', s1', s2)"] True s st by simp
  next
    case False
    obtain d' s2' where s: "job_step e2 (d, s2) = (d', s2')"
      by (cases "job_step e2 (d, s2)") auto
    have "race_inv d0 jobs2 jobs1 (d, s2, s1)"
      using Cons.prems st by (simp add: race_inv_swap)
    then have "race_inv d0 jobs2 jobs1 (d', s2', s1)"
      using race_inv_step[OF u _ s] by simp
    then have "race_inv d0 jobs1 jobs2 (d', s1, s2')" by (simp add: race_inv_swap)
    then show ?thesis using Cons.IH[of "(d', s1, s2')"] False s st by simp
  qed
qed

section \<open>Progress of a race\<close>

lemma weight_pos: "0 < weight p"
  by (cases p) simp_all

lemma steps_left_Cons: "steps_left (x # s) = weight (snd x) + steps_left s"
  by (simp add: steps_left_def)

lemma steps_left_Nil [simp]: "steps_left [] = 0"
  by (simp add: steps_left_def)

lemma steps_left_zero: "steps_left s = 0 \<Longrightarrow> s = []"
proof (cases s)
  case Nil
  then show ?thesis by simp
next
  case (Cons x rest)
  assume "steps_left s = 0"
  then have "weight (snd x) = 0" using Cons by (simp add: steps_left_Cons)
  then show ?thesis using weight_pos[of "snd x"] by simp
qed

lemma steps_left_bound: "steps_left s \<le> 5 * length s"
proof (induction s)
  case Nil
  then show ?case by simp
next
  case (Cons x s)
  have "weight (snd x) \<le> 5" by (cases "snd x") simp_all
  then show ?case using Cons by (simp add: steps_left_Cons)
qed

lemma step_progress: "steps_left (snd (job_step e (d, s))) \<le> steps_left s - 1"
proof (cases "(e, (d, s))" rule: job_step.cases)
  case (1 e0 d0)
  then show ?thesis by simp
next
  case (2 e0 d0 j rest)
  then show ?thesis by (auto simp: steps_left_Cons split: option.split)
next
  case (3 e0 d0 j found rest)
  then show ?thesis by (auto simp: steps_left_Cons split: option.split)
next
  case (4 e0 d0 j found rest)
  then show ?thesis by (auto simp: steps_left_Cons split: option.split)
next
  case (5 e0 d0 j found rest)
  then show ?thesis by (auto simp: steps_left_Cons)
next
  case (6 e0 d0 j found rest)
  then show ?thesis by (auto simp: steps_left_Cons)
qed

lemma race_progress:
  "race e1 e2 sched (d, s1, s2) = (d', q1, q2) \<Longrightarrow>
     steps_left q1 \<le> steps_left s1 - count_list sched True
     \<and> steps_left q2 \<le> steps_left s2 - count_list sched False"
proof (induction sched arbitrary: d s1 s2)
  case Nil
  then show ?case by simp
next
  case (Cons first sched)
  show ?case
  proof (cases first)
    case True
    obtain d1 s1' where s: "job_step e1 (d, s1) = (d1, s1')"
      by (cases "job_step e1 (d, s1)") auto
    have le: "steps_left s1' \<le> steps_left s1 - 1"
      using step_progress[of e1 d s1] s by simp
    have "race e1 e2 sched (d1, s1', s2) = (d', q1, q2)"
      using Cons.prems True s by simp
    from Cons.IH[OF this]
    have a: "steps_left q1 \<le> steps_left s1' - count_list sched True"
      and b: "steps_left q2 \<le> steps_left s2 - count_list sched False" by simp_all
    have "steps_left q1 \<le> steps_left s1 - (1 + count_list sched True)" using a le by arith
    then show ?thesis using b True by simp
  next
    case False
    obtain d1 s2' where s: "job_step e2 (d, s2) = (d1, s2')"
      by (cases "job_step e2 (d, s2)") auto
    have le: "steps_left s2' \<le> steps_left s2 - 1"
      using step_progress[of e2 d s2] s by simp
    have "race e1 e2 sched (d1, s1, s2') = (d', q1, q2)"
      using Cons.prems False s by simp
    from Cons.IH[OF this]
    have a: "steps_left q1 \<le> steps_left s1 - count_list sched True"
      and b: "steps_left q2 \<le> steps_left s2' - count_list sched False" by simp_all
    have "steps_left q2 \<le> steps_left s2 - (1 + count_list sched False)" using b le by arith
    then show ?thesis using a False by simp
  qed
qed

lemma race_finishes:
  assumes "5 * length s1 \<le> count_list sched True" and "5 * length s2 \<le> count_list sched False"
  shows "snd (race e1 e2 sched (d, s1, s2)) = ([], [])"
proof -
  obtain d' q1 q2 where r: "race e1 e2 sched (d, s1, s2) = (d', q1, q2)"
    by (cases "race e1 e2 sched (d, s1, s2)") auto
  from race_progress[OF r] assms steps_left_bound[of s1] steps_left_bound[of s2]
  have "steps_left q1 = 0" "steps_left q2 = 0" by simp_all
  then show ?thesis using r by (simp add: steps_left_zero)
qed

section \<open>A path that runs alone\<close>

lemma run_idle [simp]: "run e n (d, []) = (d, [])"
  by (induction n) simp_all

lemma race_first_alone:
  "race e1 e2 (replicate n True) (d, s1, s2)
     = (fst (run e1 n (d, s1)), snd (run e1 n (d, s1)), s2)"
proof (induction n arbitrary: d s1)
  case 0
  then show ?case by simp
next
  case (Suc n)
  obtain d' s1' where s: "job_step e1 (d, s1) = (d', s1')"
    by (cases "job_step e1 (d, s1)") auto
  show ?case using Suc[of d' s1'] s by simp
qed

lemma race_second_alone:
  "race e1 e2 (replicate n False) (d, s1, s2)
     = (fst (run e2 n (d, s2)), s1, snd (run e2 n (d, s2)))"
proof (induction n arbitrary: d s2)
  case 0
  then show ?case by simp
next
  case (Suc n)
  obtain d' s2' where s: "job_step e2 (d, s2) = (d', s2')"
    by (cases "job_step e2 (d, s2)") auto
  show ?case using Suc[of d' s2'] s by simp
qed

lemma completes_done:
  assumes "job_step e (d, (j, p) # rest) = (outcome e d (j, p), rest)"
  shows "completes e d j p rest"
  unfolding completes_def
proof (intro exI[of _ 1] conjI allI impI)
  show "1 \<le> weight p" using weight_pos[of p] by simp
  fix n :: nat assume "1 \<le> n"
  then obtain m where n: "n = Suc m" by (cases n) auto
  show "run e n (d, (j, p) # rest) = run e (n - 1) (outcome e d (j, p), rest)"
    using assms by (simp add: n)
qed

lemma completes_then:
  assumes step: "job_step e (d, (j, p) # rest) = (d1, (j, p1) # rest)"
    and out: "outcome e d (j, p) = outcome e d1 (j, p1)"
    and w: "weight p1 < weight p"
    and nxt: "completes e d1 j p1 rest"
  shows "completes e d j p rest"
proof -
  obtain k where k: "k \<le> weight p1"
    "\<And>n. k \<le> n \<Longrightarrow> run e n (d1, (j, p1) # rest) = run e (n - k) (outcome e d1 (j, p1), rest)"
    using nxt unfolding completes_def by blast
  show ?thesis
    unfolding completes_def
  proof (intro exI[of _ "Suc k"] conjI allI impI)
    show "Suc k \<le> weight p" using k(1) w by simp
    fix n assume "Suc k \<le> n"
    then obtain m where n: "n = Suc m" and m: "k \<le> m" by (cases n) auto
    show "run e n (d, (j, p) # rest) = run e (n - Suc k) (outcome e d (j, p), rest)"
      using step k(2)[OF m] by (simp add: n out)
  qed
qed

lemma completes_notify: "completes e d j (AtNotify found) rest"
  by (rule completes_done) (simp add: from_notify_def)

lemma completes_count: "completes e d j (AtCount found) rest"
proof (cases "j_inbound j")
  case True
  show ?thesis
    by (rule completes_then[OF _ _ _ completes_notify]) (simp_all add: True from_count_def)
next
  case False
  show ?thesis by (rule completes_done) (simp add: False from_count_def)
qed

lemma completes_insert: "completes e d j (AtInsert found) rest"
proof (cases "insert_interaction (job_row j found) d")
  case None
  show ?thesis by (rule completes_done) (simp add: None from_insert_def)
next
  case (Some d1)
  show ?thesis
    by (rule completes_then[OF _ _ _ completes_count]) (simp_all add: Some from_insert_def)
qed

lemma completes_check: "completes e d j (AtCheck found) rest"
proof (cases "single (interaction_rows d (j_key j))")
  case None
  show ?thesis
    by (rule completes_then[OF _ _ _ completes_insert]) (simp_all add: None from_check_def)
next
  case (Some existing)
  show ?thesis by (rule completes_done) (simp add: Some from_check_def)
qed

lemma completes_lookup: "completes e d j AtLookup rest"
proof (cases "lookup d j")
  case None
  show ?thesis by (rule completes_done) (simp add: None from_lookup_def)
next
  case (Some found)
  show ?thesis
    by (rule completes_then[OF _ _ _ completes_check]) (simp_all add: Some from_lookup_def)
qed

lemma completes_any: "completes e d j p rest"
  by (cases p)
     (simp_all add: completes_lookup completes_check completes_insert completes_count
        completes_notify)

lemma run_all:
  "steps_left s \<le> n \<Longrightarrow> run e n (d, s) = (foldl (outcome e) d s, [])"
proof (induction s arbitrary: d n)
  case Nil
  then show ?case by simp
next
  case (Cons x s)
  obtain j p where x: "x = (j, p)" by (cases x) auto
  obtain k where k: "k \<le> weight p"
    "\<And>m. k \<le> m \<Longrightarrow> run e m (d, (j, p) # s) = run e (m - k) (outcome e d (j, p), s)"
    using completes_any[of e d j p s] unfolding completes_def by blast
  have n: "k \<le> n" "steps_left s \<le> n - k"
    using Cons.prems k(1) by (simp_all add: x steps_left_Cons)
  show ?case
    using k(2)[OF n(1)] Cons.IH[OF n(2), of "outcome e d (j, p)"] by (simp add: x)
qed

lemma run_path:
  "run e (5 * length s) (d, s) = (foldl (outcome e) d s, [])"
  by (rule run_all) (rule steps_left_bound)

section \<open>The paths and the handlers\<close>

lemma job_row_fields [simp]:
  "fi_at_uri (job_row j found) = j_key j"
  "fi_actor_did (job_row j found) = j_actor j"
  "fi_interaction_type (job_row j found) = kind_name (j_kind j)"
  by (simp_all add: job_row_def)

lemma from_check_mirror:
  assumes "j_inbound j"
  shows "from_check e j found d =
     mirror_write e d (job_row j found) (job_bump (j_kind j) (fst found)) (snd found)
       (kind_name (j_kind j)) (if j_kind j = KFollow then None else Some (fst found))"
  using assms
  by (simp add: from_check_def from_insert_def from_count_def from_notify_def mirror_write_def
        split: option.split)

lemma from_lookup_post:
  assumes "j_inbound j" and "j_kind j \<noteq> KFollow"
  shows "from_lookup e j d =
     post_mirror e d (j_subject j) (\<lambda>t. job_row j (t, [])) (job_bump (j_kind j))
       (kind_name (j_kind j))"
  using assms
  by (simp add: from_lookup_def lookup_def post_mirror_def from_check_mirror job_row_def
        split: option.split)

lemma from_lookup_profile:
  assumes "j_inbound j" and "j_kind j = KFollow"
  shows "from_lookup e j d =
     profile_mirror e d (j_subject j) (\<lambda>t. job_row j (t, [])) (job_bump (j_kind j))
       (kind_name (j_kind j))"
  using assms
  by (simp add: from_lookup_def lookup_def profile_mirror_def from_check_mirror job_row_def
        split: option.split)

lemma like_job:
  "from_lookup e \<lparr>j_kind = KLike, j_inbound = True, j_subject = u, j_actor = a,
                  j_key = like_uri a k, j_metadata = None\<rparr> d
     = post_mirror e d u (like_row a k) increment_post_likes ''like''"
proof -
  have "(\<lambda>t. job_row \<lparr>j_kind = KLike, j_inbound = True, j_subject = u, j_actor = a,
                      j_key = like_uri a k, j_metadata = None\<rparr> (t, [])) = like_row a k"
    by (rule ext) (simp add: job_row_def like_row_def)
  moreover have "job_bump KLike = increment_post_likes" by (rule ext) simp
  ultimately show ?thesis by (simp add: from_lookup_post)
qed

lemma repost_job:
  "from_lookup e \<lparr>j_kind = KRepost, j_inbound = True, j_subject = u, j_actor = a,
                  j_key = repost_uri a k, j_metadata = None\<rparr> d
     = post_mirror e d u (repost_row a k) increment_post_reposts ''repost''"
proof -
  have "(\<lambda>t. job_row \<lparr>j_kind = KRepost, j_inbound = True, j_subject = u, j_actor = a,
                      j_key = repost_uri a k, j_metadata = None\<rparr> (t, [])) = repost_row a k"
    by (rule ext) (simp add: job_row_def repost_row_def)
  moreover have "job_bump KRepost = increment_post_reposts" by (rule ext) simp
  ultimately show ?thesis by (simp add: from_lookup_post)
qed

lemma reply_job:
  "from_lookup e \<lparr>j_kind = KReply, j_inbound = True, j_subject = u, j_actor = a,
                  j_key = key, j_metadata = post_metadata r\<rparr> d
     = post_mirror e d u (reply_row a r key) increment_post_replies ''reply''"
proof -
  have "(\<lambda>t. job_row \<lparr>j_kind = KReply, j_inbound = True, j_subject = u, j_actor = a,
                      j_key = key, j_metadata = post_metadata r\<rparr> (t, [])) = reply_row a r key"
    by (rule ext) (simp add: job_row_def reply_row_def post_metadata_def)
  moreover have "job_bump KReply = increment_post_replies" by (rule ext) simp
  ultimately show ?thesis by (simp add: from_lookup_post)
qed

lemma quote_job:
  "from_lookup e \<lparr>j_kind = KQuote, j_inbound = True, j_subject = u, j_actor = a,
                  j_key = key @ ''#quote'', j_metadata = post_metadata r\<rparr> d
     = post_mirror e d u (quote_row a r key) increment_post_quotes ''quote''"
proof -
  have "(\<lambda>t. job_row \<lparr>j_kind = KQuote, j_inbound = True, j_subject = u, j_actor = a,
                      j_key = key @ ''#quote'', j_metadata = post_metadata r\<rparr> (t, []))
          = quote_row a r key"
    by (rule ext) (simp add: job_row_def quote_row_def post_metadata_def)
  moreover have "job_bump KQuote = increment_post_quotes" by (rule ext) simp
  ultimately show ?thesis by (simp add: from_lookup_post)
qed

lemma follow_job:
  "from_lookup e \<lparr>j_kind = KFollow, j_inbound = True, j_subject = u, j_actor = a,
                  j_key = follow_uri a k, j_metadata = None\<rparr> d
     = profile_mirror e d u (follow_row a k) increment_profile_followers ''follow''"
proof -
  have "(\<lambda>t. job_row \<lparr>j_kind = KFollow, j_inbound = True, j_subject = u, j_actor = a,
                      j_key = follow_uri a k, j_metadata = None\<rparr> (t, [])) = follow_row a k"
    by (rule ext) (simp add: job_row_def follow_row_def)
  moreover have "job_bump KFollow = increment_profile_followers" by (rule ext) simp
  ultimately show ?thesis by (simp add: from_lookup_profile)
qed

lemma foldl_lookup:
  "foldl (outcome e) d (map (\<lambda>j. (j, AtLookup)) js) = foldl (\<lambda>d j. from_lookup e j d) d js"
  by (induction js arbitrary: d) simp_all

lemma post_jobs_alone:
  "foldl (\<lambda>d j. from_lookup e j d) d
     (case reply_parent_uri r of
        JNumber n \<Rightarrow> []
      | parent \<Rightarrow>
          map (\<lambda>parentUri.
                 \<lparr>j_kind = KReply, j_inbound = True, j_subject = parentUri,
                  j_actor = a, j_key = post_uri a k, j_metadata = post_metadata r\<rparr>)
              (local_uri parent)
          @ map (\<lambda>quotedUri.
                   \<lparr>j_kind = KQuote, j_inbound = True, j_subject = quotedUri,
                    j_actor = a, j_key = post_uri a k @ ''#quote'',
                    j_metadata = post_metadata r\<rparr>)
                (local_uri (embed_record_uri r)))
   = fst (handlePostEvent e d a ''create'' r k)"
  by (cases "reply_parent_uri r"; cases "embed_record_uri r")
     (simp_all add: handlePostEvent_create reply_job quote_job)

lemma inbound_alone:
  assumes "map_option operation (ev_commit event) = Some ''create''"
  shows "foldl (outcome e) d (path_start (Inbound event)) = fst (processEvent e d event)"
proof -
  obtain c where c: "ev_commit event = Some c" "operation c = ''create''"
    using assms by auto
  let ?a = "ev_did event" and ?r = "commit_record c" and ?k = "rkey c"
  consider (like) "collection c = ''app.bsky.feed.like''"
    | (repost) "collection c = ''app.bsky.feed.repost''"
    | (post) "collection c = ''app.bsky.feed.post''"
    | (follow) "collection c = ''app.bsky.graph.follow''"
    | (other) "collection c \<noteq> ''app.bsky.feed.like''" "collection c \<noteq> ''app.bsky.feed.repost''"
        "collection c \<noteq> ''app.bsky.feed.post''" "collection c \<noteq> ''app.bsky.graph.follow''"
    by blast
  then show ?thesis
  proof cases
    case like
    then show ?thesis using c
      by (simp add: foldl_lookup event_jobs_def Let_def processEvent_def handleLikeEvent_create like_job
            split: sum.split option.split)
  next
    case repost
    then show ?thesis using c
      by (simp add: foldl_lookup event_jobs_def Let_def processEvent_def handleRepostEvent_create
            repost_job split: sum.split option.split)
  next
    case post
    then show ?thesis using c post_jobs_alone[where e = e and d = d and r = ?r and a = ?a and k = ?k]
      by (simp add: foldl_lookup event_jobs_def Let_def processEvent_def)
  next
    case follow
    then show ?thesis using c
      by (simp add: foldl_lookup event_jobs_def Let_def processEvent_def handleFollowEvent_create
            follow_job split: option.split)
  next
    case other
    then show ?thesis using c by (simp add: event_jobs_def Let_def processEvent_def)
  qed
qed

lemma outbound_alone:
  assumes "creates d0 (Outbound act a t uri)"
  shows "foldl (outcome e) d (path_start (Outbound act a t uri)) = local_mirror act a t uri d"
  using assms
  by (cases act)
     (simp_all add: outbound_job_def from_insert_def from_count_def mirror_created_def
        job_row_def split: option.split)

lemma path_alone:
  assumes "creates d0 p"
  shows "foldl (outcome e) d (path_start p) = sequential e p d"
proof (cases p)
  case (Inbound event)
  then show ?thesis using assms inbound_alone[of event e d] by simp
next
  case (Outbound act a t uri)
  then show ?thesis using assms outbound_alone[of d0 act a t uri e d] by simp
qed

text \<open>A path starts with jobs that are aimed well and wait.\<close>

lemma event_jobs_inbound: "j \<in> set (event_jobs event) \<Longrightarrow> j_inbound j"
  by (auto simp: event_jobs_def Let_def split: option.splits if_splits sum.splits jsval.splits)

lemma path_start_ok:
  assumes "creates d p"
  shows "list_all (job_ok d) (path_start p)" and "list_all (\<lambda>x. waiting (snd x)) (path_start p)"
proof -
  show "list_all (job_ok d) (path_start p)"
  proof (cases p)
    case (Inbound event)
    then show ?thesis
      by (auto simp: list_all_iff job_ok_def event_jobs_inbound)
  next
    case (Outbound act a t uri)
    then show ?thesis using assms
      by (cases act) (simp_all add: outbound_job_def job_ok_def target_ok_def)
  qed
  show "list_all (\<lambda>x. waiting (snd x)) (path_start p)"
  proof (cases p)
    case (Inbound event)
    then show ?thesis by (auto simp: list_all_iff)
  next
    case (Outbound act a t uri)
    then show ?thesis by (cases act) (simp_all add: outbound_job_def)
  qed
qed

lemma owed_waiting: "list_all (\<lambda>x. waiting (snd x)) s \<Longrightarrow> owed ty s = 0"
proof (induction s)
  case Nil
  then show ?case by (simp add: owed_def)
next
  case (Cons x s)
  have "owes ty x = 0" using Cons.prems by (cases "snd x") (simp_all add: owes_def)
  then show ?case using Cons by (simp add: owed_Cons)
qed

lemma settled_start: "list_all (\<lambda>x. waiting (snd x)) s \<Longrightarrow> settled d0 d (map fst s) s"
  unfolding settled_def by (auto simp: list_all_iff)

lemma race_inv_start:
  assumes "list_all (job_ok d) s1" and "list_all (job_ok d) s2"
    and "list_all (\<lambda>x. waiting (snd x)) s1" and "list_all (\<lambda>x. waiting (snd x)) s2"
  shows "race_inv d (map fst s1) (map fst s2) (d, s1, s2)"
  using assms by (simp add: race_inv_def owed_waiting settled_start)

lemma settled_finished:
  assumes "settled d0 d jobs []" and "j \<in> set jobs" and "resolves d0 j"
  shows "interaction_rows d (j_key j) \<noteq> []"
  using assms unfolding settled_def by auto

text \<open>
  Claim C2.  Two processing paths run on one database, their storage statements
  interleaved in any order.  A path is the poller on a create event (a like, a repost, a
  post with its reply and quote jobs, a follow) or the mirror step of the outbound agent
  on a like, repost, reply or follow.  A path that runs alone leaves what the handler, or
  the mirror step of the agent, computes, so the statements are those of the handlers.
  Under every schedule that gives each path five turns for each of its jobs both paths
  finish, and then: every interaction URI has the rows it had before, or had none and
  has exactly one; every job whose subject is there has left its key stored, with
  exactly one row when the key was not stored before; and every counter has grown by
  exactly the number of interaction records of its type that were stored.  Both paths
  may pass the existence check; the insert of a stored key fails at the storage layer,
  and a path counts only after its own insert.
\<close>

theorem racing_paths_store_once:
  assumes "creates d p1" and "creates d p2"
    and "5 * length (path_start p1) \<le> count_list sched True"
    and "5 * length (path_start p2) \<le> count_list sched False"
    and "distinct (map post_id (posts d))" and "distinct (map profile_id (profiles d))"
  shows "fst (race e1 e2 (replicate (5 * length (path_start p1)) True)
                (d, path_start p1, path_start p2)) = sequential e1 p1 d
       \<and> fst (race e1 e2 (replicate (5 * length (path_start p2)) False)
                (d, path_start p1, path_start p2)) = sequential e2 p2 d
       \<and> snd (race e1 e2 sched (d, path_start p1, path_start p2)) = ([], [])
       \<and> (\<forall>k. interaction_rows (fst (race e1 e2 sched (d, path_start p1, path_start p2))) k
                = interaction_rows d k
              \<or> (interaction_rows d k = []
                 \<and> length (interaction_rows
                             (fst (race e1 e2 sched (d, path_start p1, path_start p2))) k) = 1))
       \<and> (\<forall>x \<in> set (path_start p1 @ path_start p2).
             resolves d (fst x) \<longrightarrow>
               interaction_rows (fst (race e1 e2 sched (d, path_start p1, path_start p2)))
                 (j_key (fst x)) \<noteq> []
               \<and> (interaction_rows d (j_key (fst x)) = [] \<longrightarrow>
                    length (interaction_rows
                              (fst (race e1 e2 sched (d, path_start p1, path_start p2)))
                              (j_key (fst x))) = 1))
       \<and> (\<forall>ty. counter_total ty (fst (race e1 e2 sched (d, path_start p1, path_start p2)))
                  + length (type_rows ty d)
                = counter_total ty d
                  + length (type_rows ty
                      (fst (race e1 e2 sched (d, path_start p1, path_start p2)))))"
proof -
  let ?s1 = "path_start p1" and ?s2 = "path_start p2"
  obtain d' where d': "d' = fst (race e1 e2 sched (d, ?s1, ?s2))" by simp
  have a1: "fst (race e1 e2 (replicate (5 * length ?s1) True) (d, ?s1, ?s2)) = sequential e1 p1 d"
    by (simp add: race_first_alone run_path path_alone[OF assms(1)])
  have a2: "fst (race e1 e2 (replicate (5 * length ?s2) False) (d, ?s1, ?s2)) = sequential e2 p2 d"
    by (simp add: race_second_alone run_path path_alone[OF assms(2)])
  have fin: "snd (race e1 e2 sched (d, ?s1, ?s2)) = ([], [])"
    using assms(3,4) by (rule race_finishes)
  then have r: "race e1 e2 sched (d, ?s1, ?s2) = (d', [], [])"
    using d' by (cases "race e1 e2 sched (d, ?s1, ?s2)") simp
  have u: "unique_ids d" using assms(5,6) by (simp add: unique_ids_def)
  have "race_inv d (map fst ?s1) (map fst ?s2) (race e1 e2 sched (d, ?s1, ?s2))"
    by (intro race_inv_preserved[OF u] race_inv_start path_start_ok[OF assms(1)]
          path_start_ok[OF assms(2)])
  then have inv: "race_inv d (map fst ?s1) (map fst ?s2) (d', [], [])" by (simp add: r)
  have kg: "keys_grow d d'"
    and ct: "\<And>ty. counter_total ty d' + owed ty [] + owed ty [] + length (type_rows ty d)
                   = counter_total ty d + length (type_rows ty d')"
    and st1: "settled d d' (map fst ?s1) []" and st2: "settled d d' (map fst ?s2) []"
    using inv by (auto simp: race_inv_def)
  have keys: "\<forall>k. interaction_rows d' k = interaction_rows d k
              \<or> (interaction_rows d k = [] \<and> length (interaction_rows d' k) = 1)"
    using kg by (simp add: keys_grow_def)
  have stored: "interaction_rows d' (j_key (fst x)) \<noteq> []"
    if "x \<in> set (?s1 @ ?s2)" "resolves d (fst x)" for x
  proof -
    have "fst x \<in> set (map fst ?s1) \<or> fst x \<in> set (map fst ?s2)" using that(1) by auto
    then show ?thesis
      using settled_finished[OF st1 _ that(2)] settled_finished[OF st2 _ that(2)] by blast
  qed
  have once: "\<forall>x \<in> set (?s1 @ ?s2).
             resolves d (fst x) \<longrightarrow>
               interaction_rows d' (j_key (fst x)) \<noteq> []
               \<and> (interaction_rows d (j_key (fst x)) = [] \<longrightarrow>
                    length (interaction_rows d' (j_key (fst x))) = 1)"
  proof (intro ballI impI conjI)
    fix x assume x: "x \<in> set (?s1 @ ?s2)" "resolves d (fst x)"
    show "interaction_rows d' (j_key (fst x)) \<noteq> []" using x by (rule stored)
    assume "interaction_rows d (j_key (fst x)) = []"
    then show "length (interaction_rows d' (j_key (fst x))) = 1"
      using keys stored[OF x] by metis
  qed
  have totals: "\<forall>ty. counter_total ty d' + length (type_rows ty d)
                = counter_total ty d + length (type_rows ty d')"
    using ct by (simp add: owed_def)
  show ?thesis
    unfolding d'[symmetric]
    using a1 a2 fin keys once totals by (intro conjI)
qed

lemma like_create_path:
  "path_start (Inbound like_create)
     = [(\<lparr>j_kind = KLike, j_inbound = True,
          j_subject = ''at://alice.cannect.space/app.bsky.feed.post/1'',
          j_actor = ''did:plc:bob'', j_key = ''at://did:plc:bob/app.bsky.feed.like/k1'',
          j_metadata = None\<rparr>, AtLookup)]"
  by (simp add: event_jobs_def like_create_def like_create_commit_def like_record_def
        no_record_def CANNECT_DOMAIN_def like_uri_def)

lemma repost_echo_path:
  "path_start (Inbound repost_echo)
     = [(\<lparr>j_kind = KRepost, j_inbound = True,
          j_subject = ''at://alice.cannect.space/app.bsky.feed.post/1'',
          j_actor = ''did:plc:alice'', j_key = ''at://did:plc:alice/app.bsky.feed.repost/r1'',
          j_metadata = None\<rparr>, AtLookup)]"
  by (simp add: event_jobs_def repost_echo_def like_record_def
        no_record_def CANNECT_DOMAIN_def repost_uri_def)

lemma repost_written_path:
  "path_start repost_written
     = [(\<lparr>j_kind = KRepost, j_inbound = False, j_subject = ''p1'',
          j_actor = ''did:plc:alice'', j_key = ''at://did:plc:alice/app.bsky.feed.repost/r1'',
          j_metadata = None\<rparr>, AtInsert (''p1'', ''p1''))]"
  by (simp add: repost_written_def outbound_job_def repost_target_def)

lemma like_race:
  "race env0 env0 taking_turns
     (db0, path_start (Inbound like_create), path_start (Inbound like_create))
   = (fst (processEvent env0 db0 like_create), [], [])"
  unfolding like_create_path like_create_once taking_turns_def
  by (simp add: lookup_def posts_by_uri_def interaction_rows_def insert_interaction_def
        job_row_def db0_def post1_def increment_post_likes_def createExternalNotification_def
        getBlueskyProfile_def env0_def)

lemma repost_race:
  "race env0 env0 agent_between (db0, path_start (Inbound repost_echo), path_start repost_written)
   = (db0\<lparr>posts := [post1\<lparr>reposts_count := 1\<rparr>],
          federated_interactions :=
            [\<lparr>fi_post_id = Some ''p1'', fi_target_user_id = None,
              fi_interaction_type = ''repost'', fi_actor_did = ''did:plc:alice'',
              fi_at_uri = ''at://did:plc:alice/app.bsky.feed.repost/r1'',
              fi_metadata = None\<rparr>]\<rparr>, [], [])"
  unfolding repost_echo_path repost_written_path agent_between_def
  by (simp add: lookup_def posts_by_uri_def interaction_rows_def insert_interaction_def
        job_row_def db0_def post1_def increment_post_reposts_def)

lemma quote_reply_path:
  "path_start (Inbound quote_reply)
     = [(\<lparr>j_kind = KReply, j_inbound = True,
          j_subject = ''at://alice.cannect.space/app.bsky.feed.post/1'',
          j_actor = ''did:plc:bob'', j_key = ''at://did:plc:bob/app.bsky.feed.post/k4'',
          j_metadata = Some (Some ''hello'', None)\<rparr>, AtLookup),
        (\<lparr>j_kind = KQuote, j_inbound = True,
          j_subject = ''at://alice.cannect.space/app.bsky.feed.post/1'',
          j_actor = ''did:plc:bob'', j_key = ''at://did:plc:bob/app.bsky.feed.post/k4#quote'',
          j_metadata = Some (Some ''hello'', None)\<rparr>, AtLookup)]"
  by (simp add: event_jobs_def Let_def quote_reply_def quote_reply_commit_def
        no_record_def CANNECT_DOMAIN_def post_uri_def post_metadata_def)

lemma quote_reply_race:
  "race env0 env0 (taking_turns @ taking_turns)
     (db0, path_start (Inbound quote_reply), path_start (Inbound quote_reply))
   = (db0\<lparr>posts := [post1\<lparr>replies_count := 1, quotes_count := 1\<rparr>],
          federated_interactions :=
            [\<lparr>fi_post_id = Some ''p1'', fi_target_user_id = None,
              fi_interaction_type = ''reply'', fi_actor_did = ''did:plc:bob'',
              fi_at_uri = ''at://did:plc:bob/app.bsky.feed.post/k4'',
              fi_metadata = Some (Some ''hello'', None)\<rparr>,
             \<lparr>fi_post_id = Some ''p1'', fi_target_user_id = None,
              fi_interaction_type = ''quote'', fi_actor_did = ''did:plc:bob'',
              fi_at_uri = ''at://did:plc:bob/app.bsky.feed.post/k4#quote'',
              fi_metadata = Some (Some ''hello'', None)\<rparr>],
          notifications :=
            [\<lparr>n_user_id = ''u1'', n_actor_id = None, n_actor_did = ''did:plc:bob'',
              n_actor_handle = ''did:plc:bob'', n_actor_display_name = None,
              n_actor_avatar = None, n_reason = ''reply'', n_post_id = Some ''p1'',
              n_is_external = True\<rparr>,
             \<lparr>n_user_id = ''u1'', n_actor_id = None, n_actor_did = ''did:plc:bob'',
              n_actor_handle = ''did:plc:bob'', n_actor_display_name = None,
              n_actor_avatar = None, n_reason = ''quote'', n_post_id = Some ''p1'',
              n_is_external = True\<rparr>],
          profile_requests := [''did:plc:bob'', ''did:plc:bob'']\<rparr>, [], [])"
  unfolding quote_reply_path taking_turns_def
  by (simp add: lookup_def posts_by_uri_def interaction_rows_def insert_interaction_def
        job_row_def db0_def post1_def increment_post_replies_def increment_post_quotes_def
        createExternalNotification_def getBlueskyProfile_def env0_def)

lemma quote_reply_once:
  "race env0 env0 (taking_turns @ taking_turns)
     (db0, path_start (Inbound quote_reply), path_start (Inbound quote_reply))
   = (fst (processEvent env0 db0 quote_reply), [], [])"
  unfolding quote_reply_race
  by (simp add: processEvent_def quote_reply_def quote_reply_commit_def no_record_def
        handlePostEvent_def reply_part_def quote_part_def CANNECT_DOMAIN_def posts_by_uri_def
        db0_def post1_def post_uri_def interaction_rows_def insert_interaction_def
        increment_post_replies_def increment_post_quotes_def
        createExternalNotification_def getBlueskyProfile_def env0_def)

theorem racing_paths_store_once_witness:
  "creates db0 (Inbound like_create)
   \<and> 5 * length (path_start (Inbound like_create)) \<le> count_list taking_turns True
   \<and> 5 * length (path_start (Inbound like_create)) \<le> count_list taking_turns False
   \<and> distinct (map post_id (posts db0)) \<and> distinct (map profile_id (profiles db0))
   \<and> race env0 env0 taking_turns
        (db0, path_start (Inbound like_create), path_start (Inbound like_create))
       = (fst (processEvent env0 db0 like_create), [], [])
   \<and> interaction_rows db0 ''at://did:plc:bob/app.bsky.feed.like/k1'' = []
   \<and> length (interaction_rows (fst (processEvent env0 db0 like_create))
               ''at://did:plc:bob/app.bsky.feed.like/k1'') = 1
   \<and> counter_total ''like'' (fst (processEvent env0 db0 like_create))
       = counter_total ''like'' db0 + 1
   \<and> creates db0 (Inbound quote_reply)
   \<and> 5 * length (path_start (Inbound quote_reply))
       \<le> count_list (taking_turns @ taking_turns) True
   \<and> 5 * length (path_start (Inbound quote_reply))
       \<le> count_list (taking_turns @ taking_turns) False
   \<and> race env0 env0 (taking_turns @ taking_turns)
        (db0, path_start (Inbound quote_reply), path_start (Inbound quote_reply))
       = (fst (processEvent env0 db0 quote_reply), [], [])
   \<and> length (interaction_rows (fst (processEvent env0 db0 quote_reply))
               ''at://did:plc:bob/app.bsky.feed.post/k4'') = 1
   \<and> length (interaction_rows (fst (processEvent env0 db0 quote_reply))
               ''at://did:plc:bob/app.bsky.feed.post/k4#quote'') = 1
   \<and> counter_total ''reply'' (fst (processEvent env0 db0 quote_reply))
       = counter_total ''reply'' db0 + 1
   \<and> counter_total ''quote'' (fst (processEvent env0 db0 quote_reply))
       = counter_total ''quote'' db0 + 1
   \<and> creates db0 (Inbound repost_echo) \<and> creates db0 repost_written
   \<and> 5 * length (path_start (Inbound repost_echo)) \<le> count_list agent_between True
   \<and> 5 * length (path_start repost_written) \<le> count_list agent_between False
   \<and> snd (race env0 env0 agent_between
             (db0, path_start (Inbound repost_echo), path_start repost_written)) = ([], [])
   \<and> length (interaction_rows
               (fst (race env0 env0 agent_between
                       (db0, path_start (Inbound repost_echo), path_start repost_written)))
               ''at://did:plc:alice/app.bsky.feed.repost/r1'') = 1
   \<and> counter_total ''repost''
        (fst (race env0 env0 agent_between
                (db0, path_start (Inbound repost_echo), path_start repost_written)))
       = counter_total ''repost'' db0 + 1
   \<and> fst (race env0 env0 agent_between
             (db0, path_start (Inbound repost_echo), path_start repost_written))
       = sequential env0 repost_written db0"
proof -
  have l1: "creates db0 (Inbound like_create)"
    by (simp add: like_create_def like_create_commit_def)
  have l3: "5 * length (path_start (Inbound like_create)) \<le> count_list taking_turns True"
    "5 * length (path_start (Inbound like_create)) \<le> count_list taking_turns False"
    unfolding like_create_path taking_turns_def by simp_all
  note like = racing_paths_store_once[OF l1 l1 l3 db0_ids, of env0 env0]
  have fresh: "interaction_rows db0 ''at://did:plc:bob/app.bsky.feed.like/k1'' = []"
    by (rule db0_no_rows)
  have like_rows: "length (interaction_rows (fst (processEvent env0 db0 like_create))
               ''at://did:plc:bob/app.bsky.feed.like/k1'') = 1"
    using like[THEN conjunct2, THEN conjunct2, THEN conjunct2, THEN conjunct1,
        rule_format, of "''at://did:plc:bob/app.bsky.feed.like/k1''"] fresh
    unfolding like_race
    by (simp add: like_create_once interaction_rows_def)
  have tr: "length (type_rows ''like'' db0) = 0"
    "length (type_rows ''like'' (fst (processEvent env0 db0 like_create))) = 1"
    by (simp_all add: like_create_once type_rows_def) (simp add: db0_def)
  have like_total: "counter_total ''like'' (fst (processEvent env0 db0 like_create))
       = counter_total ''like'' db0 + 1"
    using like[THEN conjunct2, THEN conjunct2, THEN conjunct2, THEN conjunct2, THEN conjunct2,
        rule_format, of "''like''"]
    unfolding like_race by (simp add: tr)
  have q1: "creates db0 (Inbound quote_reply)"
    by (simp add: quote_reply_def quote_reply_commit_def)
  have q3: "5 * length (path_start (Inbound quote_reply))
              \<le> count_list (taking_turns @ taking_turns) True"
    "5 * length (path_start (Inbound quote_reply))
              \<le> count_list (taking_turns @ taking_turns) False"
    unfolding quote_reply_path taking_turns_def by simp_all
  note post = racing_paths_store_once[OF q1 q1 q3 db0_ids, of env0 env0]
  have post_rows: "length (interaction_rows (fst (processEvent env0 db0 quote_reply))
               ''at://did:plc:bob/app.bsky.feed.post/k4'') = 1"
    "length (interaction_rows (fst (processEvent env0 db0 quote_reply))
               ''at://did:plc:bob/app.bsky.feed.post/k4#quote'') = 1"
    using post[THEN conjunct2, THEN conjunct2, THEN conjunct2, THEN conjunct1,
        rule_format, of "''at://did:plc:bob/app.bsky.feed.post/k4''"]
      post[THEN conjunct2, THEN conjunct2, THEN conjunct2, THEN conjunct1,
        rule_format, of "''at://did:plc:bob/app.bsky.feed.post/k4#quote''"]
    unfolding quote_reply_once
    by (simp_all add: quote_reply_once[unfolded quote_reply_race, symmetric, simplified]
          interaction_rows_def)
  have qtr: "length (type_rows ty db0) = 0"
    "length (type_rows ''reply'' (fst (processEvent env0 db0 quote_reply))) = 1"
    "length (type_rows ''quote'' (fst (processEvent env0 db0 quote_reply))) = 1" for ty
    by (simp_all add: quote_reply_once[unfolded quote_reply_race, symmetric, simplified]
          type_rows_def) (simp add: db0_def)
  have post_total: "counter_total ''reply'' (fst (processEvent env0 db0 quote_reply))
       = counter_total ''reply'' db0 + 1"
    "counter_total ''quote'' (fst (processEvent env0 db0 quote_reply))
       = counter_total ''quote'' db0 + 1"
    using post[THEN conjunct2, THEN conjunct2, THEN conjunct2, THEN conjunct2, THEN conjunct2,
        rule_format, of "''reply''"]
      post[THEN conjunct2, THEN conjunct2, THEN conjunct2, THEN conjunct2, THEN conjunct2,
        rule_format, of "''quote''"]
    unfolding quote_reply_once by (simp_all add: qtr)
  have r1: "creates db0 (Inbound repost_echo)" by (simp add: repost_echo_def)
  have r2: "creates db0 repost_written"
    by (simp add: repost_written_def repost_target_def db0_def post1_def)
  have r3: "5 * length (path_start (Inbound repost_echo)) \<le> count_list agent_between True"
    "5 * length (path_start repost_written) \<le> count_list agent_between False"
    unfolding repost_echo_path repost_written_path agent_between_def by simp_all
  note repost = racing_paths_store_once[OF r1 r2 r3 db0_ids, of env0 env0]
  have fin: "snd (race env0 env0 agent_between
             (db0, path_start (Inbound repost_echo), path_start repost_written)) = ([], [])"
    by (rule repost[THEN conjunct2, THEN conjunct2, THEN conjunct1])
  have rows: "length (interaction_rows
               (fst (race env0 env0 agent_between
                       (db0, path_start (Inbound repost_echo), path_start repost_written)))
               ''at://did:plc:alice/app.bsky.feed.repost/r1'') = 1"
    unfolding repost_race by (simp add: interaction_rows_def)
  have total: "counter_total ''repost''
        (fst (race env0 env0 agent_between
                (db0, path_start (Inbound repost_echo), path_start repost_written)))
       = counter_total ''repost'' db0 + 1"
    unfolding repost_race by (simp add: counter_total_def db0_def post1_def)
  have seq: "fst (race env0 env0 agent_between
             (db0, path_start (Inbound repost_echo), path_start repost_written))
       = sequential env0 repost_written db0"
    unfolding repost_race
    by (simp add: repost_written_def mirror_created_def insert_interaction_def
          interaction_rows_def db0_def repost_target_def increment_post_reposts_def post1_def)
  show ?thesis
    by (intro conjI l1 l3 db0_ids like_race fresh like_rows like_total q1 q3 quote_reply_once
          post_rows post_total r1 r2 r3 fin rows total seq)
qed

end
